(* ===== verification/Prelude.thy ===== *)
theory Prelude
  imports Main "HOL-Library.Word"
begin

text \<open>
  Shared vocabulary of the development: Go's 64-bit integers, byte strings and the
  operations of packages \<open>strings\<close> and \<open>strconv\<close> that the program uses.

  A Go \<open>string\<close> or \<open>[]byte\<close> is an Isabelle \<^typ>\<open>string\<close>: a list of \<^typ>\<open>char\<close>, and a
  \<^typ>\<open>char\<close> is one byte. A Go \<open>int\<close>, \<open>int64\<close> or \<open>time.Duration\<close> is an \<^typ>\<open>int\<close> whose
  wrap-around is written out with \<open>wrap64\<close> wherever an operation of the program can
  leave the 64-bit range. A \<open>time.Time\<close> is the \<^typ>\<open>int\<close> number of nanoseconds since the
  Unix epoch.
\<close>

named_theorems go_arith \<open>rewrite rules of Go's integer operations on in-range values\<close>
named_theorems go_string \<open>rewrite rules of the string operations\<close>

type_synonym time = int
type_synonym duration = int
type_synonym ('e, 'a) result = "'e + 'a"

section \<open>Integers\<close>

definition int64_min :: int where "int64_min = - (2 ^ 63)"
definition int64_max :: int where "int64_max = 2 ^ 63 - 1"

definition wrap64 :: "int \<Rightarrow> int" where
  "wrap64 x = (x + 2 ^ 63) mod 2 ^ 64 - 2 ^ 63"

definition go_div :: "int \<Rightarrow> int \<Rightarrow> int" where
  "go_div a b = sgn a * sgn b * (\<bar>a\<bar> div \<bar>b\<bar>)"

definition go_mod :: "int \<Rightarrow> int \<Rightarrow> int" where
  "go_mod a b = a - b * go_div a b"

definition nanosecond :: duration where "nanosecond = 1"
definition millisecond :: duration where "millisecond = 1000000"
definition second :: duration where "second = 1000000000"
definition minute :: duration where "minute = 60 * second"
definition hour :: duration where "hour = 60 * minute"

lemmas duration_defs = nanosecond_def millisecond_def second_def minute_def hour_def

lemma wrap64_id [go_arith]: "int64_min \<le> x \<Longrightarrow> x \<le> int64_max \<Longrightarrow> wrap64 x = x"
  by (simp add: wrap64_def int64_min_def int64_max_def)

lemma wrap64_range: "int64_min \<le> wrap64 x \<and> wrap64 x \<le> int64_max"
proof -
  have "0 \<le> (x + 2 ^ 63) mod (2 ^ 64 :: int)" "(x + 2 ^ 63) mod (2 ^ 64 :: int) < 2 ^ 64"
    by simp_all
  then show ?thesis by (simp add: wrap64_def int64_min_def int64_max_def)
qed

lemma go_div_nonneg [go_arith]: "0 \<le> a \<Longrightarrow> 0 < b \<Longrightarrow> go_div a b = a div b"
  by (cases "a = 0") (simp_all add: go_div_def)

lemma go_mod_nonneg [go_arith]: "0 \<le> a \<Longrightarrow> 0 < b \<Longrightarrow> go_mod a b = a mod b"
  by (simp add: go_mod_def go_div_nonneg minus_mult_div_eq_mod)

lemma go_mod_eq_0_iff: "0 < b \<Longrightarrow> go_mod a b = 0 \<longleftrightarrow> b dvd a"
proof (cases "0 \<le> a")
  case True
  moreover assume "0 < b"
  ultimately show ?thesis by (simp add: go_mod_nonneg dvd_eq_mod_eq_0)
next
  case False
  moreover assume b: "0 < b"
  ultimately have "go_mod a b = - ((- a) mod b)"
    by (simp add: go_mod_def go_div_def minus_mult_div_eq_mod [symmetric])
  then show ?thesis by (simp add: dvd_eq_mod_eq_0 [symmetric])
qed

lemma go_div_exact: "0 < b \<Longrightarrow> go_mod a b = 0 \<Longrightarrow> b * go_div a b = a"
  by (simp add: go_mod_def)

section \<open>Byte strings\<close>

definition has_prefix :: "string \<Rightarrow> string \<Rightarrow> bool" where
  "has_prefix s p \<longleftrightarrow> take (length p) s = p"

definition has_suffix :: "string \<Rightarrow> string \<Rightarrow> bool" where
  "has_suffix s p \<longleftrightarrow> length p \<le> length s \<and> drop (length s - length p) s = p"

definition trim_prefix :: "string \<Rightarrow> string \<Rightarrow> string" where
  "trim_prefix s p = (if has_prefix s p then drop (length p) s else s)"

definition trim_suffix :: "string \<Rightarrow> string \<Rightarrow> string" where
  "trim_suffix s p = (if has_suffix s p then take (length s - length p) s else s)"

fun contains :: "string \<Rightarrow> string \<Rightarrow> bool" where
  "contains [] sub \<longleftrightarrow> sub = []"
| "contains (c # s) sub \<longleftrightarrow> has_prefix (c # s) sub \<or> contains s sub"

text \<open>\<open>strings.IndexByte\<close>: the position of the first occurrence, \<^const>\<open>None\<close> for -1.\<close>

fun index_byte :: "string \<Rightarrow> char \<Rightarrow> nat option" where
  "index_byte [] b = None"
| "index_byte (c # s) b = (if c = b then Some 0 else map_option Suc (index_byte s b))"

text \<open>\<open>strings.Split\<close> with a one-byte separator: always at least one part.\<close>

fun split_byte :: "string \<Rightarrow> char \<Rightarrow> string list" where
  "split_byte [] b = [[]]"
| "split_byte (c # s) b =
     (if c = b then [] # split_byte s b
      else (case split_byte s b of [] \<Rightarrow> [[c]] | p # ps \<Rightarrow> (c # p) # ps))"

fun replace_byte :: "string \<Rightarrow> char \<Rightarrow> string \<Rightarrow> string" where
  "replace_byte [] b r = []"
| "replace_byte (c # s) b r = (if c = b then r else [c]) @ replace_byte s b r"

definition to_lower_char :: "char \<Rightarrow> char" where
  "to_lower_char c =
     (let n = of_char c :: nat in if 65 \<le> n \<and> n \<le> 90 then char_of (n + 32) else c)"

definition to_upper_char :: "char \<Rightarrow> char" where
  "to_upper_char c =
     (let n = of_char c :: nat in if 97 \<le> n \<and> n \<le> 122 then char_of (n - 32) else c)"

text \<open>
  \<open>strings.ToLower\<close>. The code compares its result with ASCII texts only, so beside the
  ASCII letters only the two other runes with an ASCII lower case matter: U+0130 (bytes
  C4 B0), whose lower case is an \<open>i\<close>, and U+212A (bytes E2 84 AA), a \<open>k\<close>.
\<close>

fun to_lower :: "string \<Rightarrow> string" where
  "to_lower [] = []"
| "to_lower (c # s) =
     (if c = CHR 0xC4 \<and> has_prefix s [CHR 0xB0] then CHR ''i'' # to_lower (drop 1 s)
      else if c = CHR 0xE2 \<and> has_prefix s [CHR 0x84, CHR 0xAA] then CHR ''k'' # to_lower (drop 2 s)
      else to_lower_char c # to_lower s)"

text \<open>\<open>strings.ToUpper\<close> on an ASCII text.\<close>

definition to_upper :: "string \<Rightarrow> string" where "to_upper s = map to_upper_char s"

text \<open>
  Case folding against an ASCII text, as \<open>strings.EqualFold\<close> and the keys of
  \<open>encoding/json\<close> have it: U+017F (bytes C5 BF) folds to \<open>s\<close> and U+212A to \<open>k\<close>.
\<close>

fun fold_case :: "string \<Rightarrow> string" where
  "fold_case [] = []"
| "fold_case (c # s) =
     (if c = CHR 0xC5 \<and> has_prefix s [CHR 0xBF] then CHR ''s'' # fold_case (drop 1 s)
      else if c = CHR 0xE2 \<and> has_prefix s [CHR 0x84, CHR 0xAA] then CHR ''k'' # fold_case (drop 2 s)
      else to_lower_char c # fold_case s)"

definition equal_fold :: "string \<Rightarrow> string \<Rightarrow> bool" where
  "equal_fold s t \<longleftrightarrow> fold_case s = fold_case t"

subsection \<open>White space\<close>

text \<open>
  The byte sequences of the code points with \<open>unicode.IsSpace\<close>: the ASCII ones, then
  U+0085, U+00A0, U+1680, U+2000 to U+200A, U+2028, U+2029, U+202F, U+205F and U+3000.
\<close>

definition ascii_spaces :: "char list" where
  "ascii_spaces = [CHR 0x20, CHR 0x09, CHR 0x0A, CHR 0x0B, CHR 0x0C, CHR 0x0D]"

definition space_seqs :: "string list" where
  "space_seqs = map (\<lambda>c. [c]) ascii_spaces @
     [[CHR 0xC2, CHR 0x85], [CHR 0xC2, CHR 0xA0], [CHR 0xE1, CHR 0x9A, CHR 0x80],
      [CHR 0xE2, CHR 0x80, CHR 0x80], [CHR 0xE2, CHR 0x80, CHR 0x81],
      [CHR 0xE2, CHR 0x80, CHR 0x82], [CHR 0xE2, CHR 0x80, CHR 0x83],
      [CHR 0xE2, CHR 0x80, CHR 0x84], [CHR 0xE2, CHR 0x80, CHR 0x85],
      [CHR 0xE2, CHR 0x80, CHR 0x86], [CHR 0xE2, CHR 0x80, CHR 0x87],
      [CHR 0xE2, CHR 0x80, CHR 0x88], [CHR 0xE2, CHR 0x80, CHR 0x89],
      [CHR 0xE2, CHR 0x80, CHR 0x8A], [CHR 0xE2, CHR 0x80, CHR 0xA8],
      [CHR 0xE2, CHR 0x80, CHR 0xA9], [CHR 0xE2, CHR 0x80, CHR 0xAF],
      [CHR 0xE2, CHR 0x81, CHR 0x9F], [CHR 0xE3, CHR 0x80, CHR 0x80]]"

text \<open>
  Drop the first of the given sequences that is a prefix, again and again. A string of
  length \<open>n\<close> has at most \<open>n\<close> such prefixes, so the fuel \<open>n\<close> is enough.
\<close>

fun strip_seqs :: "nat \<Rightarrow> string list \<Rightarrow> string \<Rightarrow> string" where
  "strip_seqs 0 qs s = s"
| "strip_seqs (Suc n) qs s =
     (case find (\<lambda>q. has_prefix s q) qs of
        None \<Rightarrow> s
      | Some q \<Rightarrow> strip_seqs n qs (drop (length q) s))"

definition trim_left_space :: "string \<Rightarrow> string" where
  "trim_left_space s = strip_seqs (length s) space_seqs s"

definition trim_right_space :: "string \<Rightarrow> string" where
  "trim_right_space s = rev (strip_seqs (length s) (map rev space_seqs) (rev s))"

definition trim_space :: "string \<Rightarrow> string" where
  "trim_space s = trim_right_space (trim_left_space s)"

lemma strip_seqs_id: "(\<And>q. q \<in> set qs \<Longrightarrow> \<not> has_prefix s q) \<Longrightarrow> strip_seqs n qs s = s"
proof (cases n)
  case (Suc m)
  assume "\<And>q. q \<in> set qs \<Longrightarrow> \<not> has_prefix s q"
  then have "find (\<lambda>q. has_prefix s q) qs = None" by (auto simp: find_None_iff)
  with Suc show ?thesis by simp
qed simp

lemma length_strip_seqs: "length (strip_seqs n qs s) \<le> length s"
proof (induction n qs s rule: strip_seqs.induct)
  case (2 n qs s)
  show ?case
  proof (cases "find (\<lambda>q. has_prefix s q) qs")
    case (Some q)
    with "2.IH" [of q] have "length (strip_seqs n qs (drop (length q) s)) \<le> length (drop (length q) s)"
      by simp
    with Some show ?thesis by simp
  qed simp
qed simp

text \<open>Printable ASCII bytes neither start nor end a white-space sequence.\<close>

definition graphic :: "char \<Rightarrow> bool" where
  "graphic c \<longleftrightarrow> (let n = of_char c :: nat in 33 \<le> n \<and> n \<le> 126)"

lemma space_seqs_ends:
  "\<forall>q \<in> set space_seqs. q \<noteq> [] \<and> \<not> graphic (hd q) \<and> \<not> graphic (last q)"
  by code_simp

lemma no_space_prefix: "s \<noteq> [] \<Longrightarrow> graphic (hd s) \<Longrightarrow> q \<in> set space_seqs \<Longrightarrow> \<not> has_prefix s q"
  using space_seqs_ends by (cases s; cases q) (auto simp: has_prefix_def)

lemma no_space_suffix:
  assumes "s \<noteq> []" "graphic (last s)" "q \<in> set (map rev space_seqs)"
  shows "\<not> has_prefix (rev s) q"
proof -
  from assms(3) obtain p where p: "p \<in> set space_seqs" "q = rev p" by auto
  with space_seqs_ends have "q \<noteq> []" "\<not> graphic (hd q)" by (auto simp: hd_rev)
  moreover from assms(1,2) have "rev s \<noteq> []" "graphic (hd (rev s))" by (auto simp: hd_rev)
  ultimately show ?thesis by (cases "rev s"; cases q) (auto simp: has_prefix_def)
qed

lemma trim_space_Nil [simp, go_string]: "trim_space [] = []"
  by (simp add: trim_space_def trim_left_space_def trim_right_space_def)

lemma trim_space_graphic [go_string]:
  assumes "s \<noteq> []" "graphic (hd s)" "graphic (last s)"
  shows "trim_space s = s"
proof -
  have "trim_left_space s = s"
    unfolding trim_left_space_def using assms by (intro strip_seqs_id no_space_prefix)
  moreover have "strip_seqs (length s) (map rev space_seqs) (rev s) = rev s"
    using assms by (intro strip_seqs_id no_space_suffix)
  ultimately show ?thesis by (simp add: trim_space_def trim_right_space_def)
qed

lemma length_trim_space: "length (trim_space s) \<le> length s"
  unfolding trim_space_def trim_right_space_def trim_left_space_def
  by (metis (no_types, lifting) length_rev length_strip_seqs order_trans)

lemma trim_space_nonempty: "trim_space s \<noteq> [] \<Longrightarrow> s \<noteq> []"
  by auto

section \<open>Prefixes, suffixes and splitting\<close>

lemma has_prefix_append [simp, go_string]: "has_prefix (p @ s) p"
  by (simp add: has_prefix_def)

lemma has_prefixD: "has_prefix s p \<Longrightarrow> s = p @ drop (length p) s"
  unfolding has_prefix_def by (metis append_take_drop_id)

lemma trim_prefix_append [simp, go_string]: "trim_prefix (p @ s) p = s"
  by (simp add: trim_prefix_def)

lemma has_suffix_append [simp, go_string]: "has_suffix (s @ p) p"
  by (simp add: has_suffix_def)

lemma trim_suffix_append [simp, go_string]: "trim_suffix (s @ p) p = s"
  by (simp add: trim_suffix_def)

lemma split_byte_not_Nil [simp]: "split_byte s b \<noteq> []"
  by (induction s) (auto split: list.splits)

lemma split_byte_none: "b \<notin> set s \<Longrightarrow> split_byte s b = [s]"
  by (induction s) auto

lemma split_byte_append:
  "b \<notin> set s \<Longrightarrow> split_byte (s @ b # t) b = s # split_byte t b"
  by (induction s) auto

lemma contains_append_right: "contains s sub \<Longrightarrow> contains (t @ s) sub"
  by (induction t) auto

lemma contains_prefix: "has_prefix s sub \<Longrightarrow> contains s sub"
  by (cases s) (auto simp: has_prefix_def)

lemma contains_mid [go_string]: "contains (a @ sub @ b) sub"
  by (intro contains_append_right contains_prefix) simp

lemma contains_iff: "contains s sub \<longleftrightarrow> (\<exists>a b. s = a @ sub @ b)"
proof
  show "contains s sub \<Longrightarrow> \<exists>a b. s = a @ sub @ b"
  proof (induction s)
    case (Cons c s)
    then show ?case
      by simp (metis append_Cons append_Nil append_assoc has_prefixD)
  qed auto
qed (auto intro: contains_mid)

section \<open>Lists of options and maps\<close>

lemma map_of_snoc_same: "map_of (kvs @ [(k, v)]) k' = (case map_of kvs k' of None \<Rightarrow> if k' = k then Some v else None | Some w \<Rightarrow> Some w)"
  by (simp add: map_of_append map_add_def split: option.splits)

end
