(* ===== verification/Codec.thy ===== *)
theory Codec
  imports Prelude
begin

text \<open>
  The text encodings of the Go library that the program relies on: decimal integers
  (\<open>strconv.Itoa\<close>, \<open>strconv.FormatInt\<close>, \<open>strconv.Atoi\<close>, \<open>strconv.ParseInt\<close>), lower-case
  hexadecimal (\<open>encoding/hex\<close>) and base64 (\<open>encoding/base64\<close>, with and without padding),
  each with its round trip. The round trips are instances of one interface, the locale
  \<open>text_codec\<close>.
\<close>

section \<open>The interface of an encoding\<close>

locale text_codec =
  fixes enc :: "'a \<Rightarrow> string"
    and dec :: "string \<Rightarrow> 'a option"
    and dom :: "'a \<Rightarrow> bool"
  assumes dec_enc: "dom x \<Longrightarrow> dec (enc x) = Some x"
begin

lemma enc_inj: "dom x \<Longrightarrow> dom y \<Longrightarrow> enc x = enc y \<Longrightarrow> x = y"
  by (metis dec_enc option.inject)

lemma dec_enc_eq: "dom x \<Longrightarrow> dec (enc x) = Some y \<longleftrightarrow> x = y"
  by (auto simp: dec_enc)

end

section \<open>Decimal integers\<close>

definition digit :: "nat \<Rightarrow> char" where "digit n = char_of (48 + n)"

definition is_digit :: "char \<Rightarrow> bool" where
  "is_digit c \<longleftrightarrow> (let n = of_char c :: nat in 48 \<le> n \<and> n \<le> 57)"

definition digit_val :: "char \<Rightarrow> nat" where "digit_val c = of_char c - 48"

fun dec_nat :: "nat \<Rightarrow> string" where
  "dec_nat n = (if n < 10 then [digit n] else dec_nat (n div 10) @ [digit (n mod 10)])"

declare dec_nat.simps [simp del]

definition itoa :: "int \<Rightarrow> string" where
  "itoa i = (if i < 0 then CHR ''-'' # dec_nat (nat (- i)) else dec_nat (nat i))"

definition digits_val :: "string \<Rightarrow> nat" where
  "digits_val s = foldl (\<lambda>n c. 10 * n + digit_val c) 0 s"

datatype uint_result = UOk nat | URange | USyntax

fun parse_uint_loop :: "nat \<Rightarrow> string \<Rightarrow> uint_result" where
  "parse_uint_loop n [] = UOk n"
| "parse_uint_loop n (c # s) =
     (if \<not> is_digit c then USyntax
      else if n \<ge> (2 ^ 64 - 1) div 10 + 1 then URange
      else if 10 * n + digit_val c > 2 ^ 64 - 1 then URange
      else parse_uint_loop (10 * n + digit_val c) s)"

definition parse_uint :: "string \<Rightarrow> uint_result" where
  "parse_uint s = (if s = [] then USyntax else parse_uint_loop 0 s)"

text \<open>
  The outcome of \<open>strconv.ParseInt(s, 10, 64)\<close>: the value, or an error. On a range error
  Go also returns the nearest 64-bit value, which callers that ignore the error use.
\<close>

datatype num_result = NumOk int | NumRange int | NumSyntax

definition parse_int_sign :: "bool \<Rightarrow> string \<Rightarrow> num_result" where
  "parse_int_sign neg s =
     (case parse_uint s of
        USyntax \<Rightarrow> NumSyntax
      | URange \<Rightarrow> NumRange (if neg then int64_min else int64_max)
      | UOk n \<Rightarrow>
          if \<not> neg \<and> n \<ge> 2 ^ 63 then NumRange int64_max
          else if neg \<and> n > 2 ^ 63 then NumRange int64_min
          else NumOk (if neg then - int n else int n))"

definition parse_int :: "string \<Rightarrow> num_result" where
  "parse_int s =
     (case s of
        [] \<Rightarrow> NumSyntax
      | c # t \<Rightarrow>
          if c = CHR ''+'' then parse_int_sign False t
          else if c = CHR ''-'' then parse_int_sign True t
          else parse_int_sign False s)"

definition atoi :: "string \<Rightarrow> num_result" where "atoi s = parse_int s"

text \<open>The value Go leaves in the first result when the error is ignored.\<close>

fun num_value :: "num_result \<Rightarrow> int" where
  "num_value (NumOk n) = n"
| "num_value (NumRange n) = n"
| "num_value NumSyntax = 0"

fun num_ok :: "num_result \<Rightarrow> int option" where
  "num_ok (NumOk n) = Some n"
| "num_ok (NumRange _) = None"
| "num_ok NumSyntax = None"

lemma of_char_digit: "n < 10 \<Longrightarrow> (of_char (digit n) :: nat) = 48 + n"
  by (simp add: digit_def)

lemma digit_chars:
  "digit 0 = CHR ''0''" "digit 1 = CHR ''1''" "digit 2 = CHR ''2''" "digit 3 = CHR ''3''" "digit 4 = CHR ''4''"
  "digit 5 = CHR ''5''" "digit 6 = CHR ''6''" "digit 7 = CHR ''7''" "digit 8 = CHR ''8''" "digit 9 = CHR ''9''"
  by code_simp+

lemma is_digit_digit [simp]: "n < 10 \<Longrightarrow> is_digit (digit n)"
  by (simp add: is_digit_def of_char_digit)

lemma digit_val_digit [simp]: "n < 10 \<Longrightarrow> digit_val (digit n) = n"
  by (simp add: digit_val_def of_char_digit)

lemma is_digit_graphic: "is_digit c \<Longrightarrow> graphic c"
  by (simp add: is_digit_def graphic_def Let_def)

lemma dec_nat_digits: "\<forall>c \<in> set (dec_nat n). is_digit c"
proof (induction n rule: dec_nat.induct)
  case (1 n)
  then show ?case by (cases "n < 10") (simp_all add: dec_nat.simps [of n])
qed

lemma dec_nat_not_Nil [simp]: "dec_nat n \<noteq> []"
  by (subst dec_nat.simps) simp

lemma digits_val_dec_nat [simp]: "digits_val (dec_nat n) = n"
proof (induction n rule: dec_nat.induct)
  case (1 n)
  then show ?case
    by (cases "n < 10") (simp_all add: dec_nat.simps [of n] digits_val_def)
qed

lemma digits_val_snoc: "digits_val (s @ [c]) = 10 * digits_val s + digit_val c"
  by (simp add: digits_val_def)

lemma digits_val_mono: "foldl (\<lambda>n c. 10 * n + digit_val c) a s \<ge> a"
proof (induction s arbitrary: a)
  case (Cons c s)
  from Cons [of "10 * a + digit_val c"] show ?case by simp
qed simp

lemma parse_uint_loop_digits:
  assumes "\<forall>c \<in> set s. is_digit c" "foldl (\<lambda>n c. 10 * n + digit_val c) n s < 2 ^ 64"
  shows "parse_uint_loop n s = UOk (foldl (\<lambda>n c. 10 * n + digit_val c) n s)"
  using assms
proof (induction s arbitrary: n)
  case (Cons c s)
  have le: "10 * n + digit_val c \<le> foldl (\<lambda>n c. 10 * n + digit_val c) (10 * n + digit_val c) s"
    by (rule digits_val_mono)
  with Cons.prems have lt: "10 * n + digit_val c < 2 ^ 64" by simp
  then have "n < (2 ^ 64 - 1) div 10 + 1" by simp
  with lt Cons show ?case by simp
qed simp

lemma parse_uint_dec_nat [simp]: "n < 2 ^ 64 \<Longrightarrow> parse_uint (dec_nat n) = UOk n"
  using parse_uint_loop_digits [of "dec_nat n" 0] dec_nat_digits [of n] digits_val_dec_nat [of n]
  by (simp add: parse_uint_def digits_val_def)

lemma hd_dec_nat: "is_digit (hd (dec_nat n))"
  using dec_nat_digits [of n] by (cases "dec_nat n") auto

lemma last_dec_nat: "is_digit (last (dec_nat n))"
  using dec_nat_digits [of n] by simp

lemma digit_not_sign: "is_digit c \<Longrightarrow> c \<noteq> CHR ''+'' \<and> c \<noteq> CHR ''-''"
  by (auto simp: is_digit_def)

lemma parse_int_dec_nat: "n < 2 ^ 63 \<Longrightarrow> parse_int (dec_nat n) = NumOk (int n)"
proof -
  assume n: "n < 2 ^ 63"
  obtain c t where ct: "dec_nat n = c # t" by (cases "dec_nat n") auto
  with hd_dec_nat [of n] have "c \<noteq> CHR ''+'' \<and> c \<noteq> CHR ''-''"
    by (intro digit_not_sign) simp
  with n ct parse_uint_dec_nat [of n] show ?thesis
    by (simp add: parse_int_def parse_int_sign_def)
qed

lemma atoi_itoa: "int64_min \<le> i \<Longrightarrow> i \<le> int64_max \<Longrightarrow> atoi (itoa i) = NumOk i"
proof (cases "i < 0")
  case True
  assume "int64_min \<le> i"
  with True have "nat (- i) \<le> 2 ^ 63" by (simp add: int64_min_def)
  with True show ?thesis
    by (simp add: atoi_def itoa_def parse_int_def parse_int_sign_def)
next
  case False
  assume "i \<le> int64_max"
  with False have "nat i < 2 ^ 63" by (simp add: int64_max_def)
  with False show ?thesis by (simp add: atoi_def itoa_def parse_int_dec_nat)
qed

interpretation decimal: text_codec itoa "\<lambda>s. num_ok (atoi s)" "\<lambda>i. int64_min \<le> i \<and> i \<le> int64_max"
  by unfold_locales (simp add: atoi_itoa)

lemma itoa_nonneg: "0 \<le> i \<Longrightarrow> itoa i = dec_nat (nat i)"
  by (simp add: itoa_def)

lemma itoa_not_Nil [simp]: "itoa i \<noteq> []"
  by (simp add: itoa_def)

section \<open>Hexadecimal\<close>

definition hex_digit :: "nat \<Rightarrow> char" where
  "hex_digit n = (if n < 10 then char_of (48 + n) else char_of (87 + n))"

text \<open>\<open>hex.EncodeToString\<close>: two lower-case digits for each byte.\<close>

fun hex_encode :: "string \<Rightarrow> string" where
  "hex_encode [] = []"
| "hex_encode (c # s) =
     hex_digit (of_char c div 16) # hex_digit (of_char c mod 16) # hex_encode s"

definition is_hex_digit :: "char \<Rightarrow> bool" where
  "is_hex_digit c \<longleftrightarrow> (let n = of_char c :: nat in (48 \<le> n \<and> n \<le> 57) \<or> (97 \<le> n \<and> n \<le> 102))"

definition hex_val :: "char \<Rightarrow> nat" where
  "hex_val c = (let n = of_char c :: nat in if n \<le> 57 then n - 48 else n - 87)"

fun hex_decode :: "string \<Rightarrow> string option" where
  "hex_decode [] = Some []"
| "hex_decode [c] = None"
| "hex_decode (c # d # s) =
     (if is_hex_digit c \<and> is_hex_digit d
      then map_option (\<lambda>r. char_of (16 * hex_val c + hex_val d) # r) (hex_decode s) else None)"

lemma is_hex_digit_hex_digit [simp]: "n < 16 \<Longrightarrow> is_hex_digit (hex_digit n)"
  by (auto simp: is_hex_digit_def hex_digit_def Let_def)

lemma hex_val_hex_digit [simp]: "n < 16 \<Longrightarrow> hex_val (hex_digit n) = n"
  by (auto simp: hex_val_def hex_digit_def Let_def)

lemma of_char_div_16 [simp]: "(of_char (c :: char) :: nat) div 16 < 16"
proof -
  have "(of_char c :: nat) < 256" by simp
  then show ?thesis by linarith
qed

lemma hex_decode_encode: "hex_decode (hex_encode s) = Some s"
  by (induction s) simp_all

lemma length_hex_encode [simp]: "length (hex_encode s) = 2 * length s"
  by (induction s) simp_all

lemma hex_encode_digits: "c \<in> set (hex_encode s) \<Longrightarrow> is_hex_digit c"
  by (induction s) auto

interpretation hexadecimal: text_codec hex_encode hex_decode "\<lambda>s. True"
  by unfold_locales (simp add: hex_decode_encode)

section \<open>Base64\<close>

text \<open>
  An encoding of package \<open>base64\<close>: its alphabet of 64 characters, and whether it pads
  with \<open>=\<close> (\<open>StdEncoding\<close>) or not (\<open>RawURLEncoding\<close>).
\<close>

record b64_encoding =
  b64_alphabet :: string
  b64_pad :: bool

definition StdEncoding :: b64_encoding where
  "StdEncoding =
     \<lparr>b64_alphabet = ''ABCDEFGHIJKLMNOPQRSTUVWXYZabcdefghijklmnopqrstuvwxyz0123456789+/'', b64_pad = True\<rparr>"

definition RawURLEncoding :: b64_encoding where
  "RawURLEncoding =
     \<lparr>b64_alphabet = ''ABCDEFGHIJKLMNOPQRSTUVWXYZabcdefghijklmnopqrstuvwxyz0123456789-_'', b64_pad = False\<rparr>"

definition b64_char :: "b64_encoding \<Rightarrow> nat \<Rightarrow> char" where
  "b64_char e n = b64_alphabet e ! n"

definition b64_val :: "b64_encoding \<Rightarrow> char \<Rightarrow> nat option" where
  "b64_val e c = index_byte (b64_alphabet e) c"

fun b64_encode_nats :: "b64_encoding \<Rightarrow> nat list \<Rightarrow> string" where
  "b64_encode_nats e [] = []"
| "b64_encode_nats e [a] =
     [b64_char e (a div 4), b64_char e ((a mod 4) * 16)] @ (if b64_pad e then ''=='' else [])"
| "b64_encode_nats e [a, b] =
     [b64_char e (a div 4), b64_char e ((a mod 4) * 16 + b div 16), b64_char e ((b mod 16) * 4)] @
     (if b64_pad e then ''='' else [])"
| "b64_encode_nats e (a # b # c # s) =
     [b64_char e (a div 4), b64_char e ((a mod 4) * 16 + b div 16),
      b64_char e ((b mod 16) * 4 + c div 64), b64_char e (c mod 64)] @ b64_encode_nats e s"

definition b64_encode :: "b64_encoding \<Rightarrow> string \<Rightarrow> string" where
  "b64_encode e s = b64_encode_nats e (map of_char s)"

text \<open>
  The decoder works on groups of four characters of the alphabet. It is not strict: the
  unused low bits of the last character of a short group are dropped.
\<close>

fun b64_decode_quads :: "b64_encoding \<Rightarrow> string \<Rightarrow> nat list option" where
  "b64_decode_quads e [] = Some []"
| "b64_decode_quads e [a] = None"
| "b64_decode_quads e [a, b] =
     (if b64_pad e then None
      else (case (b64_val e a, b64_val e b) of
              (Some x, Some y) \<Rightarrow> Some [x * 4 + y div 16]
            | _ \<Rightarrow> None))"
| "b64_decode_quads e [a, b, c] =
     (if b64_pad e then None
      else (case (b64_val e a, b64_val e b, b64_val e c) of
              (Some x, Some y, Some z) \<Rightarrow> Some [x * 4 + y div 16, (y mod 16) * 16 + z div 4]
            | _ \<Rightarrow> None))"
| "b64_decode_quads e (a # b # c # d # s) =
     (case (b64_val e a, b64_val e b, b64_val e c, b64_val e d) of
        (Some x, Some y, Some z, Some w) \<Rightarrow>
          map_option (\<lambda>r. [x * 4 + y div 16, (y mod 16) * 16 + z div 4, (z mod 4) * 64 + w] @ r)
            (b64_decode_quads e s)
      | (Some x, Some y, Some z, None) \<Rightarrow>
          if b64_pad e \<and> d = CHR ''='' \<and> s = []
          then Some [x * 4 + y div 16, (y mod 16) * 16 + z div 4] else None
      | (Some x, Some y, None, _) \<Rightarrow>
          if b64_pad e \<and> c = CHR ''='' \<and> d = CHR ''='' \<and> s = []
          then Some [x * 4 + y div 16] else None
      | _ \<Rightarrow> None)"

text \<open>\<open>DecodeString\<close> skips carriage returns and line feeds wherever they are.\<close>

definition is_newline :: "char \<Rightarrow> bool" where
  "is_newline c \<longleftrightarrow> c = CHR 0x0A \<or> c = CHR 0x0D"

definition b64_decode :: "b64_encoding \<Rightarrow> string \<Rightarrow> string option" where
  "b64_decode e s =
     map_option (map char_of) (b64_decode_quads e (filter (\<lambda>c. \<not> is_newline c) s))"

text \<open>What the two alphabets share: 64 distinct characters, none a newline or \<open>=\<close>.\<close>

definition b64_good :: "b64_encoding \<Rightarrow> bool" where
  "b64_good e \<longleftrightarrow>
     distinct (b64_alphabet e) \<and> length (b64_alphabet e) = 64 \<and>
     list_all (\<lambda>c. \<not> is_newline c \<and> c \<noteq> CHR ''='') (b64_alphabet e)"

lemma b64_good_std: "b64_good StdEncoding"
  by (simp add: b64_good_def StdEncoding_def is_newline_def)

lemma b64_good_url: "b64_good RawURLEncoding"
  by (simp add: b64_good_def RawURLEncoding_def is_newline_def)

lemma index_byte_None: "index_byte s c = None \<longleftrightarrow> c \<notin> set s"
  by (induction s) auto

lemma index_byte_nth: "distinct s \<Longrightarrow> n < length s \<Longrightarrow> index_byte s (s ! n) = Some n"
  by (induction s arbitrary: n) (auto simp: nth_Cons split: nat.splits)

lemma b64_good_val: "b64_good e \<Longrightarrow> n < 64 \<Longrightarrow> b64_val e (b64_char e n) = Some n"
  by (simp add: b64_good_def b64_val_def b64_char_def index_byte_nth)

lemma b64_good_pad: "b64_good e \<Longrightarrow> b64_val e (CHR ''='') = None"
  by (auto simp: b64_good_def b64_val_def index_byte_None list_all_iff)

lemma b64_good_newline: "b64_good e \<Longrightarrow> n < 64 \<Longrightarrow> \<not> is_newline (b64_char e n)"
  by (simp add: b64_good_def b64_char_def list_all_iff)

lemma b64_bytes:
  fixes a b c :: nat
  assumes "a < 256" "b < 256" "c < 256"
  shows "a div 4 < 64" "(a mod 4) * 16 + b div 16 < 64" "(b mod 16) * 4 + c div 64 < 64"
    "c mod 64 < 64" "(a mod 4) * 16 < 64" "(b mod 16) * 4 < 64"
    "b div 16 div 16 = 0" "c div 64 div 4 = 0" "b div 16 mod 16 = b div 16" "c div 64 mod 4 = c div 64"
proof -
  have *: "a mod 4 < 4" "b mod 16 < 16" "b div 16 < 16" "c div 64 < 4" "c mod 64 < 64"
    using assms by auto
  then show "a div 4 < 64" "(a mod 4) * 16 + b div 16 < 64" "(b mod 16) * 4 + c div 64 < 64"
    "c mod 64 < 64" "(a mod 4) * 16 < 64" "(b mod 16) * 4 < 64"
    using assms by linarith+
  show "b div 16 div 16 = 0" "c div 64 div 4 = 0" "b div 16 mod 16 = b div 16" "c div 64 mod 4 = c div 64"
    using * by simp_all
qed

lemma b64_decode_quads_encode:
  assumes "b64_good e" "\<forall>n \<in> set ns. n < 256"
  shows "b64_decode_quads e (b64_encode_nats e ns) = Some ns"
  using assms
proof (induction e ns rule: b64_encode_nats.induct)
  case (2 e a)
  then show ?case
    using b64_bytes(1,5) [of a 0 0] by (simp add: b64_good_val b64_good_pad)
next
  case (3 e a b)
  then show ?case
    using b64_bytes(1,2,6,7,9) [of a b 0] by (simp add: b64_good_val b64_good_pad)
next
  case (4 e a b c s)
  then show ?case
    using b64_bytes [of a b c] by (simp add: b64_good_val)
qed simp

lemma is_newline_eq [simp]: "\<not> is_newline (CHR ''='')"
  by (simp add: is_newline_def)

lemma b64_encode_chars:
  assumes "b64_good e" "\<forall>n \<in> set ns. n < 256" "x \<in> set (b64_encode_nats e ns)"
  shows "\<not> is_newline x"
  using assms
proof (induction e ns rule: b64_encode_nats.induct)
  case (2 e a)
  then show ?case
    using b64_bytes(1,5) [of a 0 0]
    by (auto simp: b64_good_newline is_newline_eq split: if_splits)
next
  case (3 e a b)
  then show ?case
    using b64_bytes(1,2,6) [of a b 0]
    by (auto simp: b64_good_newline is_newline_eq split: if_splits)
next
  case (4 e a b c s)
  then show ?case
    using b64_bytes(1-4) [of a b c] by (auto simp: b64_good_newline)
qed simp

lemma b64_decode_encode: "b64_good e \<Longrightarrow> b64_decode e (b64_encode e s) = Some s"
proof -
  assume e: "b64_good e"
  let ?ns = "map of_char s :: nat list"
  have ns: "\<forall>n \<in> set ?ns. n < 256" by auto
  have "filter (\<lambda>c. \<not> is_newline c) (b64_encode_nats e ?ns) = b64_encode_nats e ?ns"
    using b64_encode_chars [OF e ns] by (simp add: filter_id_conv)
  with b64_decode_quads_encode [OF e ns] show ?thesis
    by (simp add: b64_decode_def b64_encode_def comp_def)
qed

text \<open>Newlines do not change what a base64 text stands for.\<close>

lemma b64_decode_newline:
  "is_newline c \<Longrightarrow> b64_decode e (s @ c # t) = b64_decode e (s @ t)"
  by (simp add: b64_decode_def)

interpretation std64: text_codec "b64_encode StdEncoding" "b64_decode StdEncoding" "\<lambda>s. True"
  by unfold_locales (simp add: b64_decode_encode b64_good_std)

interpretation rawurl64: text_codec "b64_encode RawURLEncoding" "b64_decode RawURLEncoding" "\<lambda>s. True"
  by unfold_locales (simp add: b64_decode_encode b64_good_url)

section \<open>Quoting\<close>

text \<open>
  \<open>%q\<close> of a Go string: backslash escapes for quotes, backslashes and control bytes; other
  bytes stay.
\<close>

definition go_quote_char :: "char \<Rightarrow> string" where
  "go_quote_char c =
     (let n = of_char c :: nat in
      if c = CHR 0x22 then [CHR 0x5C, CHR 0x22]
      else if c = CHR 0x5C then [CHR 0x5C, CHR 0x5C]
      else if n = 7 then [CHR 0x5C] @ ''a''
      else if n = 8 then [CHR 0x5C] @ ''b''
      else if n = 9 then [CHR 0x5C] @ ''t''
      else if n = 10 then [CHR 0x5C] @ ''n''
      else if n = 11 then [CHR 0x5C] @ ''v''
      else if n = 12 then [CHR 0x5C] @ ''f''
      else if n = 13 then [CHR 0x5C] @ ''r''
      else if n < 32 \<or> n = 127 then [CHR 0x5C] @ ''x'' @ hex_encode [c]
      else [c])"

definition go_quote :: "string \<Rightarrow> string" where
  "go_quote s = [CHR 0x22] @ concat (map go_quote_char s) @ [CHR 0x22]"

end
