(* ===== verification/Net.thy ===== *)
theory Net
  imports Codec
begin

text \<open>
  IP addresses: \<open>net.ParseIP\<close> for the dotted and the colon form, \<open>To4\<close>, \<open>String\<close> of an
  IPv4 address and the classification predicates the program uses. An address is its
  sixteen bytes; an IPv4 address is stored in the mapped form \<open>::ffff:a.b.c.d\<close>, as
  \<open>net.IP\<close> does.
\<close>

type_synonym ip = "nat list"

section \<open>Parsing\<close>

definition ipv4_field :: "string \<Rightarrow> nat option" where
  "ipv4_field s =
     (if s = [] \<or> \<not> list_all is_digit s \<or> (length s > 1 \<and> hd s = CHR ''0'') \<or> digits_val s > 255
      then None else Some (digits_val s))"

definition ipv4_fields :: "string \<Rightarrow> nat list option" where
  "ipv4_fields s =
     (case map ipv4_field (split_byte s CHR ''.'') of
        [Some a, Some b, Some c, Some d] \<Rightarrow> Some [a, b, c, d]
      | _ \<Rightarrow> None)"

definition ip_hex_digit :: "char \<Rightarrow> nat option" where
  "ip_hex_digit c =
     (let n = of_char c :: nat in
      if 48 \<le> n \<and> n \<le> 57 then Some (n - 48)
      else if 97 \<le> n \<and> n \<le> 102 then Some (n - 87)
      else if 65 \<le> n \<and> n \<le> 70 then Some (n - 55)
      else None)"

definition is_ip_hex :: "char \<Rightarrow> bool" where "is_ip_hex c \<longleftrightarrow> ip_hex_digit c \<noteq> None"

definition ip_hex_val :: "string \<Rightarrow> nat" where
  "ip_hex_val s = foldl (\<lambda>n c. 16 * n + (case ip_hex_digit c of None \<Rightarrow> 0 | Some d \<Rightarrow> d)) 0 s"

text \<open>
  The loop of the IPv6 parser: the bytes parsed so far, where the ellipsis \<open>::\<close> was, and
  the rest of the text. Each round consumes at least one character.
\<close>

function ipv6_loop :: "nat list \<Rightarrow> nat option \<Rightarrow> string \<Rightarrow> (nat list \<times> nat option \<times> string) option" where
  "ipv6_loop acc ell s =
     (if length acc \<ge> 16 then Some (acc, ell, s)
      else
        let ds = takeWhile is_ip_hex s; rest = drop (length ds) s; v = ip_hex_val ds;
            acc' = acc @ [v div 256, v mod 256]
        in if length ds = 0 \<or> length ds > 4 then None
           else (case rest of
                   [] \<Rightarrow> Some (acc', ell, [])
                 | c # t \<Rightarrow>
                     if c = CHR ''.'' then
                       (if ell = None \<and> length acc \<noteq> 12 \<or> length acc + 4 > 16 then None
                        else map_option (\<lambda>f. (acc @ f, ell, [])) (ipv4_fields s))
                     else if c \<noteq> CHR '':'' \<or> t = [] then None
                     else if hd t = CHR '':'' then
                       (if ell \<noteq> None then None
                        else if tl t = [] then Some (acc', Some (length acc'), [])
                        else ipv6_loop acc' (Some (length acc')) (tl t))
                     else ipv6_loop acc' ell t))"
  by pat_completeness auto
termination
proof (relation "measure (\<lambda>(acc, ell, s). length s)", goal_cases)
  case (2 acc ell s ds rest v acc' c t)
  then have "length (c # t) \<le> length s" by (metis drop_eq_Nil length_drop diff_le_self)
  then show ?case by simp
next
  case (3 acc ell s ds rest v acc' c t)
  then have "length (c # t) \<le> length s" by (metis drop_eq_Nil length_drop diff_le_self)
  then show ?case by simp
qed simp

declare ipv6_loop.simps [simp del]

definition parse_ipv6 :: "string \<Rightarrow> ip option" where
  "parse_ipv6 s =
     (let lead = has_prefix s ''::''; s0 = (if lead then drop 2 s else s) in
      if lead \<and> s0 = [] then Some (replicate 16 0)
      else (case ipv6_loop [] (if lead then Some 0 else None) s0 of
              None \<Rightarrow> None
            | Some (acc, ell, rest) \<Rightarrow>
                if rest \<noteq> [] then None
                else if length acc < 16 then
                  (case ell of
                     None \<Rightarrow> None
                   | Some e \<Rightarrow> Some (take e acc @ replicate (16 - length acc) 0 @ drop e acc))
                else if ell \<noteq> None then None
                else Some acc))"

definition ipv4_mapped :: "nat list \<Rightarrow> ip" where
  "ipv4_mapped fs = replicate 10 0 @ [255, 255] @ fs"

text \<open>
  \<open>net.ParseIP\<close>: the first of \<open>.\<close>, \<open>:\<close> and \<open>%\<close> decides the form. An address with a
  zone is refused.
\<close>

definition parse_ip :: "string \<Rightarrow> ip option" where
  "parse_ip s =
     (case find (\<lambda>c. c = CHR ''.'' \<or> c = CHR '':'' \<or> c = CHR ''%'') s of
        None \<Rightarrow> None
      | Some c \<Rightarrow>
          if c = CHR ''.'' then map_option ipv4_mapped (ipv4_fields s)
          else if c = CHR '':'' \<and> CHR ''%'' \<notin> set s then parse_ipv6 s
          else None)"

section \<open>IPv4 views\<close>

definition ip_to4 :: "ip \<Rightarrow> (nat \<times> nat \<times> nat \<times> nat) option" where
  "ip_to4 ip =
     (if take 12 ip = replicate 10 0 @ [255, 255] then
        (case drop 12 ip of [a, b, c, d] \<Rightarrow> Some (a, b, c, d) | _ \<Rightarrow> None)
      else None)"

type_synonym ipv4 = "nat \<times> nat \<times> nat \<times> nat"

fun ipv4_string :: "ipv4 \<Rightarrow> string" where
  "ipv4_string (a, b, c, d) =
     dec_nat a @ ''.'' @ dec_nat b @ ''.'' @ dec_nat c @ ''.'' @ dec_nat d"

fun ipv4_loopback :: "ipv4 \<Rightarrow> bool" where
  "ipv4_loopback (a, b, c, d) \<longleftrightarrow> a = 127"

fun ipv4_private :: "ipv4 \<Rightarrow> bool" where
  "ipv4_private (a, b, c, d) \<longleftrightarrow>
     a = 10 \<or> (a = 172 \<and> 16 \<le> b \<and> b \<le> 31) \<or> (a = 192 \<and> b = 168)"

fun ipv4_link_local :: "ipv4 \<Rightarrow> bool" where
  "ipv4_link_local (a, b, c, d) \<longleftrightarrow> a = 169 \<and> b = 254"

fun ipv4_bytes :: "ipv4 \<Rightarrow> bool" where
  "ipv4_bytes (a, b, c, d) \<longleftrightarrow> a < 256 \<and> b < 256 \<and> c < 256 \<and> d < 256"

section \<open>The dotted form round-trips\<close>

lemma dot_not_digit: "CHR ''.'' \<notin> set (dec_nat n)"
  using dec_nat_digits [of n] by (auto simp: is_digit_def)

lemma of_char_zero_digit: "(of_char (CHR ''0'') :: nat) = 48"
  by simp

lemma dec_nat_leading_zero: "length (dec_nat n) > 1 \<Longrightarrow> hd (dec_nat n) \<noteq> CHR ''0''"
proof (induction n rule: dec_nat.induct)
  case (1 n)
  show ?case
  proof (cases "n < 10")
    case True
    with 1 show ?thesis by (simp add: dec_nat.simps [of n])
  next
    case False
    have "hd (dec_nat (n div 10)) \<noteq> CHR ''0''"
    proof (cases "length (dec_nat (n div 10)) > 1")
      case True
      with 1 False show ?thesis by simp
    next
      case short: False
      then have lt: "n div 10 < 10"
        by (metis One_nat_def Suc_lessI append_is_Nil_conv dec_nat.simps dec_nat_not_Nil length_append_singleton length_greater_0_conv less_Suc_eq not_less_eq)
      moreover from False have "n div 10 > 0" by simp
      ultimately have "(of_char (digit (n div 10)) :: nat) \<noteq> 48" by (simp add: of_char_digit)
      then have "digit (n div 10) \<noteq> CHR ''0''" by (metis of_char_zero_digit)
      with lt show ?thesis by (simp add: dec_nat.simps [of "n div 10"])
    qed
    with False show ?thesis by (simp add: dec_nat.simps [of n])
  qed
qed

lemma ipv4_field_dec_nat [simp]: "n < 256 \<Longrightarrow> ipv4_field (dec_nat n) = Some n"
  using dec_nat_digits [of n] dec_nat_leading_zero [of n]
  by (auto simp: ipv4_field_def list_all_iff)

lemma ipv4_fields_string: "ipv4_bytes (a, b, c, d) \<Longrightarrow> ipv4_fields (ipv4_string (a, b, c, d)) = Some [a, b, c, d]"
  by (simp add: ipv4_fields_def split_byte_append split_byte_none dot_not_digit)

lemma find_append_none: "(\<And>x. x \<in> set xs \<Longrightarrow> \<not> P x) \<Longrightarrow> find P (xs @ ys) = find P ys"
  by (induction xs) auto

lemma parse_ip_string:
  assumes "ipv4_bytes (a, b, c, d)"
  shows "parse_ip (ipv4_string (a, b, c, d)) = Some (ipv4_mapped [a, b, c, d])"
proof -
  let ?P = "\<lambda>c. c = CHR ''.'' \<or> c = CHR '':'' \<or> c = CHR ''%''"
  have "\<not> ?P x" if "x \<in> set (dec_nat a)" for x
    using dec_nat_digits [of a] that by (auto simp: is_digit_def)
  then have "find ?P (ipv4_string (a, b, c, d)) = Some CHR ''.''"
    by (simp add: find_append_none)
  with assms show ?thesis by (simp add: parse_ip_def ipv4_fields_string del: ipv4_string.simps)
qed

lemma ip_to4_mapped [simp]: "ip_to4 (ipv4_mapped [a, b, c, d]) = Some (a, b, c, d)"
  by (simp add: ip_to4_def ipv4_mapped_def)

interpretation dotted: text_codec ipv4_string "\<lambda>s. Option.bind (parse_ip s) ip_to4" ipv4_bytes
proof
  fix x assume "ipv4_bytes x"
  then show "Option.bind (parse_ip (ipv4_string x)) ip_to4 = Some x"
    by (cases x) (simp add: parse_ip_string del: ipv4_string.simps)
qed

lemma parse_ip_examples:
  "parse_ip ''192.168.1.20'' = Some (ipv4_mapped [192, 168, 1, 20])"
  "parse_ip ''192.168.01.20'' = None"
  "parse_ip ''1.2.3'' = None"
  "parse_ip ''::1'' = Some (replicate 15 0 @ [1])"
  "parse_ip ''fe80::1%eth0'' = None"
  by code_simp+

end
