(* ===== verification/Config.thy ===== *)
theory Config
  imports Net
begin

text \<open>
  Package \<open>config\<close> (\<open>internal/config/config.go\<close>): the configuration record, its
  defaults, the environment overrides of \<open>applyEnv\<close>, and \<open>Validate\<close> with its checks in the
  order of the source. The process environment is the argument \<open>env\<close>
  (\<open>os.LookupEnv\<close>), the working directory the argument \<open>abs_path\<close> (\<open>filepath.Abs\<close>).
\<close>

section \<open>The configuration\<close>

record config =
  DeviceName :: string
  Manufacturer :: string
  Model :: string
  SerialNumber :: string
  FirmwareVersion :: string
  AdvertiseIP :: string
  ONVIFPort :: int
  RTSPPort :: int
  RTSPPath :: string
  SubstreamEnabled :: bool
  SubstreamPath :: string
  SubstreamFPS :: int
  SubstreamWidth :: int
  SubstreamHeight :: int
  SubstreamBitrate :: string
  SnapshotRefreshMS :: int
  OSDTextFile :: string
  OSDFontFile :: string
  OSDFontSize :: int
  MetadataEnabled :: bool
  MetadataIntervalMS :: int
  MetadataPayloadType :: int
  FPS :: int
  Width :: int
  Height :: int
  OffsetX :: int
  OffsetY :: int
  VideoBitrate :: string
  GOPSeconds :: int
  Encoder :: string
  RecordingEnabled :: bool
  RecordingDir :: string
  SegmentSeconds :: int
  RetentionDays :: int
  MaxRecordingGB :: int
  FFmpegPath :: string
  MediaMTXPath :: string
  MediaMTXConfig :: string
  LogFile :: string
  LogMaxMB :: int
  LogBackups :: int
  ONVIFUsername :: string
  ONVIFPassword :: string
  ONVIFPasswordEnv :: string
  RTSPUsername :: string
  RTSPPassword :: string
  RTSPPasswordEnv :: string
  AuthRealm :: string
  InsecureNoAuth :: bool
definition Default :: config where
  "Default = \<lparr>
     DeviceName = ''Cherry Desktop CCTV'',
     Manufacturer = ''Cherry'',
     Model = ''DesktopScreen-ONVIF'',
     SerialNumber = ''CHERRY-SCREEN-001'',
     FirmwareVersion = ''1.0.0'',
     AdvertiseIP = [],
     ONVIFPort = 8088,
     RTSPPort = 8554,
     RTSPPath = ''screen'',
     SubstreamEnabled = True,
     SubstreamPath = ''screen_sub'',
     SubstreamFPS = 10,
     SubstreamWidth = 640,
     SubstreamHeight = 360,
     SubstreamBitrate = ''800k'',
     SnapshotRefreshMS = 1000,
     OSDTextFile = ''osd.txt'',
     OSDFontFile = ''C:'' @ [CHR 0x5C] @ ''Windows'' @ [CHR 0x5C] @ ''Fonts'' @ [CHR 0x5C] @ ''arial.ttf'',
     OSDFontSize = 24,
     MetadataEnabled = True,
     MetadataIntervalMS = 1000,
     MetadataPayloadType = 107,
     FPS = 15,
     Width = 1920,
     Height = 1080,
     OffsetX = 0,
     OffsetY = 0,
     VideoBitrate = ''4000k'',
     GOPSeconds = 2,
     Encoder = ''auto'',
     RecordingEnabled = True,
     RecordingDir = ''recordings'',
     SegmentSeconds = 300,
     RetentionDays = 7,
     MaxRecordingGB = 500,
     FFmpegPath = ''ffmpeg.exe'',
     MediaMTXPath = ''mediamtx.exe'',
     MediaMTXConfig = ''mediamtx.yml'',
     LogFile = ''logs/cherrycctv.log'',
     LogMaxMB = 20,
     LogBackups = 5,
     ONVIFUsername = ''admin'',
     ONVIFPassword = [],
     ONVIFPasswordEnv = ''CHERRY_ONVIF_PASSWORD'',
     RTSPUsername = [],
     RTSPPassword = [],
     RTSPPasswordEnv = ''CHERRY_RTSP_PASSWORD'',
     AuthRealm = ''Cherry Desktop CCTV'',
     InsecureNoAuth = False\<rparr>"

type_synonym environment = "string \<Rightarrow> string option"

section \<open>Environment overrides\<close>

definition env_override :: "environment \<Rightarrow> string \<Rightarrow> string \<Rightarrow> string" where
  "env_override env name old =
     (if name \<noteq> [] then (case env name of Some v \<Rightarrow> v | None \<Rightarrow> old) else old)"

definition apply_env :: "environment \<Rightarrow> config \<Rightarrow> config" where
  "apply_env env c =
     (let c1 = c\<lparr>ONVIFPassword := env_override env (ONVIFPasswordEnv c) (ONVIFPassword c)\<rparr>;
          c2 = c1\<lparr>RTSPPassword := env_override env (RTSPPasswordEnv c1) (RTSPPassword c1)\<rparr>;
          c3 = (if RTSPUsername c2 = [] then c2\<lparr>RTSPUsername := ONVIFUsername c2\<rparr> else c2)
      in if RTSPPassword c3 = [] then c3\<lparr>RTSPPassword := ONVIFPassword c3\<rparr> else c3)"

section \<open>Validation\<close>

datatype config_error =
    PortRange | PortsEqual | FPSRange | DimensionsInvalid | GOPRange | SegmentTooShort
  | RetentionNegative | RTSPPathInvalid | SubPathInvalid | SubPathEqual | SubFPSRange
  | SubDimensionsInvalid | SubDimensionsExceed | SubBitrateMissing | SnapshotRange
  | OSDTextFileMissing | OSDFontFileMissing | OSDFontSizeRange | MetadataIntervalRange
  | MetadataPayloadRange | UnsupportedEncoder string | AdvertiseIPInvalid | IdentityMissing
  | BitrateMissing | RecordingDirMissing | LogInvalid | ONVIFAuthMissing string
  | RTSPAuthMissing string | PasswordTooShort | RealmMissing

text \<open>\<open>rtspPathRE\<close>: \<open>^[A-Za-z0-9_]+$\<close>.\<close>

definition path_char :: "char \<Rightarrow> bool" where
  "path_char c \<longleftrightarrow>
     (let n = of_char c :: nat in
      (65 \<le> n \<and> n \<le> 90) \<or> (97 \<le> n \<and> n \<le> 122) \<or> (48 \<le> n \<and> n \<le> 57) \<or> n = 95)"

definition rtspPathRE :: "string \<Rightarrow> bool" where
  "rtspPathRE s \<longleftrightarrow> s \<noteq> [] \<and> list_all path_char s"

definition encoder_names :: "string list" where
  "encoder_names = [''auto'', ''libx264'', ''h264_nvenc'', ''h264_qsv'', ''h264_amf'']"

definition bad_size :: "int \<Rightarrow> int \<Rightarrow> bool" where
  "bad_size w h \<longleftrightarrow> w < 64 \<or> h < 64 \<or> go_mod w 2 \<noteq> 0 \<or> go_mod h 2 \<noteq> 0"

text \<open>A sequence of guarded early returns: the error of the first guard that holds.\<close>

fun first_error :: "(bool \<times> 'e) list \<Rightarrow> 'e option" where
  "first_error [] = None"
| "first_error ((g, e) # gs) = (if g then Some e else first_error gs)"

definition substream_guards :: "config \<Rightarrow> (bool \<times> config_error) list" where
  "substream_guards c =
     [(\<not> rtspPathRE (SubstreamPath c), SubPathInvalid),
      (SubstreamPath c = RTSPPath c, SubPathEqual),
      (SubstreamFPS c < 1 \<or> SubstreamFPS c > FPS c, SubFPSRange),
      (bad_size (SubstreamWidth c) (SubstreamHeight c), SubDimensionsInvalid),
      (SubstreamWidth c > Width c \<or> SubstreamHeight c > Height c, SubDimensionsExceed),
      (trim_space (SubstreamBitrate c) = [], SubBitrateMissing)]"

definition metadata_guards :: "config \<Rightarrow> (bool \<times> config_error) list" where
  "metadata_guards c =
     [(MetadataIntervalMS c < 250 \<or> MetadataIntervalMS c > 5000, MetadataIntervalRange),
      (MetadataPayloadType c < 96 \<or> MetadataPayloadType c > 127, MetadataPayloadRange)]"

definition auth_guards :: "config \<Rightarrow> (bool \<times> config_error) list" where
  "auth_guards c =
     [(ONVIFUsername c = [] \<or> ONVIFPassword c = [], ONVIFAuthMissing (ONVIFPasswordEnv c)),
      (RTSPUsername c = [] \<or> RTSPPassword c = [], RTSPAuthMissing (RTSPPasswordEnv c)),
      (length (ONVIFPassword c) < 12 \<or> length (RTSPPassword c) < 12, PasswordTooShort),
      (AuthRealm c = [], RealmMissing)]"

definition stream_guards :: "config \<Rightarrow> (bool \<times> config_error) list" where
  "stream_guards c =
     [(ONVIFPort c < 1 \<or> ONVIFPort c > 65535 \<or> RTSPPort c < 1 \<or> RTSPPort c > 65535, PortRange),
      (ONVIFPort c = RTSPPort c, PortsEqual),
      (FPS c < 1 \<or> FPS c > 120, FPSRange),
      (bad_size (Width c) (Height c), DimensionsInvalid),
      (GOPSeconds c < 1 \<or> GOPSeconds c > 10, GOPRange),
      (SegmentSeconds c < 10, SegmentTooShort),
      (RetentionDays c < 0 \<or> MaxRecordingGB c < 0, RetentionNegative),
      (\<not> rtspPathRE (RTSPPath c), RTSPPathInvalid)]"

definition osd_guards :: "config \<Rightarrow> (bool \<times> config_error) list" where
  "osd_guards c =
     [(SnapshotRefreshMS c < 250 \<or> SnapshotRefreshMS c > 60000, SnapshotRange),
      (trim_space (OSDTextFile c) = [], OSDTextFileMissing),
      (trim_space (OSDFontFile c) = [], OSDFontFileMissing),
      (OSDFontSize c < 8 \<or> OSDFontSize c > 96, OSDFontSizeRange)]"

definition device_guards :: "config \<Rightarrow> (bool \<times> config_error) list" where
  "device_guards c =
     [(Encoder c \<notin> set encoder_names, UnsupportedEncoder (Encoder c)),
      (AdvertiseIP c \<noteq> [] \<and> parse_ip (AdvertiseIP c) = None, AdvertiseIPInvalid),
      (trim_space (DeviceName c) = [] \<or> trim_space (SerialNumber c) = [], IdentityMissing),
      (trim_space (VideoBitrate c) = [], BitrateMissing),
      (RecordingEnabled c \<and> trim_space (RecordingDir c) = [], RecordingDirMissing),
      (trim_space (LogFile c) = [] \<or> LogMaxMB c < 1 \<or> LogBackups c < 1, LogInvalid)]"

text \<open>
  \<open>Validate\<close>: the guards in the order of the source, the substream's only when it is
  enabled, the metadata track's only when it is enabled, and the credentials' only
  without \<open>insecure_allow_no_auth\<close>.
\<close>

definition validate :: "config \<Rightarrow> config_error option" where
  "validate c = first_error (
     stream_guards c @ (if SubstreamEnabled c then substream_guards c else []) @
     osd_guards c @ (if MetadataEnabled c then metadata_guards c else []) @
     device_guards c @ (if InsecureNoAuth c then [] else auth_guards c))"

section \<open>Absolute paths\<close>

definition RecordingAbsPath :: "(string \<Rightarrow> string option) \<Rightarrow> config \<Rightarrow> string" where
  "RecordingAbsPath abs_path c =
     (case abs_path (RecordingDir c) of None \<Rightarrow> RecordingDir c | Some p \<Rightarrow> p)"

definition OSDTextAbsPath :: "(string \<Rightarrow> string option) \<Rightarrow> config \<Rightarrow> string" where
  "OSDTextAbsPath abs_path c =
     (case abs_path (OSDTextFile c) of None \<Rightarrow> OSDTextFile c | Some p \<Rightarrow> p)"

text \<open>The messages of the errors, as a SOAP fault reports them.\<close>

fun error_text :: "config_error \<Rightarrow> string" where
  "error_text PortRange = ''onvif_port and rtsp_port must be between 1 and 65535''"
| "error_text PortsEqual = ''onvif_port and rtsp_port must be different''"
| "error_text FPSRange = ''fps must be between 1 and 120''"
| "error_text DimensionsInvalid = ''width and height must be even integers >= 64''"
| "error_text GOPRange = ''gop_seconds must be between 1 and 10''"
| "error_text SegmentTooShort = ''segment_seconds must be at least 10''"
| "error_text RetentionNegative = ''retention_days and max_recording_gb cannot be negative''"
| "error_text RTSPPathInvalid = ''rtsp_path may contain only letters, digits and underscore''"
| "error_text SubPathInvalid = ''substream_path may contain only letters, digits and underscore''"
| "error_text SubPathEqual = ''substream_path must differ from rtsp_path''"
| "error_text SubFPSRange = ''substream_fps must be between 1 and fps''"
| "error_text SubDimensionsInvalid = ''substream_width and substream_height must be even integers >= 64''"
| "error_text SubDimensionsExceed = ''substream dimensions cannot exceed main stream dimensions''"
| "error_text SubBitrateMissing = ''substream_bitrate is required when substream is enabled''"
| "error_text SnapshotRange = ''snapshot_refresh_ms must be between 250 and 60000''"
| "error_text OSDTextFileMissing = ''osd_text_file is required''"
| "error_text OSDFontFileMissing = ''osd_font_file is required''"
| "error_text OSDFontSizeRange = ''osd_font_size must be between 8 and 96''"
| "error_text MetadataIntervalRange = ''metadata_interval_ms must be between 250 and 5000''"
| "error_text MetadataPayloadRange = ''metadata_payload_type must be between 96 and 127''"
| "error_text (UnsupportedEncoder e) = ''unsupported encoder '' @ go_quote e"
| "error_text AdvertiseIPInvalid = ''advertise_ip is not a valid IP address''"
| "error_text IdentityMissing = ''device_name and serial_number are required''"
| "error_text BitrateMissing = ''video_bitrate is required''"
| "error_text RecordingDirMissing = ''recording_dir is required when recording is enabled''"
| "error_text LogInvalid = ''log_file is required and log_max_mb/log_backups must be >= 1''"
| "error_text (ONVIFAuthMissing v) =
     ''ONVIF authentication is required; set onvif_username and '' @ v @ '' (or onvif_password)''"
| "error_text (RTSPAuthMissing v) =
     ''RTSP authentication is required; set rtsp_username and '' @ v @ '' (or rtsp_password)''"
| "error_text PasswordTooShort = ''production passwords must be at least 12 characters''"
| "error_text RealmMissing = ''auth_realm is required''"

section \<open>What a validated configuration guarantees\<close>

lemma first_error_None: "first_error gs = None \<longleftrightarrow> (\<forall>p \<in> set gs. \<not> fst p)"
  by (induction gs rule: first_error.induct) auto

lemma first_error_append [simp]:
  "first_error (xs @ ys) = (case first_error xs of None \<Rightarrow> first_error ys | Some e \<Rightarrow> Some e)"
  by (induction xs rule: first_error.induct) auto

lemma first_error_mem: "first_error gs = Some e \<Longrightarrow> (True, e) \<in> set gs"
  by (induction gs rule: first_error.induct) (auto split: if_splits)

lemma bad_size_iff: "bad_size w h \<longleftrightarrow> \<not> (64 \<le> w \<and> 64 \<le> h \<and> even w \<and> even h)"
  by (auto simp: bad_size_def go_mod_eq_0_iff)

definition valid_substream :: "config \<Rightarrow> bool" where
  "valid_substream c \<longleftrightarrow>
     rtspPathRE (SubstreamPath c) \<and> SubstreamPath c \<noteq> RTSPPath c
     \<and> SubstreamFPS c \<in> {1..FPS c}
     \<and> SubstreamWidth c \<in> {64..Width c} \<and> SubstreamHeight c \<in> {64..Height c}
     \<and> even (SubstreamWidth c) \<and> even (SubstreamHeight c) \<and> trim_space (SubstreamBitrate c) \<noteq> []"

definition valid_credentials :: "config \<Rightarrow> bool" where
  "valid_credentials c \<longleftrightarrow>
     ONVIFUsername c \<noteq> [] \<and> RTSPUsername c \<noteq> [] \<and> AuthRealm c \<noteq> []
     \<and> 12 \<le> length (ONVIFPassword c) \<and> 12 \<le> length (RTSPPassword c)"

definition valid_streams :: "config \<Rightarrow> bool" where
  "valid_streams c \<longleftrightarrow>
     ONVIFPort c \<in> {1..65535} \<and> RTSPPort c \<in> {1..65535} \<and> ONVIFPort c \<noteq> RTSPPort c
     \<and> FPS c \<in> {1..120} \<and> 64 \<le> Width c \<and> 64 \<le> Height c \<and> even (Width c) \<and> even (Height c)
     \<and> GOPSeconds c \<in> {1..10} \<and> 10 \<le> SegmentSeconds c
     \<and> 0 \<le> RetentionDays c \<and> 0 \<le> MaxRecordingGB c \<and> rtspPathRE (RTSPPath c)"

definition valid_osd :: "config \<Rightarrow> bool" where
  "valid_osd c \<longleftrightarrow>
     SnapshotRefreshMS c \<in> {250..60000} \<and> trim_space (OSDTextFile c) \<noteq> []
     \<and> trim_space (OSDFontFile c) \<noteq> [] \<and> OSDFontSize c \<in> {8..96}"

definition valid_metadata :: "config \<Rightarrow> bool" where
  "valid_metadata c \<longleftrightarrow> MetadataIntervalMS c \<in> {250..5000} \<and> MetadataPayloadType c \<in> {96..127}"

definition valid_device :: "config \<Rightarrow> bool" where
  "valid_device c \<longleftrightarrow>
     Encoder c \<in> set encoder_names \<and> (AdvertiseIP c = [] \<or> parse_ip (AdvertiseIP c) \<noteq> None)
     \<and> trim_space (DeviceName c) \<noteq> [] \<and> trim_space (SerialNumber c) \<noteq> []
     \<and> trim_space (VideoBitrate c) \<noteq> []
     \<and> (RecordingEnabled c \<longrightarrow> trim_space (RecordingDir c) \<noteq> [])
     \<and> trim_space (LogFile c) \<noteq> [] \<and> 1 \<le> LogMaxMB c \<and> 1 \<le> LogBackups c"

definition valid_config :: "config \<Rightarrow> bool" where
  "valid_config c \<longleftrightarrow>
     valid_streams c \<and> (SubstreamEnabled c \<longrightarrow> valid_substream c) \<and> valid_osd c
     \<and> (MetadataEnabled c \<longrightarrow> valid_metadata c) \<and> valid_device c
     \<and> (InsecureNoAuth c \<or> valid_credentials c)"

lemma guards_pass:
  "first_error (stream_guards c) = None \<longleftrightarrow> valid_streams c"
  "first_error (substream_guards c) = None \<longleftrightarrow> valid_substream c"
  "first_error (osd_guards c) = None \<longleftrightarrow> valid_osd c"
  "first_error (metadata_guards c) = None \<longleftrightarrow> valid_metadata c"
  "first_error (device_guards c) = None \<longleftrightarrow> valid_device c"
  "first_error (auth_guards c) = None \<longleftrightarrow> valid_credentials c"
  by (auto simp: first_error_None stream_guards_def substream_guards_def osd_guards_def
      metadata_guards_def device_guards_def auth_guards_def valid_streams_def
      valid_substream_def valid_osd_def valid_metadata_def valid_device_def
      valid_credentials_def bad_size_iff)

lemma first_error_append_None:
  "first_error (xs @ ys) = None \<longleftrightarrow> first_error xs = None \<and> first_error ys = None"
  by (simp split: option.split)

lemma first_error_if_None:
  "first_error (if b then gs else []) = None \<longleftrightarrow> (b \<longrightarrow> first_error gs = None)"
  "first_error (if b then [] else gs) = None \<longleftrightarrow> (b \<or> first_error gs = None)"
  by simp_all

lemma validate_None_iff: "validate c = None \<longleftrightarrow> valid_config c"
  unfolding validate_def valid_config_def first_error_append_None first_error_if_None guards_pass ..

lemma valid_configD:
  assumes "validate c = None"
  shows "valid_streams c" "valid_device c" "SubstreamEnabled c \<Longrightarrow> valid_substream c"
    "MetadataEnabled c \<Longrightarrow> valid_metadata c" "\<not> InsecureNoAuth c \<Longrightarrow> valid_credentials c"
  using assms by (auto simp: validate_None_iff valid_config_def)

section \<open>Properties\<close>

lemma apply_env_fields:
  "ONVIFPassword (apply_env env c) = env_override env (ONVIFPasswordEnv c) (ONVIFPassword c)"
  "ONVIFUsername (apply_env env c) = ONVIFUsername c"
  "RTSPUsername (apply_env env c) = (if RTSPUsername c = [] then ONVIFUsername c else RTSPUsername c)"
  "RTSPPassword (apply_env env c) =
     (let p = env_override env (RTSPPasswordEnv c) (RTSPPassword c)
      in if p = [] then ONVIFPassword (apply_env env c) else p)"
  "ONVIFPasswordEnv (apply_env env c) = ONVIFPasswordEnv c"
  "RTSPPasswordEnv (apply_env env c) = RTSPPasswordEnv c"
  by (simp_all add: apply_env_def Let_def)

lemma env_override_idem [simp]:
  "env_override env name (env_override env name old) = env_override env name old"
  by (simp add: env_override_def split: option.splits)

text \<open>The three fields \<open>applyEnv\<close> sets, as functions of the configuration it starts from.\<close>

definition resolved_onvif_password :: "environment \<Rightarrow> config \<Rightarrow> string" where
  "resolved_onvif_password env c = env_override env (ONVIFPasswordEnv c) (ONVIFPassword c)"

definition resolved_rtsp_username :: "config \<Rightarrow> string" where
  "resolved_rtsp_username c = (if RTSPUsername c = [] then ONVIFUsername c else RTSPUsername c)"

definition resolved_rtsp_password :: "environment \<Rightarrow> config \<Rightarrow> string" where
  "resolved_rtsp_password env c =
     (let p = env_override env (RTSPPasswordEnv c) (RTSPPassword c)
      in if p = [] then resolved_onvif_password env c else p)"

lemma apply_env_eq:
  "apply_env env c = c\<lparr>ONVIFPassword := resolved_onvif_password env c,
     RTSPUsername := resolved_rtsp_username c, RTSPPassword := resolved_rtsp_password env c\<rparr>"
  by (simp add: apply_env_def resolved_onvif_password_def resolved_rtsp_username_def
      resolved_rtsp_password_def Let_def)

lemma resolved_onvif_password_update:
  "resolved_onvif_password env (c\<lparr>ONVIFPassword := resolved_onvif_password env c,
     RTSPUsername := u, RTSPPassword := q\<rparr>) = resolved_onvif_password env c"
  by (simp add: resolved_onvif_password_def)

lemma resolved_rtsp_username_update:
  "resolved_rtsp_username (c\<lparr>ONVIFPassword := p, RTSPUsername := resolved_rtsp_username c,
     RTSPPassword := q\<rparr>) = resolved_rtsp_username c"
  by (simp add: resolved_rtsp_username_def)

lemma resolved_rtsp_password_update:
  "resolved_rtsp_password env (c\<lparr>ONVIFPassword := resolved_onvif_password env c,
     RTSPUsername := u, RTSPPassword := resolved_rtsp_password env c\<rparr>) = resolved_rtsp_password env c"
  by (auto simp: resolved_rtsp_password_def resolved_onvif_password_def env_override_def Let_def
      split: option.splits)

lemmas resolved_simps = resolved_onvif_password_update resolved_rtsp_username_update
  resolved_rtsp_password_update

lemma auth_guards_after_env:
  "first_error (auth_guards (apply_env env c)) \<noteq> Some (RTSPAuthMissing v)"
  by (auto simp: auth_guards_def apply_env_fields Let_def split: if_splits)

text \<open>
  Property C16: \<open>Validate\<close> accepts exactly the configurations that satisfy the grouped
  specification \<open>valid_config\<close>: ports in range and different, frame rate, even frame
  sizes, a substream no larger or faster than the main stream, clean RTSP paths, metadata
  and OSD ranges, a known encoder, and credentials unless authentication is switched off.
\<close>

theorem validate_accepts_exactly: "validate c = None \<longleftrightarrow> valid_config c"
  by (rule validate_None_iff)

text \<open>
  After \<open>applyEnv\<close>, \<open>Validate\<close> never reports missing RTSP credentials: the
  fallback to the ONVIF user and password makes that branch unreachable from \<open>Load\<close>.
\<close>

theorem rtsp_credentials_never_missing_after_env:
  "validate (apply_env env c) \<noteq> Some (RTSPAuthMissing v)"
proof
  let ?c = "apply_env env c"
  let ?auth = "if InsecureNoAuth ?c then [] else auth_guards ?c"
  let ?before = "stream_guards ?c @ (if SubstreamEnabled ?c then substream_guards ?c else []) @
     osd_guards ?c @ (if MetadataEnabled ?c then metadata_guards ?c else []) @ device_guards ?c"
  assume "validate ?c = Some (RTSPAuthMissing v)"
  then have "first_error (?before @ ?auth) = Some (RTSPAuthMissing v)"
    by (simp only: validate_def append_assoc)
  moreover have "(True, RTSPAuthMissing v) \<notin> set ?before"
    by (auto simp: stream_guards_def substream_guards_def osd_guards_def metadata_guards_def
        device_guards_def)
  then have "first_error ?before \<noteq> Some (RTSPAuthMissing v)"
    by (blast dest: first_error_mem)
  ultimately have "first_error ?auth = Some (RTSPAuthMissing v)"
    unfolding first_error_append by (auto split: option.splits)
  with auth_guards_after_env show False by (auto split: if_splits)
qed

lemma apply_env_twice: "apply_env env (apply_env env c) = apply_env env c"
  by (simp add: apply_env_eq resolved_simps)

end
