(* ===== verification/Xml.thy ===== *)
theory Xml
  imports Codec
begin

text \<open>
  What the handlers do with XML. Reading: the program walks the token stream of
  \<open>encoding/xml\<close>'s decoder; a request body is modelled by that stream, the tokens up to
  the end of input or to the first syntax error. \<open>elementText\<close> and \<open>soapAction\<close>
  (\<open>internal/onvif/server.go\<close>) walk it, \<open>DecodeElement\<close> consumes one element of it.
  Writing: \<open>xmlEsc\<close>, the escaping of every value the responses quote.
\<close>

section \<open>Token streams\<close>

type_synonym attrs = "(string \<times> string) list"

text \<open>
  Names are local names; \<open>OtherToken\<close> is a comment, a directive or a processing
  instruction. The decoder is strict, so the stream ends in an error when an element is
  still open at the end of input.
\<close>

datatype xtoken =
    StartElement string attrs
  | EndElement string
  | CharData string
  | OtherToken

datatype xend = AtEOF | AtSyntaxError

type_synonym xstream = "xtoken list \<times> xend"

fun is_text :: "xtoken \<Rightarrow> bool" where
  "is_text (CharData s) = True"
| "is_text OtherToken = True"
| "is_text (StartElement n a) = False"
| "is_text (EndElement n) = False"

text \<open>
  \<open>DecodeElement\<close> into a string, after the start tag: the character data directly inside
  the element, nested elements skipped (the counter is their depth), up to the end tag.
\<close>

fun decode_text :: "nat \<Rightarrow> string \<Rightarrow> xtoken list \<Rightarrow> (string \<times> xtoken list) option" where
  "decode_text d acc [] = None"
| "decode_text d acc (StartElement n a # ts) = decode_text (Suc d) acc ts"
| "decode_text d acc (EndElement n # ts) =
     (case d of 0 \<Rightarrow> Some (acc, ts) | Suc d' \<Rightarrow> decode_text d' acc ts)"
| "decode_text d acc (CharData s # ts) = decode_text d (if d = 0 then acc @ s else acc) ts"
| "decode_text d acc (OtherToken # ts) = decode_text d acc ts"

fun elementText :: "xtoken list \<Rightarrow> string \<Rightarrow> string" where
  "elementText [] name = []"
| "elementText (StartElement n a # ts) name =
     (if n = name then (case decode_text 0 [] ts of None \<Rightarrow> [] | Some (v, _) \<Rightarrow> trim_space v)
      else elementText ts name)"
| "elementText (_ # ts) name = elementText ts name"

fun soap_action_from :: "bool \<Rightarrow> xtoken list \<Rightarrow> string" where
  "soap_action_from in_body [] = []"
| "soap_action_from in_body (StartElement n a # ts) =
     (if n = ''Body'' then soap_action_from True ts
      else if in_body then n
      else soap_action_from in_body ts)"
| "soap_action_from in_body (EndElement n # ts) =
     (if n = ''Body'' then [] else soap_action_from in_body ts)"
| "soap_action_from in_body (_ # ts) = soap_action_from in_body ts"

definition soapAction :: "xtoken list \<Rightarrow> string" where
  "soapAction ts = soap_action_from False ts"

section \<open>Element trees\<close>

text \<open>
  \<open>DecodeElement\<close> into a struct reads the element's whole subtree. The tree of the
  tokens after a start tag: the stack holds the open elements with the siblings read so
  far, in reverse.
\<close>

datatype xnode = XElem string attrs "xnode list" | XText string

fun parse_nodes ::
  "(string \<times> attrs \<times> xnode list) list \<Rightarrow> xnode list \<Rightarrow> xtoken list \<Rightarrow> (xnode list \<times> xtoken list) option"
where
  "parse_nodes st cur [] = None"
| "parse_nodes st cur (StartElement n a # ts) = parse_nodes ((n, a, cur) # st) [] ts"
| "parse_nodes st cur (EndElement n # ts) =
     (case st of
        [] \<Rightarrow> Some (rev cur, ts)
      | (m, a, old) # st' \<Rightarrow> parse_nodes st' (XElem m a (rev cur) # old) ts)"
| "parse_nodes st cur (CharData s # ts) = parse_nodes st (XText s # cur) ts"
| "parse_nodes st cur (OtherToken # ts) = parse_nodes st cur ts"

fun node_text :: "xnode list \<Rightarrow> string" where
  "node_text [] = []"
| "node_text (XText s # ns) = s @ node_text ns"
| "node_text (XElem n a cs # ns) = node_text ns"

text \<open>An integer field: empty text is 0, otherwise \<open>strconv.ParseInt\<close> of the trimmed text.\<close>

definition decode_int :: "string \<Rightarrow> int option" where
  "decode_int s = (if s = [] then Some 0 else num_ok (parse_int (trim_space s)))"

lemma decode_int_itoa: "int64_min \<le> i \<Longrightarrow> i \<le> int64_max \<Longrightarrow> decode_int (itoa i) = Some i"
proof -
  assume i: "int64_min \<le> i" "i \<le> int64_max"
  have "graphic (hd (itoa i))" "graphic (last (itoa i))"
    using hd_dec_nat last_dec_nat by (auto simp: itoa_def is_digit_graphic) (auto simp: graphic_def)
  then have "trim_space (itoa i) = itoa i" by (intro trim_space_graphic) simp_all
  with i show ?thesis by (simp add: decode_int_def atoi_itoa [unfolded atoi_def])
qed

text \<open>An attribute field takes the last attribute of its name.\<close>

fun attr_value :: "string \<Rightarrow> attrs \<Rightarrow> string \<Rightarrow> string" where
  "attr_value name [] old = old"
| "attr_value name ((n, v) # as) old = attr_value name as (if n = name then v else old)"

text \<open>
  \<open>DecodeElement\<close> into a struct visits the child elements in order; each may set fields or
  fail. Repeated elements overwrite, character data between elements is dropped.
\<close>

fun decode_children :: "(string \<Rightarrow> attrs \<Rightarrow> xnode list \<Rightarrow> 'a \<Rightarrow> 'a option) \<Rightarrow> xnode list \<Rightarrow> 'a \<Rightarrow> 'a option" where
  "decode_children f [] a = Some a"
| "decode_children f (XText s # ns) a = decode_children f ns a"
| "decode_children f (XElem n as cs # ns) a = Option.bind (f n as cs a) (decode_children f ns)"

definition decode_int_field :: "xnode list \<Rightarrow> (int \<Rightarrow> 'a) \<Rightarrow> 'a option" where
  "decode_int_field cs k = map_option k (decode_int (node_text cs))"

text \<open>
  The loop that looks for the first element of a name and decodes it: its attributes and
  children, \<open>Inr None\<close> when decoding fails, \<open>Inl ()\<close> when there is none.
\<close>

fun find_element :: "string \<Rightarrow> xtoken list \<Rightarrow> unit + (attrs \<times> xnode list) option" where
  "find_element name [] = Inl ()"
| "find_element name (StartElement n as # ts) =
     (if n = name then Inr (map_option (\<lambda>(cs, rest). (as, cs)) (parse_nodes [] [] ts))
      else find_element name ts)"
| "find_element name (_ # ts) = find_element name ts"

section \<open>Escaping\<close>

definition esc_char :: "char \<Rightarrow> string" where
  "esc_char c =
     (if c = CHR ''&'' then ''&amp;''
      else if c = CHR ''<'' then ''&lt;''
      else if c = CHR ''>'' then ''&gt;''
      else if c = CHR 0x22 then ''&quot;''
      else if c = CHR 0x27 then ''&apos;''
      else [c])"

definition xmlEsc :: "string \<Rightarrow> string" where
  "xmlEsc v = concat (map esc_char v)"

text \<open>What an XML reader makes of the five predefined entities.\<close>

fun xml_unescape :: "string \<Rightarrow> string option" where
  "xml_unescape [] = Some []"
| "xml_unescape (c # s) =
     (if c \<noteq> CHR ''&'' then map_option (\<lambda>r. c # r) (xml_unescape s)
      else if has_prefix s ''amp;'' then map_option (\<lambda>r. CHR ''&'' # r) (xml_unescape (drop 4 s))
      else if has_prefix s ''lt;'' then map_option (\<lambda>r. CHR ''<'' # r) (xml_unescape (drop 3 s))
      else if has_prefix s ''gt;'' then map_option (\<lambda>r. CHR ''>'' # r) (xml_unescape (drop 3 s))
      else if has_prefix s ''quot;'' then map_option (\<lambda>r. CHR 0x22 # r) (xml_unescape (drop 5 s))
      else if has_prefix s ''apos;'' then map_option (\<lambda>r. CHR 0x27 # r) (xml_unescape (drop 5 s))
      else None)"

definition markup_char :: "char \<Rightarrow> bool" where
  "markup_char c \<longleftrightarrow> c = CHR ''<'' \<or> c = CHR ''>'' \<or> c = CHR 0x22 \<or> c = CHR 0x27"

lemma xmlEsc_simps [simp]: "xmlEsc [] = []" "xmlEsc (c # s) = esc_char c @ xmlEsc s"
  by (simp_all add: xmlEsc_def)

lemma xmlEsc_append: "xmlEsc (s @ t) = xmlEsc s @ xmlEsc t"
  by (simp add: xmlEsc_def)

lemma xml_unescape_esc_char: "xml_unescape (esc_char c @ s) = map_option (\<lambda>r. c # r) (xml_unescape s)"
  by (auto simp: esc_char_def has_prefix_def)

lemma xml_unescape_xmlEsc: "xml_unescape (xmlEsc s) = Some s"
  by (induction s) (simp_all add: xml_unescape_esc_char)

lemma xmlEsc_no_markup: "c \<in> set (xmlEsc s) \<Longrightarrow> \<not> markup_char c"
  by (induction s) (auto simp: esc_char_def markup_char_def split: if_splits)

interpretation escaping: text_codec xmlEsc xml_unescape "\<lambda>s. True"
  by unfold_locales (simp add: xml_unescape_xmlEsc)

lemma esc_char_plain: "c \<noteq> CHR ''&'' \<Longrightarrow> \<not> markup_char c \<Longrightarrow> esc_char c = [c]"
  by (auto simp: esc_char_def markup_char_def)

lemma xmlEsc_plain: "(\<And>c. c \<in> set s \<Longrightarrow> c \<noteq> CHR ''&'' \<and> \<not> markup_char c) \<Longrightarrow> xmlEsc s = s"
  by (induction s) (auto simp: esc_char_plain)

lemma length_esc_char: "length (esc_char c) \<le> 6"
  by (simp add: esc_char_def)

lemma length_xmlEsc: "length (xmlEsc s) \<le> 6 * length s"
  by (induction s) (use length_esc_char in \<open>auto intro: add_mono\<close>)

section \<open>Reading elements\<close>

definition has_start :: "string \<Rightarrow> xtoken list \<Rightarrow> bool" where
  "has_start name ts \<longleftrightarrow> (\<exists>a. StartElement name a \<in> set ts)"

lemma elementText_skip:
  "\<not> has_start name pre \<Longrightarrow> elementText (pre @ ts) name = elementText ts name"
proof (induction pre)
  case (Cons t pre)
  then show ?case by (cases t) (auto simp: has_start_def)
qed simp

lemma elementText_leaf:
  "\<not> has_start name pre \<Longrightarrow>
   elementText (pre @ StartElement name a # CharData s # EndElement name # post) name = trim_space s"
  by (simp add: elementText_skip)

lemma elementText_absent: "\<not> has_start name ts \<Longrightarrow> elementText ts name = []"
  using elementText_skip [of name ts "[]"] by simp

fun is_body_tag :: "xtoken \<Rightarrow> bool" where
  "is_body_tag (StartElement n a) = (n = ''Body'')"
| "is_body_tag (EndElement n) = (n = ''Body'')"
| "is_body_tag (CharData s) = False"
| "is_body_tag OtherToken = False"

lemma soap_action_from_skip:
  "list_all (\<lambda>t. \<not> is_body_tag t) pre \<Longrightarrow> soap_action_from False (pre @ ts) = soap_action_from False ts"
proof (induction pre)
  case (Cons t pre)
  then show ?case by (cases t) auto
qed simp

lemma soap_action_from_text:
  "list_all is_text mid \<Longrightarrow> soap_action_from b (mid @ ts) = soap_action_from b ts"
proof (induction mid)
  case (Cons t mid)
  then show ?case by (cases t) auto
qed simp

lemma soapAction_in_body:
  assumes "list_all (\<lambda>t. \<not> is_body_tag t) pre" "list_all is_text mid" "name \<noteq> ''Body''"
  shows "soapAction (pre @ StartElement ''Body'' a # mid @ StartElement name b # post) = name"
  using assms by (simp add: soapAction_def soap_action_from_skip soap_action_from_text)

lemma length_decode_text: "decode_text d acc ts = Some (v, rest) \<Longrightarrow> length rest < length ts"
  by (induction d acc ts rule: decode_text.induct) (auto split: nat.splits)

section \<open>Properties\<close>

text \<open>
  Property C33: \<open>xmlEsc\<close> is lossless and safe in text and in quoted attributes: a reader
  that resolves the five entities gets the value back, and the escaped text holds no
  angle bracket and no quote, whatever the value.
\<close>

theorem xmlEsc_lossless_and_safe:
  "xml_unescape (xmlEsc s) = Some s \<and> list_all (\<lambda>c. \<not> markup_char c) (xmlEsc s)"
  using xmlEsc_no_markup by (auto simp: xml_unescape_xmlEsc list_all_iff)

text \<open>
  The dispatched action is the first element inside the SOAP body, whatever
  the envelope and header before it contain and whatever follows.
\<close>

theorem soapAction_first_body_child:
  assumes "list_all (\<lambda>t. \<not> is_body_tag t) pre" "list_all is_text mid" "name \<noteq> ''Body''"
  shows "soapAction (pre @ StartElement ''Body'' a # mid @ StartElement name b # post) = name"
  using assms by (rule soapAction_in_body)

theorem soapAction_first_body_child_witness:
  "soapAction ([StartElement ''Envelope'' [], StartElement ''Header'' [], EndElement ''Header''] @
     StartElement ''Body'' [] # [CharData '' ''] @ StartElement ''GetProfiles'' [] #
     [EndElement ''GetProfiles'', EndElement ''Body'', EndElement ''Envelope'']) = ''GetProfiles''"
  by (rule soapAction_first_body_child) simp_all

end
