(* ===== verification/Digest.thy ===== *)
theory Digest
  imports Codec
begin

text \<open>
  \<open>parseDigest\<close> of \<open>internal/auth/digest.go\<close>: the parser of the parameters of an HTTP
  Digest \<open>Authorization\<close> header, with quoted values and backslash escapes. It returns a
  map from parameter names to values; a later parameter overrides an earlier one.
\<close>

section \<open>The parser\<close>

type_synonym params = "string \<Rightarrow> string option"

text \<open>A missing key reads as the empty string, as in a Go map.\<close>

definition param :: "params \<Rightarrow> string \<Rightarrow> string" where
  "param p k = (case p k of None \<Rightarrow> [] | Some v \<Rightarrow> v)"

text \<open>
  The loop over a quoted value, after the opening quote: the escape flag, the value read
  so far, and the rest. It returns the value and what follows the closing quote; a value
  that is never closed extends to the end.
\<close>

fun parse_quoted :: "bool \<Rightarrow> string \<Rightarrow> string \<Rightarrow> string \<times> string" where
  "parse_quoted escaped b [] = (b, [])"
| "parse_quoted escaped b (c # s) =
     (if escaped then parse_quoted False (b @ [c]) s
      else if c = CHR 0x5C then parse_quoted True b s
      else if c = CHR 0x22 then (b, s)
      else parse_quoted False (b @ [c]) s)"

definition parse_unquoted :: "string \<Rightarrow> string \<times> string" where
  "parse_unquoted v =
     (case index_byte v CHR '','' of
        None \<Rightarrow> (trim_space v, [])
      | Some comma \<Rightarrow> (trim_space (take comma v), drop (comma + 1) v))"

definition is_separator :: "char \<Rightarrow> bool" where
  "is_separator c \<longleftrightarrow> c = CHR '' '' \<or> c = CHR '','' \<or> c = CHR 0x09"

definition parse_value :: "string \<Rightarrow> string \<times> string" where
  "parse_value v =
     (case v of
        c # t \<Rightarrow> if c = CHR 0x22 then parse_quoted False [] t else parse_unquoted v
      | [] \<Rightarrow> parse_unquoted v)"

lemma length_parse_quoted: "length (snd (parse_quoted e b s)) \<le> length s"
  by (induction e b s rule: parse_quoted.induct) (auto intro: le_SucI)

lemma length_parse_value: "length (snd (parse_value v)) \<le> length v"
proof (cases v)
  case (Cons c t)
  then show ?thesis
    using length_parse_quoted [of False "[]" t]
    by (auto simp: parse_value_def parse_unquoted_def split: option.splits intro: le_SucI)
qed (simp add: parse_value_def parse_unquoted_def)

function parse_params :: "params \<Rightarrow> string \<Rightarrow> params" where
  "parse_params out v =
     (let v1 = dropWhile is_separator v in
      if v1 = [] then out
      else (case index_byte v1 CHR ''='' of
              None \<Rightarrow> out
            | Some eq \<Rightarrow>
                if eq = 0 then out
                else
                  let key = trim_space (take eq v1);
                      (val, rest) = parse_value (trim_space (drop (eq + 1) v1))
                  in parse_params (out(key \<mapsto> val)) rest))"
  by pat_completeness auto
termination
proof (relation "measure (\<lambda>(out, v). length v)", goal_cases)
  case (2 out v v1 eq key pr val rest)
  have "length rest \<le> length (drop (eq + 1) v1)"
    using 2 length_parse_value length_trim_space by (metis order_trans snd_conv)
  also have "\<dots> < length v"
  proof -
    have "length v1 \<le> length v" "0 < length v1" using 2 by (simp_all add: length_dropWhile_le)
    then show ?thesis unfolding length_drop by linarith
  qed
  finally show ?case by simp
qed simp

declare parse_params.simps [simp del]

definition parseDigest :: "string \<Rightarrow> params" where
  "parseDigest v = parse_params Map.empty v"

section \<open>What a client sends\<close>

text \<open>
  The reference writer of a parameter list: every value quoted, with a backslash before
  quotes and backslashes, the parameters separated by a comma and a space.
\<close>

definition quote_char :: "char \<Rightarrow> string" where
  "quote_char c = (if c = CHR 0x22 \<or> c = CHR 0x5C then [CHR 0x5C, c] else [c])"

definition render_param :: "string \<times> string \<Rightarrow> string" where
  "render_param kv =
     fst kv @ [CHR ''='', CHR 0x22] @ concat (map quote_char (snd kv)) @ [CHR 0x22]"

fun render_params :: "(string \<times> string) list \<Rightarrow> string" where
  "render_params [] = []"
| "render_params [kv] = render_param kv"
| "render_params (kv # kvs) = render_param kv @ '', '' @ render_params kvs"

text \<open>A parameter name: printable, with no separator and no equals sign.\<close>

definition param_name :: "string \<Rightarrow> bool" where
  "param_name k \<longleftrightarrow> k \<noteq> [] \<and> list_all (\<lambda>c. graphic c \<and> c \<noteq> CHR ''='' \<and> c \<noteq> CHR '','') k"

lemma parse_quoted_render:
  "parse_quoted False b (concat (map quote_char v) @ CHR 0x22 # s) = (b @ v, s)"
  by (induction v arbitrary: b) (auto simp: quote_char_def)

lemma separator_not_graphic: "graphic c \<Longrightarrow> c \<noteq> CHR '','' \<Longrightarrow> \<not> is_separator c"
  by (auto simp: is_separator_def graphic_def)

lemma index_byte_append: "c \<notin> set s \<Longrightarrow> index_byte (s @ c # t) c = Some (length s)"
  by (induction s) auto

lemma render_param_ends: "param_name (fst kv) \<Longrightarrow> last (render_param kv) = CHR 0x22"
  by (simp add: render_param_def)

lemma render_params_last:
  "kvs \<noteq> [] \<Longrightarrow> last (render_params kvs) = CHR 0x22 \<and> render_params kvs \<noteq> []"
  by (induction kvs rule: render_params.induct) (simp_all add: render_param_def)

lemma parse_params_step:
  assumes "param_name (fst kv)" and tail: "rest = [] \<or> graphic (last rest)"
  shows "parse_params out (render_param kv @ rest) = parse_params (out(fst kv \<mapsto> snd kv)) rest"
proof -
  obtain k v where kv: "kv = (k, v)" by (cases kv)
  with assms(1) have name: "param_name k" by simp
  let ?q = "concat (map quote_char v) @ CHR 0x22 # rest"
  let ?s = "k @ CHR ''='' # CHR 0x22 # ?q"
  from name have k: "k \<noteq> []" "graphic (hd k)" "graphic (last k)" "CHR ''='' \<notin> set k" "\<not> is_separator (hd k)"
    by (auto simp: param_name_def list_all_iff separator_not_graphic)
  have s: "render_param kv @ rest = ?s"
    by (simp add: kv render_param_def)
  have drop: "dropWhile is_separator ?s = ?s"
    using k by (cases k) auto
  have quote: "graphic (CHR 0x22)" by (simp add: graphic_def)
  then have "graphic (last (CHR 0x22 # ?q))" using tail by auto
  with quote have "trim_space (CHR 0x22 # ?q) = CHR 0x22 # ?q"
    by (intro trim_space_graphic) (simp_all only: list.sel list.distinct not_False_eq_True)
  then have "parse_value (trim_space (CHR 0x22 # ?q)) = (v, rest)"
    by (simp add: parse_value_def parse_quoted_render)
  then show ?thesis
    unfolding s parse_params.simps [of out ?s] Let_def drop
    using k by (simp add: kv index_byte_append trim_space_graphic)
qed

lemma parse_params_separator:
  "parse_params out (CHR '','' # CHR '' '' # s) = parse_params out s"
  by (simp add: parse_params.simps [of out "CHR '','' # CHR '' '' # s"] parse_params.simps [of out s]
      is_separator_def)

lemma parse_params_Nil [simp]: "parse_params out [] = out"
  by (simp add: parse_params.simps)

lemma parse_params_render:
  assumes "\<forall>kv \<in> set kvs. param_name (fst kv)"
  shows "parse_params out (render_params kvs) = foldl (\<lambda>m kv. m(fst kv \<mapsto> snd kv)) out kvs"
  using assms
proof (induction kvs arbitrary: out rule: render_params.induct)
  case (2 kv)
  then show ?case
    using parse_params_step [of kv "[]" out] by simp
next
  case (3 kv kv' kvs)
  then have "parse_params out (render_params (kv # kv' # kvs)) =
      parse_params (out(fst kv \<mapsto> snd kv)) ('', '' @ render_params (kv' # kvs))"
    using parse_params_step [of kv "'', '' @ render_params (kv' # kvs)" out]
      render_params_last [of "kv' # kvs"]
    by (simp add: graphic_def del: fun_upd_apply)
  with 3 show ?case by (simp add: parse_params_separator del: fun_upd_apply)
qed simp

lemma foldl_updates: "foldl (\<lambda>m kv. m(fst kv \<mapsto> snd kv)) m kvs = m ++ map_of (rev kvs)"
  by (induction kvs arbitrary: m) (auto simp: map_add_def fun_eq_iff split: option.splits)

text \<open>
  What RFC 2617 prescribes and most clients send: some parameters quoted, others as bare tokens. A
  parameter comes with the mark whether it is quoted.
\<close>

type_synonym digest_item = "bool \<times> string \<times> string"

definition render_item :: "digest_item \<Rightarrow> string" where
  "render_item it = (case it of (quoted, k, v) \<Rightarrow> if quoted then render_param (k, v) else k @ CHR ''='' # v)"

fun render_items :: "digest_item list \<Rightarrow> string" where
  "render_items [] = []"
| "render_items [it] = render_item it"
| "render_items (it # its) = render_item it @ '', '' @ render_items its"

definition token_value :: "string \<Rightarrow> bool" where
  "token_value v \<longleftrightarrow> v \<noteq> [] \<and> list_all (\<lambda>c. graphic c \<and> c \<noteq> CHR '','' \<and> c \<noteq> CHR 0x22) v"

definition item_ok :: "digest_item \<Rightarrow> bool" where
  "item_ok it \<longleftrightarrow> param_name (fst (snd it)) \<and> (fst it \<or> token_value (snd (snd it)))"

lemma token_value_ends: "token_value v \<Longrightarrow> v \<noteq> [] \<and> graphic (hd v) \<and> graphic (last v) \<and> hd v \<noteq> CHR 0x22 \<and> CHR '','' \<notin> set v"
  by (auto simp: token_value_def list_all_iff)

lemma render_item_last: "item_ok it \<Longrightarrow> render_item it \<noteq> [] \<and> graphic (last (render_item it))"
  by (auto simp: item_ok_def render_item_def render_param_def graphic_def [of "CHR 0x22"] dest: token_value_ends
      split: prod.splits)

lemma render_items_last:
  "its \<noteq> [] \<Longrightarrow> \<forall>it \<in> set its. item_ok it \<Longrightarrow> render_items its \<noteq> [] \<and> graphic (last (render_items its))"
  by (induction its rule: render_items.induct) (simp_all add: render_item_last)

lemma index_byte_none: "c \<notin> set s \<Longrightarrow> index_byte s c = None"
  by (induction s) auto

lemma parse_unquoted_token:
  assumes "token_value v"
  shows "parse_unquoted v = (v, [])" "parse_unquoted (v @ CHR '','' # s) = (v, s)"
  using token_value_ends [OF assms]
  by (simp_all add: parse_unquoted_def index_byte_none index_byte_append trim_space_graphic)

lemma parse_params_space: "parse_params out (CHR '' '' # s) = parse_params out s"
  by (simp add: parse_params.simps [of out "CHR '' '' # s"] parse_params.simps [of out s] is_separator_def)

text \<open>One step: an item at the end, or followed by a separator.\<close>

lemma parse_params_item:
  assumes "item_ok (quoted, k, v)" and tail: "rest = [] \<or> (\<exists>s. rest = '', '' @ s) \<and> graphic (last rest)"
  shows "parse_params out (render_item (quoted, k, v) @ rest) = parse_params (out(k \<mapsto> v)) rest"
proof (cases quoted)
  case True
  then show ?thesis using parse_params_step [of "(k, v)" rest out] assms by (auto simp: render_item_def item_ok_def)
next
  case False
  have name: "param_name k" and v: "token_value v" using assms(1) False by (simp_all add: item_ok_def)
  from name have k: "k \<noteq> []" "graphic (hd k)" "graphic (last k)" "CHR ''='' \<notin> set k" "\<not> is_separator (hd k)"
    by (auto simp: param_name_def list_all_iff separator_not_graphic)
  note ends = token_value_ends [OF v]
  let ?s = "k @ CHR ''='' # v @ rest"
  have drop: "dropWhile is_separator ?s = ?s" using k by (cases k) auto
  have "graphic (last (v @ rest))" using tail ends by auto
  then have trim: "trim_space (v @ rest) = v @ rest" using ends by (intro trim_space_graphic) simp_all
  have "parse_value (v @ rest) = parse_unquoted (v @ rest)"
    using ends by (cases v) (simp_all add: parse_value_def)
  then have "parse_value (v @ rest) = (v, drop 1 rest)"
    using tail parse_unquoted_token [OF v] by auto
  then have "parse_params out ?s = parse_params (out(k \<mapsto> v)) (drop 1 rest)"
    unfolding parse_params.simps [of out ?s] Let_def drop
    using k by (simp add: index_byte_append trim_space_graphic trim)
  moreover have "parse_params m (drop 1 rest) = parse_params m rest" for m
    using tail by (auto simp: parse_params_separator parse_params_space)
  ultimately show ?thesis using False by (simp add: render_item_def)
qed

lemma parse_params_items:
  assumes "\<forall>it \<in> set its. item_ok it"
  shows "parse_params out (render_items its) = foldl (\<lambda>m kv. m(fst kv \<mapsto> snd kv)) out (map snd its)"
  using assms
proof (induction its arbitrary: out rule: render_items.induct)
  case (2 it)
  then show ?case using parse_params_item [of "fst it" "fst (snd it)" "snd (snd it)" "[]" out] by simp
next
  case (3 it it' its)
  then have "parse_params out (render_items (it # it' # its)) =
      parse_params (out(fst (snd it) \<mapsto> snd (snd it))) ('', '' @ render_items (it' # its))"
    using parse_params_item [of "fst it" "fst (snd it)" "snd (snd it)" "'', '' @ render_items (it' # its)" out]
      render_items_last [of "it' # its"]
    by (simp del: fun_upd_apply)
  with 3 show ?case by (simp add: parse_params_separator del: fun_upd_apply)
qed simp

section \<open>Properties\<close>

text \<open>
  Property C32: \<open>parseDigest\<close> reads back every parameter list a client writes with quoted
  values, whatever bytes the values hold (quotes, backslashes, commas, equals signs and
  spaces included), the last occurrence of a name winning.
\<close>

theorem parseDigest_render:
  assumes "\<forall>kv \<in> set kvs. param_name (fst kv)"
  shows "parseDigest (render_params kvs) = map_of (rev kvs)"
  using assms by (simp add: parseDigest_def parse_params_render foldl_updates)

theorem parseDigest_render_witness:
  "parseDigest (render_params [(''username'', ''ad, min=''), (''qop'', ''auth'')]) =
     map_of [(''qop'', ''auth''), (''username'', ''ad, min='')]"
proof -
  have names: "\<forall>kv \<in> set [(''username'', ''ad, min=''), (''qop'', ''auth'')]. param_name (fst kv)"
    by (simp add: param_name_def graphic_def)
  show ?thesis using parseDigest_render [OF names] by simp
qed

end
