(* ===== verification/Auth.thy ===== *)
theory Auth
  imports Digest Xml
begin

text \<open>
  Package \<open>auth\<close> (\<open>internal/auth/digest.go\<close>): HTTP Digest and WS-Security UsernameToken
  authentication over one \<open>Authenticator\<close>, with its time-stamped nonces and its replay
  cache. The cache is an interface of its own (locale \<open>replay_cache\<close>): the single-use
  theorems of both schemes rest on its laws only.
\<close>

section \<open>State and library parameters\<close>

text \<open>
  The parts of the Go library that the model takes as parameters: the hash functions, the
  parser of RFC 3339 time stamps, and the XML lexer.
\<close>

record golib =
  md5 :: "string \<Rightarrow> string"
  sha1 :: "string \<Rightarrow> string"
  sha256 :: "string \<Rightarrow> string"
  hmac_sha256 :: "string \<Rightarrow> string \<Rightarrow> string"
  parse_time :: "string \<Rightarrow> time option"
  xml_tokens :: "string \<Rightarrow> xstream"

record authenticator =
  Username :: string
  Password :: string
  Realm :: string
  TTL :: duration
  secret :: string
  replay :: "string \<Rightarrow> time option"

record http_request =
  Method :: string
  RequestURI :: string
  URLPath :: string
  Authorization :: string
  Body :: string

text \<open>\<open>New\<close>; the 32 random bytes of the secret are an argument.\<close>

definition new_authenticator :: "string \<Rightarrow> string \<Rightarrow> string \<Rightarrow> string \<Rightarrow> authenticator" where
  "new_authenticator random username password realm =
     \<lparr>Username = username, Password = password, Realm = realm, TTL = 5 * minute,
      secret = random, replay = Map.empty\<rparr>"

section \<open>The replay cache\<close>

definition drop_expired :: "time \<Rightarrow> (string \<Rightarrow> time option) \<Rightarrow> string \<Rightarrow> time option" where
  "drop_expired now r k =
     (case r k of None \<Rightarrow> None | Some expiry \<Rightarrow> if now > expiry then None else Some expiry)"

definition acceptReplayKey :: "string \<Rightarrow> time \<Rightarrow> authenticator \<Rightarrow> bool \<times> authenticator" where
  "acceptReplayKey key now a =
     (let r = drop_expired now (replay a) in
      if r key \<noteq> None then (False, a\<lparr>replay := r\<rparr>)
      else (True, a\<lparr>replay := r(key \<mapsto> now + TTL a)\<rparr>))"

section \<open>Hashes and nonces\<close>

definition md5hex :: "golib \<Rightarrow> string \<Rightarrow> string" where
  "md5hex lib v = hex_encode (md5 lib v)"

definition secureEqual :: "string \<Rightarrow> string \<Rightarrow> bool" where
  "secureEqual a b \<longleftrightarrow> length a = length b \<and> list_all2 (=) a b"

definition unix_seconds :: "time \<Rightarrow> int" where "unix_seconds t = t div second"

definition nonce_mac :: "golib \<Rightarrow> authenticator \<Rightarrow> string \<Rightarrow> string" where
  "nonce_mac lib a ts = hex_encode (hmac_sha256 lib (secret a) ts)"

definition newNonce :: "golib \<Rightarrow> authenticator \<Rightarrow> time \<Rightarrow> string" where
  "newNonce lib a now =
     (let ts = itoa (unix_seconds now)
      in b64_encode RawURLEncoding (ts @ '':'' @ nonce_mac lib a ts))"

text \<open>
  \<open>time.Unix(ts, 0)\<close>: Go keeps the seconds since year 1 in an \<open>int64\<close>, which wraps for
  time stamps near the ends of the range.
\<close>

definition unix_time :: "int \<Rightarrow> time" where
  "unix_time ts = (wrap64 (ts + 62135596800) - 62135596800) * second"

definition validNonce :: "golib \<Rightarrow> authenticator \<Rightarrow> string \<Rightarrow> time \<Rightarrow> bool" where
  "validNonce lib a nonce now =
     (case b64_decode RawURLEncoding nonce of
        None \<Rightarrow> False
      | Some raw \<Rightarrow>
          (case split_byte raw CHR '':'' of
             [ts_text, mac] \<Rightarrow>
               (case parse_int ts_text of
                  NumOk ts \<Rightarrow>
                    (let t = unix_time ts in
                     if now - t > TTL a \<or> t - now > TTL a then False
                     else secureEqual (nonce_mac lib a ts_text) mac)
                | _ \<Rightarrow> False)
           | _ \<Rightarrow> False))"

section \<open>HTTP Digest\<close>

definition nul :: string where "nul = [CHR 0x00]"

definition http_expected :: "golib \<Rightarrow> authenticator \<Rightarrow> string \<Rightarrow> params \<Rightarrow> string" where
  "http_expected lib a meth p =
     (let ha1 = md5hex lib (Username a @ '':'' @ Realm a @ '':'' @ Password a);
          ha2 = md5hex lib (meth @ '':'' @ param p ''uri'')
      in if param p ''qop'' \<noteq> []
         then md5hex lib (ha1 @ '':'' @ param p ''nonce'' @ '':'' @ param p ''nc'' @ '':'' @
                param p ''cnonce'' @ '':'' @ param p ''qop'' @ '':'' @ ha2)
         else md5hex lib (ha1 @ '':'' @ param p ''nonce'' @ '':'' @ ha2))"

definition http_replay_key :: "params \<Rightarrow> string" where
  "http_replay_key p =
     ''http'' @ nul @ param p ''username'' @ nul @ param p ''nonce'' @ nul @ param p ''nc'' @ nul @
     param p ''cnonce'' @ nul @ param p ''uri''"

text \<open>
  \<open>VerifyHTTP\<close> returns the pair \<open>(ok, stale)\<close>. The clock is read twice: \<open>now1\<close> for the
  nonce, \<open>now2\<close> for the replay cache.
\<close>

definition VerifyHTTP ::
  "golib \<Rightarrow> authenticator \<Rightarrow> http_request \<Rightarrow> time \<Rightarrow> time \<Rightarrow> (bool \<times> bool) \<times> authenticator"
where
  "VerifyHTTP lib a r now1 now2 =
     (let h = trim_space (Authorization r) in
      if \<not> has_prefix (to_lower h) ''digest '' then ((False, False), a)
      else
        let p = parseDigest (drop (length ''Digest '') h) in
        if param p ''username'' \<noteq> Username a \<or> param p ''realm'' \<noteq> Realm a \<or> param p ''nonce'' = []
          \<or> param p ''uri'' = [] \<or> param p ''response'' = [] then ((False, False), a)
        else if \<not> validNonce lib a (param p ''nonce'') now1 then ((False, True), a)
        else if param p ''uri'' \<noteq> RequestURI r \<and> param p ''uri'' \<noteq> URLPath r then ((False, False), a)
        else if param p ''qop'' \<noteq> [] \<and>
          (param p ''qop'' \<noteq> ''auth'' \<or> param p ''nc'' = [] \<or> param p ''cnonce'' = [])
          then ((False, False), a)
        else if \<not> secureEqual (http_expected lib a (Method r) p) (param p ''response'')
          then ((False, False), a)
        else if param p ''qop'' \<noteq> [] then
          (case acceptReplayKey (http_replay_key p) now2 a of
             (fresh, a') \<Rightarrow> if fresh then ((True, False), a') else ((False, False), a'))
        else ((True, False), a))"

section \<open>WS-Security UsernameToken\<close>

record usernameToken =
  tok_Username :: string
  tok_Password :: string
  tok_PasswordType :: string
  tok_Nonce :: string
  tok_Created :: string

definition empty_token :: usernameToken where
  "empty_token = \<lparr>tok_Username = [], tok_Password = [], tok_PasswordType = [], tok_Nonce = [],
     tok_Created = []\<rparr>"

definition token_fields :: "string list" where
  "token_fields = [''Username'', ''Password'', ''Nonce'', ''Created'']"

definition set_token_field :: "string \<Rightarrow> attrs \<Rightarrow> string \<Rightarrow> usernameToken \<Rightarrow> usernameToken" where
  "set_token_field name as text tok =
     (if name = ''Username'' then tok\<lparr>tok_Username := text\<rparr>
      else if name = ''Password'' then
        tok\<lparr>tok_Password := text, tok_PasswordType := attr_value ''Type'' as (tok_PasswordType tok)\<rparr>
      else if name = ''Nonce'' then tok\<lparr>tok_Nonce := text\<rparr>
      else tok\<lparr>tok_Created := text\<rparr>)"

text \<open>The loop of \<open>parseUsernameToken\<close>; \<^const>\<open>None\<close> is an error return.\<close>

function parse_token_from :: "bool \<Rightarrow> usernameToken \<Rightarrow> xtoken list \<Rightarrow> usernameToken option" where
  "parse_token_from in_token tok [] = None"
| "parse_token_from in_token tok (StartElement n as # ts) =
     (if n = ''UsernameToken'' then parse_token_from True tok ts
      else if \<not> in_token then parse_token_from in_token tok ts
      else if n \<in> set token_fields then
        (case decode_text 0 [] ts of
           None \<Rightarrow> None
         | Some (text, rest) \<Rightarrow> parse_token_from in_token (set_token_field n as text tok) rest)
      else parse_token_from in_token tok ts)"
| "parse_token_from in_token tok (EndElement n # ts) =
     (if n = ''UsernameToken'' then Some tok else parse_token_from in_token tok ts)"
| "parse_token_from in_token tok (CharData s # ts) = parse_token_from in_token tok ts"
| "parse_token_from in_token tok (OtherToken # ts) = parse_token_from in_token tok ts"
  by pat_completeness auto
termination
  by (relation "measure (\<lambda>(b, tok, ts). length ts)") (auto dest: length_decode_text)

definition parseUsernameToken :: "xtoken list \<Rightarrow> usernameToken option" where
  "parseUsernameToken ts = parse_token_from False empty_token ts"

definition wsse_expected :: "golib \<Rightarrow> authenticator \<Rightarrow> string \<Rightarrow> string \<Rightarrow> string" where
  "wsse_expected lib a nonce created =
     b64_encode StdEncoding (sha1 lib (nonce @ created @ Password a))"

definition wsse_replay_key :: "usernameToken \<Rightarrow> string" where
  "wsse_replay_key tok = tok_Username tok @ nul @ tok_Nonce tok @ nul @ tok_Created tok"

text \<open>The checks of \<open>VerifyWSSE\<close> on a parsed token, up to the replay cache.\<close>

definition wsse_token_ok :: "golib \<Rightarrow> authenticator \<Rightarrow> usernameToken \<Rightarrow> time \<Rightarrow> bool" where
  "wsse_token_ok lib a tok now =
     (if tok_Username tok \<noteq> Username a \<or> tok_Password tok = [] \<or> tok_Nonce tok = []
        \<or> tok_Created tok = [] then False
      else if tok_PasswordType tok \<noteq> [] \<and> \<not> contains (tok_PasswordType tok) ''PasswordDigest''
        then False
      else (case parse_time lib (tok_Created tok) of
              None \<Rightarrow> False
            | Some created \<Rightarrow>
                let d = now - created in
                if d > TTL a \<or> d < - TTL a then False
                else (case b64_decode StdEncoding (tok_Nonce tok) of
                        None \<Rightarrow> False
                      | Some nonce \<Rightarrow>
                          secureEqual (wsse_expected lib a nonce (tok_Created tok))
                            (tok_Password tok))))"

definition VerifyWSSE :: "golib \<Rightarrow> authenticator \<Rightarrow> xtoken list \<Rightarrow> time \<Rightarrow> bool \<times> authenticator" where
  "VerifyWSSE lib a body now =
     (case parseUsernameToken body of
        None \<Rightarrow> (False, a)
      | Some tok \<Rightarrow>
          if \<not> wsse_token_ok lib a tok now then (False, a)
          else acceptReplayKey (wsse_replay_key tok) now a)"

section \<open>The challenge\<close>

definition challenge_value :: "golib \<Rightarrow> authenticator \<Rightarrow> bool \<Rightarrow> time \<Rightarrow> string" where
  "challenge_value lib a stale now =
     ''Digest realm='' @ go_quote (Realm a) @ '', nonce='' @ go_quote (newNonce lib a now) @
     '', algorithm=MD5, qop='' @ go_quote ''auth'' @ (if stale then '', stale=true'' else [])"

section \<open>The replay cache as an interface\<close>

text \<open>
  What the two schemes need of the cache: a key is refused exactly while it is held, an
  accepted key is held for the time to live, and a held key stays until it expires.
\<close>

locale replay_cache =
  fixes accept :: "'k \<Rightarrow> time \<Rightarrow> 's \<Rightarrow> bool \<times> 's"
    and holds :: "'s \<Rightarrow> 'k \<Rightarrow> time option"
    and ttl :: "'s \<Rightarrow> duration"
  assumes fresh_iff: "fst (accept k t s) \<longleftrightarrow> (case holds s k of None \<Rightarrow> True | Some e \<Rightarrow> t > e)"
    and holds_accepted: "fst (accept k t s) \<Longrightarrow> holds (snd (accept k t s)) k = Some (t + ttl s)"
    and holds_kept: "holds s k = Some e \<Longrightarrow> t \<le> e \<Longrightarrow> holds (snd (accept k' t s)) k = Some e"
    and ttl_kept: "ttl (snd (accept k t s)) = ttl s"
begin

lemma held_refused: "holds s k = Some e \<Longrightarrow> t \<le> e \<Longrightarrow> \<not> fst (accept k t s)"
  by (simp add: fresh_iff)

lemma accepted_not_held: "fst (accept k t s) \<Longrightarrow> holds s k = Some e \<Longrightarrow> e < t"
  by (simp add: fresh_iff)

lemma unheld_accepted: "holds s k = None \<Longrightarrow> fst (accept k t s)"
  by (simp add: fresh_iff)

end

interpretation cache: replay_cache acceptReplayKey replay TTL
  by unfold_locales (auto simp: acceptReplayKey_def drop_expired_def Let_def split: option.splits if_splits)

lemma acceptReplayKey_frame:
  "Username (snd (acceptReplayKey k t a)) = Username a"
  "Password (snd (acceptReplayKey k t a)) = Password a"
  "Realm (snd (acceptReplayKey k t a)) = Realm a"
  "TTL (snd (acceptReplayKey k t a)) = TTL a"
  "secret (snd (acceptReplayKey k t a)) = secret a"
  by (simp_all add: acceptReplayKey_def Let_def)

section \<open>Calls and runs\<close>

text \<open>
  The server calls the two verifiers one after the other under the authenticator's lock;
  a run is a list of such calls, each with its clock readings.
\<close>

datatype auth_call = HttpCall http_request time time | WsseCall "xtoken list" time

fun call_time :: "auth_call \<Rightarrow> time" where
  "call_time (HttpCall r now1 now2) = now2"
| "call_time (WsseCall body now) = now"

fun auth_step :: "golib \<Rightarrow> auth_call \<Rightarrow> authenticator \<Rightarrow> bool \<times> authenticator" where
  "auth_step lib (HttpCall r now1 now2) a =
     (case VerifyHTTP lib a r now1 now2 of ((ok, stale), a') \<Rightarrow> (ok, a'))"
| "auth_step lib (WsseCall body now) a = VerifyWSSE lib a body now"

fun auth_run :: "golib \<Rightarrow> auth_call list \<Rightarrow> authenticator \<Rightarrow> authenticator" where
  "auth_run lib [] a = a"
| "auth_run lib (c # cs) a = auth_run lib cs (snd (auth_step lib c a))"

lemma secureEqual_iff [simp]: "secureEqual a b \<longleftrightarrow> a = b"
  by (auto simp: secureEqual_def list_all2_eq dest: list_all2_lengthD)

text \<open>The parameters \<open>VerifyHTTP\<close> works on, and its checks before the replay cache.\<close>

definition http_params :: "http_request \<Rightarrow> params" where
  "http_params r = parseDigest (drop (length ''Digest '') (trim_space (Authorization r)))"

definition http_addressed :: "authenticator \<Rightarrow> http_request \<Rightarrow> bool" where
  "http_addressed a r \<longleftrightarrow>
     has_prefix (to_lower (trim_space (Authorization r))) ''digest ''
     \<and> param (http_params r) ''username'' = Username a \<and> param (http_params r) ''realm'' = Realm a
     \<and> param (http_params r) ''nonce'' \<noteq> [] \<and> param (http_params r) ''uri'' \<noteq> []
     \<and> param (http_params r) ''response'' \<noteq> []"

definition http_proved :: "golib \<Rightarrow> authenticator \<Rightarrow> http_request \<Rightarrow> bool" where
  "http_proved lib a r \<longleftrightarrow>
     param (http_params r) ''uri'' \<in> {RequestURI r, URLPath r}
     \<and> (param (http_params r) ''qop'' = [] \<or>
          param (http_params r) ''qop'' = ''auth'' \<and> param (http_params r) ''nc'' \<noteq> []
          \<and> param (http_params r) ''cnonce'' \<noteq> [])
     \<and> param (http_params r) ''response'' = http_expected lib a (Method r) (http_params r)"

lemma VerifyHTTP_eq:
  "VerifyHTTP lib a r now1 now2 =
     (if \<not> http_addressed a r then ((False, False), a)
      else if \<not> validNonce lib a (param (http_params r) ''nonce'') now1 then ((False, True), a)
      else if \<not> http_proved lib a r then ((False, False), a)
      else if param (http_params r) ''qop'' = [] then ((True, False), a)
      else ((fst (acceptReplayKey (http_replay_key (http_params r)) now2 a), False),
            snd (acceptReplayKey (http_replay_key (http_params r)) now2 a)))"
  unfolding VerifyHTTP_def Let_def http_params_def [symmetric] http_addressed_def http_proved_def
  by (auto split: prod.splits)

lemma auth_step_cache:
  "snd (auth_step lib c a) = a \<or> (\<exists>k. snd (auth_step lib c a) = snd (acceptReplayKey k (call_time c) a))"
  by (cases c) (auto simp: VerifyHTTP_eq VerifyWSSE_def split: option.splits)

lemma auth_step_frame:
  "Username (snd (auth_step lib c a)) = Username a" "Password (snd (auth_step lib c a)) = Password a"
  "Realm (snd (auth_step lib c a)) = Realm a" "TTL (snd (auth_step lib c a)) = TTL a"
  "secret (snd (auth_step lib c a)) = secret a"
  using auth_step_cache [of lib c a] acceptReplayKey_frame by auto

lemma auth_run_frame:
  "Username (auth_run lib cs a) = Username a" "Password (auth_run lib cs a) = Password a"
  "Realm (auth_run lib cs a) = Realm a" "TTL (auth_run lib cs a) = TTL a"
  "secret (auth_run lib cs a) = secret a"
  by (induction cs arbitrary: a) (simp_all add: auth_step_frame)

lemma VerifyHTTP_frame:
  "TTL (snd (VerifyHTTP lib a r s t)) = TTL a" "secret (snd (VerifyHTTP lib a r s t)) = secret a"
  by (simp_all add: VerifyHTTP_eq acceptReplayKey_frame)

lemma auth_run_holds:
  assumes "replay a k = Some e" "\<forall>c \<in> set cs. call_time c \<le> e"
  shows "replay (auth_run lib cs a) k = Some e"
  using assms
proof (induction cs arbitrary: a)
  case (Cons c cs)
  then have "replay (snd (auth_step lib c a)) k = Some e"
    using auth_step_cache [of lib c a] cache.holds_kept [of a k e "call_time c"] by auto
  with Cons show ?case by simp
qed simp

lemma validNonce_depends:
  "secret a' = secret a \<Longrightarrow> TTL a' = TTL a \<Longrightarrow> validNonce lib a' n t = validNonce lib a n t"
  by (simp add: validNonce_def nonce_mac_def Let_def split: option.split list.split num_result.split)

section \<open>Nonces\<close>

lemma colon_not_in_itoa: "CHR '':'' \<notin> set (itoa i)"
  using dec_nat_digits [of "nat i"] dec_nat_digits [of "nat (- i)"]
  by (auto simp: itoa_def is_digit_def)

lemma colon_not_in_hex: "CHR '':'' \<notin> set (hex_encode s)"
  using hex_encode_digits [of "CHR '':''" s] by (auto simp: is_hex_digit_def)

lemma unix_time_id:
  "0 \<le> ts \<Longrightarrow> ts \<le> int64_max - 62135596800 \<Longrightarrow> unix_time ts = ts * second"
  by (simp add: unix_time_def wrap64_id int64_min_def int64_max_def)

lemma validNonce_newNonce:
  assumes "secret a' = secret a" "0 \<le> issued" "unix_seconds issued \<le> int64_max - 62135596800"
  shows "validNonce lib a' (newNonce lib a issued) now \<longleftrightarrow> \<bar>now - unix_seconds issued * second\<bar> \<le> TTL a'"
proof -
  let ?ts = "unix_seconds issued"
  have ts: "0 \<le> ?ts" using assms(2) by (simp add: unix_seconds_def second_def)
  have "parse_int (itoa ?ts) = NumOk ?ts"
    using atoi_itoa [of ?ts] ts assms(3) by (simp add: atoi_def int64_min_def)
  moreover have "split_byte (itoa ?ts @ CHR '':'' # nonce_mac lib a (itoa ?ts)) CHR '':'' =
      [itoa ?ts, nonce_mac lib a (itoa ?ts)]"
    by (simp add: split_byte_append colon_not_in_itoa split_byte_none nonce_mac_def colon_not_in_hex)
  moreover have "nonce_mac lib a' = nonce_mac lib a"
    using assms(1) by (simp add: nonce_mac_def fun_eq_iff)
  ultimately show ?thesis
    using ts assms(3)
    by (auto simp: validNonce_def newNonce_def Let_def rawurl64.dec_enc unix_time_id)
qed

lemma join_split_byte: "split_byte s b = [x, y] \<Longrightarrow> s = x @ b # y"
proof (induction s arbitrary: x)
  case (Cons c s)
  show ?case
  proof (cases "c = b")
    case True
    with Cons.prems have "x = []" "split_byte s b = [y]" by auto
    moreover from this have "s = y"
      by (cases "b \<in> set s") (auto simp: split_byte_none dest!: split_list_first simp: split_byte_append)
    ultimately show ?thesis using True by simp
  next
    case False
    with Cons.prems obtain p where "split_byte s b = [p, y]" "x = c # p"
      by (auto split: list.splits)
    with Cons.IH show ?thesis by simp
  qed
qed simp

lemma validNonce_mac:
  assumes "validNonce lib a nonce now"
  shows "\<exists>ts. b64_decode RawURLEncoding nonce = Some (ts @ '':'' @ nonce_mac lib a ts)"
  using assms unfolding validNonce_def
  by (auto simp: Let_def dest!: join_split_byte split: option.splits list.splits num_result.splits if_splits)

section \<open>Single use\<close>

text \<open>
  A second acceptance of the same key lies beyond the first one's time to live.
\<close>

lemma auth_single_use:
  assumes "replay a1 k = Some (t1 + TTL a1)"
    and "\<forall>c \<in> set cs. call_time c \<le> t2"
    and "fst (acceptReplayKey k t2 (auth_run lib cs a1))"
  shows "t2 > t1 + TTL a1"
proof (rule ccontr)
  assume "\<not> t2 > t1 + TTL a1"
  with assms(1,2) have "replay (auth_run lib cs a1) k = Some (t1 + TTL a1)"
    by (intro auth_run_holds) auto
  with assms(3) \<open>\<not> t2 > t1 + TTL a1\<close> show False
    by (simp add: cache.held_refused)
qed

lemma VerifyHTTP_accepts:
  assumes "fst (VerifyHTTP lib a r now1 now2) = (True, st)"
  shows "http_addressed a r" "validNonce lib a (param (http_params r) ''nonce'') now1" "http_proved lib a r"
    "param (http_params r) ''qop'' \<noteq> [] \<Longrightarrow> fst (acceptReplayKey (http_replay_key (http_params r)) now2 a)"
    "param (http_params r) ''qop'' \<noteq> [] \<Longrightarrow>
       replay (snd (VerifyHTTP lib a r now1 now2)) (http_replay_key (http_params r)) = Some (now2 + TTL a)"
    "param (http_params r) ''qop'' = [] \<Longrightarrow> snd (VerifyHTTP lib a r now1 now2) = a"
  using assms cache.holds_accepted by (auto simp: VerifyHTTP_eq split: if_splits)

text \<open>What a later call makes of a request that was accepted once, when it has no \<open>qop\<close>.\<close>

lemma VerifyHTTP_plain_again:
  assumes "fst (VerifyHTTP lib a r now1 now2) = (True, st)" "param (http_params r) ''qop'' = []"
    and "Username a' = Username a" "Password a' = Password a" "Realm a' = Realm a"
  shows "fst (fst (VerifyHTTP lib a' r s t)) \<longleftrightarrow> validNonce lib a' (param (http_params r) ''nonce'') s"
proof -
  have "http_addressed a' r" "http_proved lib a' r"
    using VerifyHTTP_accepts(1,3) [OF assms(1)] assms(3-5)
    by (simp_all add: http_addressed_def http_proved_def http_expected_def)
  then show ?thesis using assms(2) by (simp add: VerifyHTTP_eq)
qed

lemma VerifyWSSE_accepts:
  assumes "fst (VerifyWSSE lib a body now)"
  obtains tok where "parseUsernameToken body = Some tok" "wsse_token_ok lib a tok now"
    "fst (acceptReplayKey (wsse_replay_key tok) now a)"
    "replay (snd (VerifyWSSE lib a body now)) (wsse_replay_key tok) = Some (now + TTL a)"
  using assms cache.holds_accepted by (auto simp: VerifyWSSE_def split: option.splits if_splits)

lemma wsse_token_ok_created:
  assumes "wsse_token_ok lib a tok now"
  obtains created where "parse_time lib (tok_Created tok) = Some created" "\<bar>now - created\<bar> \<le> TTL a"
  using assms by (auto simp: wsse_token_ok_def Let_def split: if_splits option.splits)

section \<open>What a client answers\<close>

text \<open>
  The answer of RFC 2617 with \<open>qop=auth\<close>, written by a client that knows the password: the
  parameters in the order of the RFC's example, with \<open>qop\<close> and \<open>nc\<close> as bare tokens when \<open>bare\<close>,
  as the RFC prescribes, and quoted otherwise, as some clients do. The path of the request may be
  shorter than its URI by a query.
\<close>

definition client_items ::
  "golib \<Rightarrow> authenticator \<Rightarrow> bool \<Rightarrow> string \<Rightarrow> string \<Rightarrow> string \<Rightarrow> string \<Rightarrow> string \<Rightarrow> digest_item list"
where
  "client_items lib a bare meth nonce uri nc cnonce =
     [(True, ''username'', Username a), (True, ''realm'', Realm a), (True, ''nonce'', nonce), (True, ''uri'', uri),
      (\<not> bare, ''qop'', ''auth''), (\<not> bare, ''nc'', nc), (True, ''cnonce'', cnonce),
      (True, ''response'',
        md5hex lib (md5hex lib (Username a @ '':'' @ Realm a @ '':'' @ Password a) @ '':'' @ nonce @
          '':'' @ nc @ '':'' @ cnonce @ '':'' @ ''auth'' @ '':'' @ md5hex lib (meth @ '':'' @ uri)))]"

definition client_request ::
  "golib \<Rightarrow> authenticator \<Rightarrow> bool \<Rightarrow> string \<Rightarrow> string \<Rightarrow> string \<Rightarrow> string \<Rightarrow> string \<Rightarrow> string \<Rightarrow> string \<Rightarrow> http_request"
where
  "client_request lib a bare meth nonce uri path nc cnonce body =
     \<lparr>Method = meth, RequestURI = uri, URLPath = path,
      Authorization = ''Digest '' @ render_items (client_items lib a bare meth nonce uri nc cnonce),
      Body = body\<rparr>"

lemma client_names: "token_value nc \<Longrightarrow> \<forall>it \<in> set (client_items lib a bare meth nonce uri nc cnonce). item_ok it"
  by (simp add: client_items_def item_ok_def param_name_def token_value_def graphic_def)

lemma client_header:
  assumes "token_value nc"
  shows "trim_space (''Digest '' @ render_items (client_items lib a bare meth nonce uri nc cnonce)) =
     ''Digest '' @ render_items (client_items lib a bare meth nonce uri nc cnonce)"
proof -
  have "client_items lib a bare meth nonce uri nc cnonce \<noteq> []" by (simp add: client_items_def)
  from render_items_last [OF this client_names [OF assms]]
  show ?thesis by (intro trim_space_graphic) (simp_all add: graphic_def [of "CHR ''D''"])
qed

lemma http_params_client:
  assumes "token_value nc"
  shows "http_params (client_request lib a bare meth nonce uri path nc cnonce body) =
     map_of (rev (map snd (client_items lib a bare meth nonce uri nc cnonce)))"
  using parse_params_items [OF client_names [OF assms], of Map.empty lib a bare meth nonce uri cnonce]
    client_header [OF assms, of lib a bare meth nonce uri cnonce]
  by (simp add: http_params_def client_request_def parseDigest_def foldl_updates)

lemma param_client:
  assumes "p = map_of (rev (map snd (client_items lib a bare meth nonce uri nc cnonce)))"
  shows "param p ''username'' = Username a" "param p ''realm'' = Realm a" "param p ''nonce'' = nonce"
    "param p ''uri'' = uri" "param p ''qop'' = ''auth''" "param p ''nc'' = nc"
    "param p ''cnonce'' = cnonce" "param p ''response'' = http_expected lib a meth p"
  unfolding assms by (simp_all add: client_items_def param_def http_expected_def Let_def)

lemma validNonce_nonempty: "validNonce lib a nonce now \<Longrightarrow> nonce \<noteq> []"
  by (auto simp: validNonce_def b64_decode_def)

lemma digest_lower: "has_prefix (to_lower (''Digest '' @ s)) ''digest ''"
proof -
  have "map to_lower_char ''Digest '' = ''digest ''" by code_simp
  then show ?thesis by (simp add: has_prefix_def)
qed

lemma client_accepted:
  assumes "\<And>x. md5 lib x \<noteq> []" "validNonce lib a nonce now1" "uri \<noteq> []" "token_value nc" "cnonce \<noteq> []"
    and "r = client_request lib a bare meth nonce uri path nc cnonce body"
  shows "VerifyHTTP lib a r now1 now2 =
     ((fst (acceptReplayKey (http_replay_key (http_params r)) now2 a), False),
      snd (acceptReplayKey (http_replay_key (http_params r)) now2 a))"
proof -
  let ?p = "http_params r"
  have p: "?p = map_of (rev (map snd (client_items lib a bare meth nonce uri nc cnonce)))"
    by (simp add: assms(6) http_params_client [OF assms(4)])
  have header: "Authorization r = ''Digest '' @ render_items (client_items lib a bare meth nonce uri nc cnonce)"
    unfolding assms(6) client_request_def by (simp only: http_request.simps)
  have line: "Method r = meth" "RequestURI r = uri"
    using assms(6) by (simp_all add: client_request_def)
  have "hex_encode x \<noteq> []" if "x \<noteq> []" for x using that by (cases x) auto
  then have "http_expected lib a meth ?p \<noteq> []"
    using assms(1) by (simp add: http_expected_def Let_def md5hex_def)
  moreover have "has_prefix (to_lower (trim_space (Authorization r))) ''digest ''"
    unfolding header client_header [OF assms(4)] by (rule digest_lower)
  ultimately have "http_addressed a r"
    using assms(2,3) param_client [OF p] by (simp add: http_addressed_def validNonce_nonempty)
  moreover have "http_proved lib a r"
    using assms(5) token_value_ends [OF assms(4)] line param_client [OF p] by (simp add: http_proved_def)
  ultimately show ?thesis
    using assms(2) param_client [OF p] by (simp add: VerifyHTTP_eq)
qed

section \<open>A concrete instance\<close>

text \<open>
  A library and an authenticator for the examples: fixed digests, and three time stamps.
\<close>

definition example_lib :: golib where
  "example_lib = \<lparr>md5 = (\<lambda>_. ''m''), sha1 = (\<lambda>_. ''s''), sha256 = (\<lambda>_. replicate 32 CHR ''h''),
     hmac_sha256 = (\<lambda>_ _. ''k''),
     parse_time = (\<lambda>s. if s = ''T0'' then Some 0 else if s = ''T4'' then Some (4 * minute) else None),
     xml_tokens = (\<lambda>_. ([], AtEOF))\<rparr>"

definition example_auth :: authenticator where
  "example_auth = new_authenticator ''secret'' ''admin'' ''a-long-password'' ''realm''"

definition example_token :: "string \<Rightarrow> string \<Rightarrow> xtoken list" where
  "example_token nonce created =
     [StartElement ''UsernameToken'' [], StartElement ''Username'' [], CharData ''admin'',
      EndElement ''Username'', StartElement ''Password'' [], CharData (b64_encode StdEncoding ''s''), EndElement ''Password'',
      StartElement ''Nonce'' [], CharData nonce, EndElement ''Nonce'', StartElement ''Created'' [],
      CharData created, EndElement ''Created'', EndElement ''UsernameToken'']"

lemma example_auth_simps [simp]:
  "Username example_auth = ''admin''" "Password example_auth = ''a-long-password''"
  "Realm example_auth = ''realm''" "TTL example_auth = 300000000000"
  "secret example_auth = ''secret''" "replay example_auth = Map.empty"
  by (simp_all add: example_auth_def new_authenticator_def minute_def second_def)

lemma example_token_parse [simp]:
  "parseUsernameToken (example_token nonce created) =
     Some \<lparr>tok_Username = ''admin'', tok_Password = b64_encode StdEncoding ''s'', tok_PasswordType = [], tok_Nonce = nonce,
       tok_Created = created\<rparr>"
  by (simp add: parseUsernameToken_def example_token_def empty_token_def token_fields_def set_token_field_def)

lemma example_sha1: "wsse_expected example_lib a nonce created = b64_encode StdEncoding ''s''"
  by (simp add: wsse_expected_def example_lib_def)

lemma b64_encode_s: "b64_encode StdEncoding ''s'' \<noteq> []"
  by (simp add: b64_encode_def)

lemma b64_val_A: "b64_val StdEncoding CHR ''A'' = Some 0"
  by (simp add: b64_val_def StdEncoding_def)

lemma example_nonce: "b64_decode StdEncoding ''AAAA'' = Some (map char_of [0, 0, 0 :: nat])"
  by (simp add: b64_decode_def is_newline_def b64_val_A)

lemma example_nonce_split: "b64_decode StdEncoding (''AA'' @ CHR 0x0A # ''AA'') = Some (map char_of [0, 0, 0 :: nat])"
  unfolding b64_decode_newline [of "CHR 0x0A", unfolded is_newline_def, simplified]
  using example_nonce by simp

lemma example_parse_time [simp]:
  "parse_time example_lib ''T0'' = Some 0" "parse_time example_lib ''T4'' = Some 240000000000"
  by (simp_all add: example_lib_def minute_def second_def)

lemma example_token_ok:
  assumes "b64_decode StdEncoding nonce = Some bytes" "nonce \<noteq> []" "created \<noteq> []"
    and "parse_time example_lib created = Some t" "\<bar>now - t\<bar> \<le> 300000000000"
  shows "wsse_token_ok example_lib (example_auth\<lparr>replay := r\<rparr>) \<lparr>tok_Username = ''admin'',
     tok_Password = b64_encode StdEncoding ''s'', tok_PasswordType = [], tok_Nonce = nonce, tok_Created = created\<rparr> now"
  using assms by (auto simp: wsse_token_ok_def example_sha1 b64_encode_s Let_def)

section \<open>Properties\<close>

text \<open>
  A nonce of \<open>newNonce\<close> is accepted by \<open>validNonce\<close> exactly while the clock is
  within the time to live of the second it was issued in, by every authenticator with the
  same secret.
\<close>

theorem nonce_lifetime:
  assumes "secret a' = secret a" "0 \<le> issued" "unix_seconds issued \<le> int64_max - 62135596800"
  shows "validNonce lib a' (newNonce lib a issued) now \<longleftrightarrow> \<bar>now - unix_seconds issued * second\<bar> \<le> TTL a'"
  using assms by (rule validNonce_newNonce)

theorem nonce_lifetime_witness:
  "validNonce example_lib example_auth (newNonce example_lib example_auth 5000000000) 304000000000
   \<and> \<not> validNonce example_lib example_auth (newNonce example_lib example_auth 5000000000) 306000000000"
  using nonce_lifetime [of example_auth example_auth 5000000000 example_lib]
  by (simp add: unix_seconds_def second_def int64_max_def)

text \<open>
  A nonce that \<open>validNonce\<close> accepts is one the server made: its base64 text
  decodes to a time stamp followed by the server's own HMAC of that time stamp.
\<close>

theorem nonce_carries_mac:
  assumes "validNonce lib a nonce now"
  shows "\<exists>ts. b64_decode RawURLEncoding nonce = Some (ts @ '':'' @ nonce_mac lib a ts)"
  using assms by (rule validNonce_mac)

theorem nonce_carries_mac_witness:
  "\<exists>ts. b64_decode RawURLEncoding (newNonce example_lib example_auth 0) =
     Some (ts @ '':'' @ nonce_mac example_lib example_auth ts)"
  by (rule nonce_carries_mac [of _ _ _ 0])
    (simp add: validNonce_newNonce unix_seconds_def int64_max_def)

text \<open>
  Property C28: a client that knows the password and answers a challenge of this server within the
  time to live is accepted at the first use of that answer, and its answer is then held in the replay
  cache. This holds whether the client sends \<open>qop\<close> and \<open>nc\<close> as bare tokens, as RFC 2617 prescribes,
  or quoted, and whether or not the URI has a query.
\<close>

theorem digest_answer_accepted:
  assumes "\<And>x. md5 lib x \<noteq> []" "nonce = newNonce lib a issued" "0 \<le> issued"
    and "unix_seconds issued \<le> int64_max - 62135596800" "\<bar>now1 - unix_seconds issued * second\<bar> \<le> TTL a"
    and "uri \<noteq> []" "token_value nc" "cnonce \<noteq> []"
    and "r = client_request lib a bare meth nonce uri path nc cnonce body"
    and "replay a (''http'' @ nul @ Username a @ nul @ nonce @ nul @ nc @ nul @ cnonce @ nul @ uri) = None"
  shows "fst (VerifyHTTP lib a r now1 now2) = (True, False)
    \<and> replay (snd (VerifyHTTP lib a r now1 now2))
        (''http'' @ nul @ Username a @ nul @ nonce @ nul @ nc @ nul @ cnonce @ nul @ uri) = Some (now2 + TTL a)"
proof -
  have "validNonce lib a nonce now1"
    unfolding assms(2) using assms(3-5) by (simp add: validNonce_newNonce)
  note accepted = client_accepted [OF assms(1) this assms(6-9), of now2]
  have key: "http_replay_key (http_params r) = ''http'' @ nul @ Username a @ nul @ nonce @ nul @ nc @ nul @ cnonce @ nul @ uri"
    using param_client [OF http_params_client [OF assms(7)]] by (simp add: http_replay_key_def assms(9))
  have "fst (acceptReplayKey (http_replay_key (http_params r)) now2 a)"
    unfolding key using assms(10) by (rule cache.unheld_accepted)
  with cache.holds_accepted [OF this] accepted show ?thesis by (simp add: key)
qed

definition example_request :: http_request where
  "example_request = client_request example_lib example_auth True ''POST''
     (newNonce example_lib example_auth 0) ''/onvif/device_service'' ''/onvif/device_service'' ''00000001'' ''c'' []"

lemma example_nc: "token_value ''00000001''"
  by (simp add: token_value_def graphic_def)

lemma example_md5: "md5 example_lib x \<noteq> []"
  by (simp add: example_lib_def)

theorem digest_answer_accepted_witness:
  "fst (VerifyHTTP example_lib example_auth example_request 1000 2000) = (True, False)"
  by (rule digest_answer_accepted [THEN conjunct1, OF example_md5 refl _ _ _ _ example_nc _ example_request_def])
    (simp_all add: unix_seconds_def int64_max_def example_auth_def new_authenticator_def duration_defs)


lemma example_accepted:
  "VerifyHTTP example_lib example_auth example_request 1000 2000 =
     ((True, False), example_auth\<lparr>replay :=
        [http_replay_key (http_params example_request) \<mapsto> 300000002000]\<rparr>)"
proof -
  have "validNonce example_lib example_auth (newNonce example_lib example_auth 0) 1000"
    by (simp add: validNonce_newNonce unix_seconds_def int64_max_def)
  note client_accepted [OF example_md5 this _ example_nc _ example_request_def, of 2000]
  then show ?thesis
    by (simp add: acceptReplayKey_def drop_expired_def Let_def fun_eq_iff)
qed

lemma example_params:
  "param (http_params example_request) ''qop'' = ''auth''"
  "param (http_params example_request) ''nonce'' = newNonce example_lib example_auth 0"
  using param_client [OF http_params_client [OF example_nc]] by (simp_all add: example_request_def)


text \<open>
  Property C1: an HTTP Digest answer with \<open>qop\<close> is accepted once. After it was accepted, and
  after any number of other calls, the same header is refused again, whether the replay
  cache still holds it or its nonce has run out. The only room is between the two clock
  readings of the second call, which must be closer together than the age the nonce had
  when it was first used. An answer without \<open>qop\<close> is not protected: the code does not enter it into
  the cache, and the same request is accepted again for as long as its nonce lives.
\<close>

theorem digest_answer_single_use:
  assumes first: "fst (VerifyHTTP lib a r1 s1 t1) = (True, st)"
    and nonce: "param (http_params r1) ''nonce'' = newNonce lib a issued" "0 \<le> issued"
      "unix_seconds issued \<le> int64_max - 62135596800"
    and later: "\<forall>c \<in> set cs. call_time c \<le> t2"
    and clock: "t2 - s2 \<le> t1 - unix_seconds issued * second"
    and same: "http_params r2 = http_params r1"
    and a2: "a2 = auth_run lib cs (snd (VerifyHTTP lib a r1 s1 t1))"
  shows "if param (http_params r1) ''qop'' \<noteq> [] then \<not> fst (fst (VerifyHTTP lib a2 r2 s2 t2))
    else fst (fst (VerifyHTTP lib a2 r1 s2 t2)) \<longleftrightarrow> \<bar>s2 - unix_seconds issued * second\<bar> \<le> TTL a"
proof (cases "param (http_params r1) ''qop'' = []")
  case True
  then have a1: "snd (VerifyHTTP lib a r1 s1 t1) = a" using VerifyHTTP_accepts(6) [OF first] by simp
  have "fst (fst (VerifyHTTP lib a2 r1 s2 t2)) \<longleftrightarrow> validNonce lib a2 (param (http_params r1) ''nonce'') s2"
    by (rule VerifyHTTP_plain_again [OF first True]) (simp_all add: a2 a1 auth_run_frame)
  then show ?thesis using True nonce by (simp add: validNonce_newNonce a2 a1 auth_run_frame)
next
  case qop: False
  let ?a1 = "snd (VerifyHTTP lib a r1 s1 t1)"
  let ?k = "http_replay_key (http_params r1)"
  have frame: "TTL ?a1 = TTL a" "secret a2 = secret a" "TTL a2 = TTL a"
    by (simp_all add: a2 auth_run_frame VerifyHTTP_frame)
  have "\<not> fst (fst (VerifyHTTP lib a2 r2 s2 t2))"
  proof
    assume "fst (fst (VerifyHTTP lib a2 r2 s2 t2))"
    then obtain st2 where second: "fst (VerifyHTTP lib a2 r2 s2 t2) = (True, st2)"
      by (cases "fst (VerifyHTTP lib a2 r2 s2 t2)") simp
    have "validNonce lib a2 (newNonce lib a issued) s2"
      using VerifyHTTP_accepts(2) [OF second] same nonce(1) by simp
    then have "s2 - unix_seconds issued * second \<le> TTL a"
      using nonce(2,3) frame by (simp add: validNonce_newNonce)
    moreover have "replay ?a1 ?k = Some (t1 + TTL ?a1)"
      using VerifyHTTP_accepts(5) [OF first qop] frame by simp
    then have "t2 > t1 + TTL ?a1"
      using later VerifyHTTP_accepts(4) [OF second] same qop unfolding a2 by (intro auth_single_use) simp_all
    ultimately show False using clock frame by simp
  qed
  with qop show ?thesis by simp
qed

theorem digest_answer_single_use_witness:
  "\<not> fst (fst (VerifyHTTP example_lib
     (auth_run example_lib [WsseCall [] 5000] (snd (VerifyHTTP example_lib example_auth example_request 1000 2000)))
     example_request 6000 6000))"
  using digest_answer_single_use [of example_lib example_auth example_request 1000 2000 False 0 "[WsseCall [] 5000]" 6000 6000
      example_request, OF _ _ _ _ _ _ refl refl]
  by (simp add: example_accepted unix_seconds_def int64_max_def example_params)

text \<open>
  Property C29: a UsernameToken whose \<open>Created\<close> is not in the future is accepted once: the
  same user name, nonce text and time stamp are refused at every later call, before and
  after the replay cache forgets them.
\<close>

theorem wsse_token_single_use:
  assumes first: "fst (VerifyWSSE lib a body t1)"
    and tok: "parseUsernameToken body = Some tok" "parse_time lib (tok_Created tok) = Some created"
    and past: "created \<le> t1"
    and later: "\<forall>c \<in> set cs. call_time c \<le> t2" "t1 \<le> t2"
    and again: "parseUsernameToken body' = Some tok'" "wsse_replay_key tok' = wsse_replay_key tok"
      "tok_Created tok' = tok_Created tok"
  shows "\<not> fst (VerifyWSSE lib (auth_run lib cs (snd (VerifyWSSE lib a body t1))) body' t2)"
proof
  let ?a1 = "snd (VerifyWSSE lib a body t1)"
  let ?a2 = "auth_run lib cs ?a1"
  have frame: "TTL ?a1 = TTL a" "TTL ?a2 = TTL a"
    using auth_step_frame(4) [of lib "WsseCall body t1" a] by (simp_all add: auth_run_frame)
  assume "fst (VerifyWSSE lib ?a2 body' t2)"
  then obtain created': "wsse_token_ok lib ?a2 tok' t2"
    and fresh: "fst (acceptReplayKey (wsse_replay_key tok) t2 ?a2)"
    using again(1,2) by (elim VerifyWSSE_accepts) auto
  then have "\<bar>t2 - created\<bar> \<le> TTL a"
    using tok(2) again(3) frame by (elim wsse_token_ok_created) simp
  moreover have "replay ?a1 (wsse_replay_key tok) = Some (t1 + TTL ?a1)"
    using first tok(1) frame by (elim VerifyWSSE_accepts) simp
  then have "t2 > t1 + TTL ?a1"
    using later(1) fresh by (rule auth_single_use)
  ultimately show False using past frame by simp
qed

lemma example_wsse:
  assumes "b64_decode StdEncoding nonce = Some bytes" "nonce \<noteq> []" "created \<noteq> []"
    and "parse_time example_lib created = Some t" "\<bar>now - t\<bar> \<le> 300000000000"
  shows "VerifyWSSE example_lib example_auth (example_token nonce created) now =
    acceptReplayKey (''admin'' @ nul @ nonce @ nul @ created) now example_auth"
proof -
  have "example_auth\<lparr>replay := Map.empty\<rparr> = example_auth"
    by (simp add: example_auth_def new_authenticator_def)
  with example_token_ok [OF assms, of Map.empty] show ?thesis
    by (simp add: VerifyWSSE_def wsse_replay_key_def)
qed

lemma example_auth_replay: "replay example_auth = Map.empty"
  by (simp add: example_auth_def new_authenticator_def)

lemma example_first:
  assumes "created \<in> {''T0'', ''T4''}" "\<bar>now - the (parse_time example_lib created)\<bar> \<le> 300000000000"
  shows "fst (VerifyWSSE example_lib example_auth (example_token ''AAAA'' created) now)"
  using assms
  by (auto simp: example_wsse [OF example_nonce] cache.unheld_accepted example_auth_replay)

theorem wsse_token_single_use_witness:
  "\<not> fst (VerifyWSSE example_lib
     (auth_run example_lib [WsseCall [] 2000]
        (snd (VerifyWSSE example_lib example_auth (example_token ''AAAA'' ''T0'') 1000)))
     (example_token ''AAAA'' ''T0'') 3000)"
proof (rule wsse_token_single_use [where created = 0])
  show "fst (VerifyWSSE example_lib example_auth (example_token ''AAAA'' ''T0'') 1000)"
    by (rule example_first) simp_all
qed (rule example_token_parse | simp)+

text \<open>
  Property C36: a UsernameToken whose \<open>Created\<close> lies in the future can be used twice. The
  cache forgets it one time to live after its use, but its time stamp stays acceptable for
  one time to live after \<open>Created\<close>; in between, the recorded request is accepted again.
\<close>

theorem wsse_future_token_replayable:
  assumes "fst (VerifyWSSE lib a body t1)"
    and "parseUsernameToken body = Some tok" "parse_time lib (tok_Created tok) = Some created"
    and "t1 + TTL a < t2" "t2 \<le> created + TTL a" "created \<le> t2 + TTL a"
  shows "fst (VerifyWSSE lib (snd (VerifyWSSE lib a body t1)) body t2)"
proof -
  let ?a1 = "snd (VerifyWSSE lib a body t1)"
  have frame: "TTL ?a1 = TTL a" "Username ?a1 = Username a" "Password ?a1 = Password a"
    using auth_step_frame [of lib "WsseCall body t1" a] by simp_all
  obtain ok: "wsse_token_ok lib a tok t1"
    and held: "replay ?a1 (wsse_replay_key tok) = Some (t1 + TTL a)"
    using assms(1,2) by (elim VerifyWSSE_accepts) auto
  from ok have "wsse_token_ok lib ?a1 tok t2"
    using assms(3,5,6)
    by (auto simp: wsse_token_ok_def wsse_expected_def frame Let_def split: if_splits option.splits)
  moreover have "fst (acceptReplayKey (wsse_replay_key tok) t2 ?a1)"
    using held assms(4) by (simp add: cache.fresh_iff)
  ultimately show ?thesis using assms(2) by (simp add: VerifyWSSE_def)
qed

theorem wsse_future_token_replayable_witness:
  "fst (VerifyWSSE example_lib example_auth (example_token ''AAAA'' ''T4'') 0) \<and>
   fst (VerifyWSSE example_lib
     (snd (VerifyWSSE example_lib example_auth (example_token ''AAAA'' ''T4'') 0))
     (example_token ''AAAA'' ''T4'') 400000000000)"
proof -
  have first: "fst (VerifyWSSE example_lib example_auth (example_token ''AAAA'' ''T4'') 0)"
    by (rule example_first) simp_all
  show ?thesis
    using first wsse_future_token_replayable [OF first example_token_parse] by simp
qed

text \<open>
  The replay key is built from the text of the nonce, and the base64 decoder
  ignores line breaks, so a recorded token with a line break inserted into its nonce
  passes as a new one, at the same moment and with the same digest.
\<close>

theorem wsse_newline_replayable:
  assumes "fst (VerifyWSSE lib a body t)"
    and "parseUsernameToken body = Some tok" "tok_Nonce tok = u @ v" "is_newline c"
    and "parseUsernameToken body' = Some (tok\<lparr>tok_Nonce := u @ c # v\<rparr>)"
    and "replay (snd (VerifyWSSE lib a body t)) (wsse_replay_key (tok\<lparr>tok_Nonce := u @ c # v\<rparr>)) = None"
  shows "fst (VerifyWSSE lib (snd (VerifyWSSE lib a body t)) body' t)"
proof -
  let ?a1 = "snd (VerifyWSSE lib a body t)"
  have frame: "TTL ?a1 = TTL a" "Username ?a1 = Username a" "Password ?a1 = Password a"
    using auth_step_frame [of lib "WsseCall body t" a] by simp_all
  obtain ok: "wsse_token_ok lib a tok t" using assms(1,2) by (elim VerifyWSSE_accepts) auto
  then have "wsse_token_ok lib ?a1 (tok\<lparr>tok_Nonce := u @ c # v\<rparr>) t"
    using assms(3,4)
    by (auto simp: wsse_token_ok_def wsse_expected_def frame Let_def b64_decode_newline
        split: if_splits option.splits)
  with assms(5,6) show ?thesis by (simp add: VerifyWSSE_def cache.unheld_accepted)
qed

theorem wsse_newline_replayable_witness:
  "fst (VerifyWSSE example_lib
     (snd (VerifyWSSE example_lib example_auth (example_token ''AAAA'' ''T0'') 0))
     (example_token (''AA'' @ CHR 0x0A # ''AA'') ''T0'') 0)"
proof (rule wsse_newline_replayable [where u = "''AA''" and v = "''AA''" and c = "CHR 0x0A"])
  show "fst (VerifyWSSE example_lib example_auth (example_token ''AAAA'' ''T0'') 0)"
    by (rule example_first) simp_all
  show "replay (snd (VerifyWSSE example_lib example_auth (example_token ''AAAA'' ''T0'') 0))
      (wsse_replay_key (\<lparr>tok_Username = ''admin'', tok_Password = b64_encode StdEncoding ''s'',
         tok_PasswordType = [], tok_Nonce = ''AAAA'', tok_Created = ''T0''\<rparr>
         \<lparr>tok_Nonce := ''AA'' @ CHR 0x0A # ''AA''\<rparr>)) = None"
    by (simp add: example_wsse [OF example_nonce] example_auth_replay acceptReplayKey_def drop_expired_def wsse_replay_key_def Let_def)
qed (simp_all add: is_newline_def)

end
