(* ===== verification/Durations.thy ===== *)
theory Durations
  imports Codec
begin

text \<open>
  The durations of the event service (\<open>internal/onvif/events.go\<close>): \<open>parseISODuration\<close> with
  its regular expression, its \<open>int64\<close> sums and its \<open>float64\<close> seconds, and the three
  readers of request values built on it, \<open>parsePullTimeout\<close>, \<open>parseMessageLimit\<close> and
  \<open>parseTerminationDuration\<close>.
\<close>

definition maxEventTTL :: duration where "maxEventTTL = hour"
definition defaultEventTTL :: duration where "defaultEventTTL = minute"
definition maxPullTimeout :: duration where "maxPullTimeout = 60 * second"
definition defaultPullWait :: duration where "defaultPullWait = 5 * second"
definition defaultPullLimit :: int where "defaultPullLimit = 10"

section \<open>The regular expression\<close>

text \<open>
  \<open>(?:(\d+)H)?\<close> and its like: the digits of the group and the rest, no digits when the
  group does not match. Digits are followed by at most one of the unit letters, so the
  groups need no backtracking.
\<close>

definition unit_group :: "char \<Rightarrow> string \<Rightarrow> string \<times> string" where
  "unit_group u s =
     (let ds = takeWhile is_digit s; rest = dropWhile is_digit s
      in if ds \<noteq> [] \<and> has_prefix rest [u] then (ds, drop 1 rest) else ([], s))"

text \<open>\<open>(?:(\d+(?:\.\d+)?)S)?\<close>: the whole digits, the fraction digits and the rest.\<close>

definition seconds_group :: "string \<Rightarrow> (string \<times> string) \<times> string" where
  "seconds_group s =
     (let ds = takeWhile is_digit s; rest = dropWhile is_digit s in
      if ds = [] then (([], []), s)
      else if has_prefix rest ''S'' then ((ds, []), drop 1 rest)
      else if has_prefix rest ''.'' then
        (let fs = takeWhile is_digit (drop 1 rest); rest' = dropWhile is_digit (drop 1 rest)
         in if fs \<noteq> [] \<and> has_prefix rest' ''S'' then ((ds, fs), drop 1 rest') else (([], []), s))
      else (([], []), s))"

definition isoDurationRE :: "string \<Rightarrow> (string \<times> string \<times> string \<times> string) option" where
  "isoDurationRE s =
     (if \<not> has_prefix s ''PT'' then None
      else
        (case unit_group CHR ''H'' (drop 2 s) of
           (h, s1) \<Rightarrow>
             (case unit_group CHR ''M'' s1 of
                (m, s2) \<Rightarrow>
                  (case seconds_group s2 of
                     ((ds, fs), s3) \<Rightarrow> if s3 = [] then Some (h, m, ds, fs) else None))))"

section \<open>Floating point\<close>

text \<open>
  A non-negative \<open>float64\<close> as a fraction. Rounding scales the fraction until its integer
  part has 53 bits and rounds that to the nearest integer, to even on a tie. The exponent
  is not bounded here: what underflows in a \<open>float64\<close> is far below a nanosecond, and what
  overflows is far above every \<open>int64\<close>, so neither changes a duration.
\<close>

function scale_down :: "nat \<Rightarrow> nat \<Rightarrow> nat" where
  "scale_down p q = (if q = 0 \<or> p < 2 ^ 53 * q then 0 else Suc (scale_down p (2 * q)))"
  by pat_completeness auto
termination by (relation "measure (\<lambda>(p, q). p - q)") auto

function scale_up :: "nat \<Rightarrow> nat \<Rightarrow> nat" where
  "scale_up p q = (if p = 0 \<or> 2 ^ 52 * q \<le> p then 0 else Suc (scale_up (2 * p) q))"
  by pat_completeness auto
termination by (relation "measure (\<lambda>(p, q). 2 ^ 52 * q - p)") auto

declare scale_down.simps [simp del] scale_up.simps [simp del]

definition round_half_even :: "nat \<Rightarrow> nat \<Rightarrow> nat" where
  "round_half_even n d =
     (let m = n div d; r = n mod d in if 2 * r > d \<or> 2 * r = d \<and> odd m then m + 1 else m)"

definition round53 :: "nat \<times> nat \<Rightarrow> nat \<times> nat" where
  "round53 f =
     (case f of (p, q) \<Rightarrow>
        let k = scale_down p q; j = scale_up p q in
        if k > 0 then (round_half_even p (q * 2 ^ k) * 2 ^ k, 1)
        else (round_half_even (p * 2 ^ j) q, 2 ^ j))"

text \<open>
  \<open>time.Duration(seconds * float64(time.Second))\<close> after \<open>strconv.ParseFloat\<close>. A product
  that no \<open>int64\<close> holds converts to a value the language leaves to the platform, the
  argument \<open>oor\<close>.
\<close>

definition parse_seconds :: "string \<Rightarrow> string \<Rightarrow> nat \<times> nat" where
  "parse_seconds ds fs = round53 (digits_val (ds @ fs), 10 ^ length fs)"

definition seconds_duration :: "int \<Rightarrow> nat \<times> nat \<Rightarrow> duration" where
  "seconds_duration oor f =
     (case round53 (fst f * 1000000000, snd f) of
        (c, d) \<Rightarrow> if int (c div d) > int64_max then oor else int (c div d))"

section \<open>The parsers\<close>

definition parseISODuration :: "int \<Rightarrow> string \<Rightarrow> duration" where
  "parseISODuration oor value =
     (case isoDurationRE (trim_space value) of
        None \<Rightarrow> 0
      | Some (h, m, ds, fs) \<Rightarrow>
          let total = (if h \<noteq> [] then wrap64 (0 + wrap64 (num_value (atoi h) * hour)) else 0);
              total = (if m \<noteq> [] then wrap64 (total + wrap64 (num_value (atoi m) * minute)) else total)
          in if ds \<noteq> [] then wrap64 (total + seconds_duration oor (parse_seconds ds fs)) else total)"

definition parsePullTimeout :: "int \<Rightarrow> string \<Rightarrow> duration" where
  "parsePullTimeout oor v =
     (let d = parseISODuration oor v in
      if d \<le> 0 then defaultPullWait
      else if d > maxPullTimeout then maxPullTimeout
      else d)"

definition parseMessageLimit :: "string \<Rightarrow> int" where
  "parseMessageLimit v =
     (case atoi (trim_space v) of
        NumOk n \<Rightarrow> if n < 1 then defaultPullLimit else if n > 100 then 100 else n
      | _ \<Rightarrow> defaultPullLimit)"

text \<open>
  \<open>rfc3339\<close> is \<open>time.Parse\<close> with the layout \<open>time.RFC3339\<close>; \<open>time.Until\<close> saturates at the
  ends of the \<open>Duration\<close> range.
\<close>

definition time_until :: "time \<Rightarrow> time \<Rightarrow> duration" where
  "time_until t now = max int64_min (min int64_max (t - now))"

definition parseTerminationDuration ::
  "int \<Rightarrow> (string \<Rightarrow> time option) \<Rightarrow> time \<Rightarrow> string \<Rightarrow> duration \<Rightarrow> duration"
where
  "parseTerminationDuration oor rfc3339 now v fallback =
     (let v = trim_space v in
      if v = [] then fallback
      else
        let d = parseISODuration oor v in
        if d > 0 then (if d > maxEventTTL then maxEventTTL else d)
        else
          (case rfc3339 v of
             None \<Rightarrow> fallback
           | Some absolute \<Rightarrow>
               let d = time_until absolute now in
               if d > 0 then (if d > maxEventTTL then maxEventTTL else d) else fallback))"

section \<open>Whole seconds are exact\<close>

lemma scale_down_le: "p < 2 ^ 53 * q * 2 ^ a \<Longrightarrow> scale_down p q \<le> a"
proof (induction a arbitrary: q)
  case 0
  then show ?case by (subst scale_down.simps) simp
next
  case (Suc a)
  then have "scale_down p (2 * q) \<le> a" by (simp add: ac_simps)
  then show ?case by (subst scale_down.simps) simp
qed

lemma round_half_even_exact [simp]: "0 < d \<Longrightarrow> round_half_even (k * d) d = k"
  by (simp add: round_half_even_def)

lemma round53_exact:
  assumes "m < 2 ^ 53"
  shows "fst (round53 (m * 2 ^ a, 1)) = m * 2 ^ a * snd (round53 (m * 2 ^ a, 1))"
    and "0 < snd (round53 (m * 2 ^ a, 1))"
proof -
  define p k where "p = m * 2 ^ a" and "k = scale_down p 1"
  have "p < 2 ^ 53 * 1 * 2 ^ a" using assms by (simp add: p_def)
  then have "k \<le> a" unfolding k_def by (rule scale_down_le)
  then have split: "p = m * 2 ^ (a - k) * 2 ^ k" by (simp add: p_def power_add [symmetric])
  have "round_half_even p (1 * 2 ^ k) * 2 ^ k = p"
    using round_half_even_exact [of "2 ^ k" "m * 2 ^ (a - k)"] split by simp
  moreover have "round_half_even (p * 2 ^ j) 1 = p * 2 ^ j" for j
    using round_half_even_exact [of 1 "p * 2 ^ j"] by simp
  ultimately have "fst (round53 (p, 1)) = p * snd (round53 (p, 1)) \<and> 0 < snd (round53 (p, 1))"
    by (simp add: round53_def Let_def k_def del: One_nat_def)
  then show "fst (round53 (m * 2 ^ a, 1)) = m * 2 ^ a * snd (round53 (m * 2 ^ a, 1))"
    "0 < snd (round53 (m * 2 ^ a, 1))" by (simp_all add: p_def)
qed

lemma round53_nat:
  assumes "m < 2 ^ 53"
  shows "fst (round53 (m * 2 ^ a, 1)) div snd (round53 (m * 2 ^ a, 1)) = m * 2 ^ a"
  using round53_exact [OF assms, of a] by simp

lemma parse_seconds_whole:
  assumes "s < 2 ^ 53"
  shows "\<exists>j. parse_seconds (dec_nat s) [] = (s * 2 ^ j, 2 ^ j)"
proof -
  have "scale_down s 1 = 0" using assms by (subst scale_down.simps) simp
  moreover have "round_half_even (s * 2 ^ j) 1 = s * 2 ^ j" for j
    using round_half_even_exact [of 1 "s * 2 ^ j"] by simp
  ultimately have "round53 (s, 1) = (s * 2 ^ scale_up s 1, 2 ^ scale_up s 1)"
    by (simp add: round53_def Let_def del: One_nat_def)
  then show ?thesis by (simp add: parse_seconds_def)
qed

lemma round_half_even_scale: "0 < c \<Longrightarrow> round_half_even (n * c) (d * c) = round_half_even n d"
  by (simp add: round_half_even_def Let_def mod_mult_mult2 flip: mult.assoc)

lemma scale_down_scale: "0 < c \<Longrightarrow> scale_down (p * c) (q * c) = scale_down p q"
proof (induction p q rule: scale_down.induct)
  case (1 p q)
  then have "p * c < 2 ^ 53 * (q * c) \<longleftrightarrow> p < 2 ^ 53 * q" by (simp flip: mult.assoc)
  with 1 show ?case
    by (subst (1 2) scale_down.simps) (simp add: ac_simps)
qed

lemma scale_up_scale: "0 < c \<Longrightarrow> scale_up (p * c) (q * c) = scale_up p q"
proof (induction p q rule: scale_up.induct)
  case (1 p q)
  then have "2 ^ 52 * (q * c) \<le> p * c \<longleftrightarrow> 2 ^ 52 * q \<le> p" by (simp flip: mult.assoc)
  with 1 show ?case
    by (subst (1 2) scale_up.simps) (simp add: ac_simps)
qed

lemma round53_scale: "0 < c \<Longrightarrow> round53 (p * c, q * c) = round53 (p, q)"
proof -
  assume c: "0 < c"
  have "round_half_even (p * c) (q * c * 2 ^ k) = round_half_even p (q * 2 ^ k)"
    "round_half_even (p * c * 2 ^ j) (q * c) = round_half_even (p * 2 ^ j) q" for k j
    using round_half_even_scale [OF c, of p "q * 2 ^ k"] round_half_even_scale [OF c, of "p * 2 ^ j" q]
    by (simp_all only: ac_simps)
  with c show ?thesis by (simp add: round53_def scale_down_scale scale_up_scale Let_def)
qed

lemma seconds_duration_whole:
  assumes "s \<le> 4000000000"
  shows "seconds_duration oor (parse_seconds (dec_nat s) []) = int s * second"
proof -
  obtain j where j: "parse_seconds (dec_nat s) [] = (s * 2 ^ j, 2 ^ j)"
    using parse_seconds_whole [of s] assms by auto
  have "round53 (s * 2 ^ j * 1000000000, 2 ^ j) = round53 (s * 1953125 * 2 ^ 9, 1)"
    using round53_scale [of "2 ^ j" "s * 1000000000" 1] by (simp add: ac_simps)
  then have "fst (round53 (s * 2 ^ j * 1000000000, 2 ^ j)) div snd (round53 (s * 2 ^ j * 1000000000, 2 ^ j))
      = s * 1953125 * 2 ^ 9"
    using round53_nat [of "s * 1953125" 9] assms by simp
  then show ?thesis
    using assms by (simp add: j seconds_duration_def case_prod_beta int64_max_def second_def)
qed

section \<open>What a client writes\<close>

definition render_iso :: "nat \<Rightarrow> nat \<Rightarrow> nat \<Rightarrow> string" where
  "render_iso h m s = ''PT'' @ dec_nat h @ ''H'' @ dec_nat m @ ''M'' @ dec_nat s @ ''S''"

lemma span_digits [simp]:
  "\<not> is_digit c \<Longrightarrow> takeWhile is_digit (dec_nat n @ c # s) = dec_nat n"
  "\<not> is_digit c \<Longrightarrow> dropWhile is_digit (dec_nat n @ c # s) = c # s"
  using dec_nat_digits [of n] by (simp_all add: takeWhile_append2 dropWhile_append2)

lemma unit_letters [simp]: "\<not> is_digit CHR ''H''" "\<not> is_digit CHR ''M''" "\<not> is_digit CHR ''S''"
  by (simp_all add: is_digit_def)

lemma isoDurationRE_render: "isoDurationRE (render_iso h m s) = Some (dec_nat h, dec_nat m, dec_nat s, [])"
  by (simp add: isoDurationRE_def render_iso_def unit_group_def seconds_group_def has_prefix_def)

lemma render_iso_not_Nil: "render_iso h m s \<noteq> []"
  by (simp add: render_iso_def)

lemma trim_render_iso: "trim_space (render_iso h m s) = render_iso h m s"
proof (rule trim_space_graphic [OF render_iso_not_Nil])
  show "graphic (hd (render_iso h m s))" by (simp add: render_iso_def graphic_def)
  have "last (render_iso h m s) = CHR ''S''" by (simp add: render_iso_def)
  then show "graphic (last (render_iso h m s))" by (simp add: graphic_def)
qed

lemma parseISODuration_render:
  assumes "h < 2 ^ 63" "m < 2 ^ 63" "s \<le> 4000000000"
  shows "parseISODuration oor (render_iso h m s) =
     wrap64 (wrap64 (wrap64 (wrap64 (int h * hour)) + wrap64 (int m * minute)) + int s * second)"
  using assms
  by (simp add: parseISODuration_def trim_render_iso isoDurationRE_render atoi_def parse_int_dec_nat
      seconds_duration_whole)

lemma parseISODuration_small:
  assumes "(h * 60 + m) * 60 + s \<le> 4000000000"
  shows "parseISODuration oor (render_iso h m s) = int ((h * 60 + m) * 60 + s) * second"
proof -
  have "wrap64 (int h * hour) = int h * hour" "wrap64 (int m * minute) = int m * minute"
    "wrap64 (int h * hour + int m * minute) = int h * hour + int m * minute"
    "wrap64 (int h * hour + int m * minute + int s * second) = int h * hour + int m * minute + int s * second"
    using assms by (intro wrap64_id; simp add: duration_defs int64_min_def int64_max_def)+
  moreover have "h < 2 ^ 63" "m < 2 ^ 63" "s \<le> 4000000000" using assms by simp_all
  ultimately show ?thesis
    by (simp add: parseISODuration_render) (simp add: duration_defs algebra_simps)
qed

section \<open>Properties\<close>

text \<open>
  Property C35: a duration written as whole hours, minutes and seconds is read exactly, up
  to 4000000000 seconds (126 years): no wrap-around and no rounding of the \<open>float64\<close>.
\<close>

theorem iso_duration_exact:
  assumes "(h * 60 + m) * 60 + s \<le> 4000000000"
  shows "parseISODuration oor (render_iso h m s) = int ((h * 60 + m) * 60 + s) * second"
  using assms by (rule parseISODuration_small)

theorem iso_duration_exact_witness:
  "parseISODuration 0 (render_iso 1 30 7) = 5407 * second"
  using iso_duration_exact [of 1 30 7 0] by simp

text \<open>
  Property C34: whatever text a client sends, a pull waits at most a minute and returns at
  most a hundred messages, and a subscription lives at most an hour; all three are positive.
\<close>

theorem event_request_bounds:
  "0 < parsePullTimeout oor v \<and> parsePullTimeout oor v \<le> 60 * second
    \<and> 1 \<le> parseMessageLimit v \<and> parseMessageLimit v \<le> 100
    \<and> 0 < parseTerminationDuration oor rfc3339 now v defaultEventTTL
    \<and> parseTerminationDuration oor rfc3339 now v defaultEventTTL \<le> 60 * minute"
  by (auto simp: parsePullTimeout_def parseMessageLimit_def parseTerminationDuration_def Let_def
      defaultPullWait_def maxPullTimeout_def defaultPullLimit_def maxEventTTL_def defaultEventTTL_def
      duration_defs split: num_result.splits option.splits)

text \<open>
  The sum of a duration wraps. Asked to wait 2562048 hours (292 years) a pull waits
  the default five seconds, not the maximum of sixty, and a subscription asked to last
  5124096 hours gets 1526 seconds, not the maximum of an hour.
\<close>

theorem iso_duration_wraps:
  "parsePullTimeout oor (render_iso 2562048 0 0) = 5 * second
    \<and> parseTerminationDuration oor rfc3339 now (render_iso 5124096 0 0) defaultEventTTL = 1526290448384"
  by (simp add: parsePullTimeout_def parseTerminationDuration_def parseISODuration_render trim_render_iso
      defaultPullWait_def maxEventTTL_def duration_defs wrap64_def Let_def render_iso_not_Nil)

end
