(* ===== verification/Events.thy ===== *)
theory Events
  imports Durations "HOL-Library.AList" "HOL-Library.Sublist"
begin

text \<open>
  The event broker of \<open>internal/onvif/events.go\<close>: pull-point subscriptions with a life
  time, a bounded queue each, and a wake-up channel. Every operation runs under the
  broker's mutex, so it is one step on the broker; \<open>pull\<close> takes the mutex once per turn of
  its loop and waits in between, so its turns are steps and its wait is a state. The
  callback \<open>ready\<close> and every clock reading are arguments of the operation that makes them.
\<close>

definition maxPullPoints :: nat where "maxPullPoints = 32"
definition maxEventQueue :: nat where "maxEventQueue = 64"

record eventNotification =
  evt_when :: time
  evt_videoLoss :: bool
  evt_operation :: string

text \<open>\<open>sub_signal\<close> holds iff the one-place channel \<open>signal\<close> is full.\<close>

record eventSubscription =
  sub_token :: string
  sub_expires :: time
  sub_queue :: "eventNotification list"
  sub_signal :: bool

text \<open>The Go map \<open>subs\<close> is an association list with distinct keys; its order is never used.\<close>

record eventBroker =
  subs :: "(string \<times> eventSubscription) list"
  lastReady :: bool

definition newEventBroker :: "bool \<Rightarrow> eventBroker" where
  "newEventBroker ready = \<lparr>subs = [], lastReady = ready\<rparr>"

section \<open>Operations\<close>

definition cleanupLocked :: "time \<Rightarrow> eventBroker \<Rightarrow> eventBroker" where
  "cleanupLocked now b = b\<lparr>subs := filter (\<lambda>(t, s). sub_expires s > now) (subs b)\<rparr>"

definition enqueueLocked :: "eventNotification \<Rightarrow> eventSubscription \<Rightarrow> eventSubscription" where
  "enqueueLocked event s =
     (let q = (if length (sub_queue s) \<ge> maxEventQueue
               then drop (length (sub_queue s) - maxEventQueue + 1) (sub_queue s)
               else sub_queue s)
      in s\<lparr>sub_queue := q @ [event], sub_signal := True\<rparr>)"

definition enqueueAllLocked :: "eventNotification \<Rightarrow> eventBroker \<Rightarrow> eventBroker" where
  "enqueueAllLocked event b = b\<lparr>subs := map (\<lambda>(t, s). (t, enqueueLocked event s)) (subs b)\<rparr>"

text \<open>One tick of \<open>run\<close>: the clock is read for the cleanup and again for the event.\<close>

definition run_tick :: "bool \<Rightarrow> time \<Rightarrow> time \<Rightarrow> eventBroker \<Rightarrow> eventBroker" where
  "run_tick current now1 now2 b =
     (let b1 = cleanupLocked now1 b in
      if current \<noteq> lastReady b1
      then enqueueAllLocked \<lparr>evt_when = now2, evt_videoLoss = \<not> current, evt_operation = ''Changed''\<rparr>
             (b1\<lparr>lastReady := current\<rparr>)
      else b1)"

datatype create_error = TooManyPullPoints | RandomFailed

text \<open>\<open>random\<close> is what \<open>crypto/rand\<close> gives for the 16 bytes of \<open>randomEventToken\<close>.\<close>

definition randomEventToken :: "string option \<Rightarrow> string option" where
  "randomEventToken random = map_option hex_encode random"

definition create_sub ::
  "duration \<Rightarrow> string option \<Rightarrow> time \<Rightarrow> eventBroker \<Rightarrow> (create_error, eventSubscription) result \<times> eventBroker"
where
  "create_sub ttl random now b =
     (let b1 = cleanupLocked now b in
      if length (subs b1) \<ge> maxPullPoints then (Inl TooManyPullPoints, b1)
      else
        (case randomEventToken random of
           None \<Rightarrow> (Inl RandomFailed, b1)
         | Some token \<Rightarrow>
             let s = \<lparr>sub_token = token, sub_expires = now + ttl, sub_queue = [], sub_signal = False\<rparr>
             in (Inr s, b1\<lparr>subs := AList.update token s (subs b1)\<rparr>)))"

definition renew :: "string \<Rightarrow> duration \<Rightarrow> time \<Rightarrow> time \<Rightarrow> eventBroker \<Rightarrow> time option \<times> eventBroker" where
  "renew token ttl now1 now2 b =
     (let b1 = cleanupLocked now1 b in
      case map_of (subs b1) token of
        None \<Rightarrow> (None, b1)
      | Some s \<Rightarrow> (Some (now2 + ttl), b1\<lparr>subs := AList.update token (s\<lparr>sub_expires := now2 + ttl\<rparr>) (subs b1)\<rparr>))"

definition unsubscribe :: "string \<Rightarrow> eventBroker \<Rightarrow> bool \<times> eventBroker" where
  "unsubscribe token b =
     (case map_of (subs b) token of
        None \<Rightarrow> (False, b)
      | Some s \<Rightarrow> (True, b\<lparr>subs := AList.delete token (subs b)\<rparr>))"

definition synchronizationPoint ::
  "string \<Rightarrow> bool \<Rightarrow> time \<Rightarrow> time \<Rightarrow> eventBroker \<Rightarrow> bool \<times> eventBroker"
where
  "synchronizationPoint token ready now1 now2 b =
     (let b1 = cleanupLocked now1 b in
      case map_of (subs b1) token of
        None \<Rightarrow> (False, b1)
      | Some s \<Rightarrow>
          let event = \<lparr>evt_when = now2, evt_videoLoss = \<not> ready, evt_operation = ''Initialized''\<rparr>
          in (True, b1\<lparr>subs := AList.update token (enqueueLocked event s) (subs b1)\<rparr>))"

text \<open>One turn of the loop of \<open>pull\<close> under the mutex; \<open>PullWait\<close> goes on to wait.\<close>

datatype pull_result =
    PullGone
  | PullMessages "eventNotification list" time
  | PullWait time

definition pull_turn :: "string \<Rightarrow> nat \<Rightarrow> time \<Rightarrow> eventBroker \<Rightarrow> pull_result \<times> eventBroker" where
  "pull_turn token limit now b =
     (let b1 = cleanupLocked now b in
      case map_of (subs b1) token of
        None \<Rightarrow> (PullGone, b1)
      | Some s \<Rightarrow>
          if sub_queue s \<noteq> [] then
            (let limit = (if limit > length (sub_queue s) then length (sub_queue s) else limit) in
             (PullMessages (take limit (sub_queue s)) (sub_expires s),
              b1\<lparr>subs := AList.update token (s\<lparr>sub_queue := drop limit (sub_queue s)\<rparr>) (subs b1)\<rparr>))
          else (PullWait (sub_expires s), b1))"

text \<open>\<open>case <-signal\<close> of the wait: takes the token out of the channel.\<close>

definition receive_signal :: "string \<Rightarrow> eventBroker \<Rightarrow> eventBroker" where
  "receive_signal token b =
     (case map_of (subs b) token of
        None \<Rightarrow> b
      | Some s \<Rightarrow> b\<lparr>subs := AList.update token (s\<lparr>sub_signal := False\<rparr>) (subs b)\<rparr>)"

section \<open>Runs\<close>

text \<open>
  What the server's goroutines do to the broker, one atomic step each: the ticker, the
  requests, and the turns and signal receipts of pulls, in any order.
\<close>

datatype broker_op =
    Tick bool time time
  | Create duration "string option" time
  | Renew string duration time time
  | Unsubscribe string
  | Sync string bool time time
  | PullTurn string nat time
  | Receive string

fun broker_step :: "broker_op \<Rightarrow> eventBroker \<Rightarrow> eventBroker" where
  "broker_step (Tick current now1 now2) b = run_tick current now1 now2 b"
| "broker_step (Create ttl random now) b = snd (create_sub ttl random now b)"
| "broker_step (Renew token ttl now1 now2) b = snd (renew token ttl now1 now2 b)"
| "broker_step (Unsubscribe token) b = snd (unsubscribe token b)"
| "broker_step (Sync token ready now1 now2) b = snd (synchronizationPoint token ready now1 now2 b)"
| "broker_step (PullTurn token limit now) b = snd (pull_turn token limit now b)"
| "broker_step (Receive token) b = receive_signal token b"

definition broker_run :: "broker_op list \<Rightarrow> eventBroker \<Rightarrow> eventBroker" where
  "broker_run ops b = fold broker_step ops b"

lemmas broker_ops = run_tick_def create_sub_def renew_def unsubscribe_def synchronizationPoint_def
  pull_turn_def receive_signal_def enqueueAllLocked_def cleanupLocked_def Let_def

section \<open>A bounded queue that drops the oldest\<close>

definition lastn :: "nat \<Rightarrow> 'a list \<Rightarrow> 'a list" where
  "lastn n xs = drop (length xs - n) xs"

lemma length_lastn [simp]: "length (lastn n xs) = min n (length xs)"
  by (simp add: lastn_def)

lemma lastn_all [simp]: "length xs \<le> n \<Longrightarrow> lastn n xs = xs"
  by (simp add: lastn_def)

lemma lastn_snoc_lastn: "lastn n (lastn n xs @ [x]) = lastn n (xs @ [x])"
  by (cases "length xs \<le> n"; cases "n = 0") (simp_all add: lastn_def Suc_diff_le)

lemma subseq_lastn: "subseq (lastn n xs) xs"
  unfolding lastn_def by (metis append_take_drop_id list_emb_append2 subseq_order.order_refl)

text \<open>
  The interface the event topics rely on: pushing keeps the newest \<open>cap\<close> entries in order,
  and rings the bell.
\<close>

locale lossy_queue =
  fixes push :: "'e \<Rightarrow> 'q \<Rightarrow> 'q"
    and contents :: "'q \<Rightarrow> 'e list"
    and rung :: "'q \<Rightarrow> bool"
    and cap :: nat
  assumes contents_push: "contents (push e q) = lastn cap (contents q @ [e])"
    and rung_push: "rung (push e q)"
begin

lemma contents_pushes: "contents (fold push es q) = (if es = [] then contents q else lastn cap (contents q @ es))"
proof (induction es rule: rev_induct)
  case (snoc e es)
  then show ?case by (cases "es = []") (simp_all add: contents_push lastn_snoc_lastn flip: append_assoc)
qed simp

lemma push_bounded: "length (contents (push e q)) \<le> cap"
  by (simp add: contents_push)

lemma push_subseq: "subseq (contents (push e q)) (contents q @ [e])"
  by (simp add: contents_push subseq_lastn)

lemma push_room: "length (contents q) < cap \<Longrightarrow> contents (push e q) = contents q @ [e]"
  by (simp add: contents_push)

end

interpretation topic: lossy_queue enqueueLocked sub_queue sub_signal maxEventQueue
proof
  fix e and q :: eventSubscription
  have "Suc (length (sub_queue q) - 64) = length (sub_queue q) - 63" if "64 \<le> length (sub_queue q)"
    using that by simp
  then show "sub_queue (enqueueLocked e q) = lastn maxEventQueue (sub_queue q @ [e])"
    by (simp add: enqueueLocked_def Let_def lastn_def maxEventQueue_def)
qed (simp add: enqueueLocked_def Let_def)

lemma enqueueLocked_frame [simp]:
  "sub_token (enqueueLocked e s) = sub_token s" "sub_expires (enqueueLocked e s) = sub_expires s"
  by (simp_all add: enqueueLocked_def Let_def)

section \<open>The subscriptions\<close>

lemma map_of_filter_snd:
  "distinct (map fst xs) \<Longrightarrow>
     map_of (filter (\<lambda>(k, v). P v) xs) k = (case map_of xs k of None \<Rightarrow> None | Some v \<Rightarrow> if P v then Some v else None)"
  by (induction xs) (auto simp: map_of_eq_None_iff split: option.splits dest: map_of_SomeD)

lemma map_of_map_snd: "map_of (map (\<lambda>(k, v). (k, f v)) xs) k = map_option f (map_of xs k)"
  by (induction xs) auto

definition lookup :: "eventBroker \<Rightarrow> string \<Rightarrow> eventSubscription option" where
  "lookup b = map_of (subs b)"

text \<open>
  The invariant: at most 32 subscriptions under distinct keys, each key the token of its
  subscription, each queue within its bound.
\<close>

definition broker_ok :: "eventBroker \<Rightarrow> bool" where
  "broker_ok b \<longleftrightarrow> length (subs b) \<le> maxPullPoints \<and> distinct (map fst (subs b))
     \<and> (\<forall>(t, s) \<in> set (subs b). sub_token s = t \<and> length (sub_queue s) \<le> maxEventQueue)"

lemma length_update_known: "map_of xs k = Some v \<Longrightarrow> length (AList.update k w xs) = length xs"
  by (induction xs) (auto split: if_splits)

lemma length_update_le: "length (AList.update k w xs) \<le> Suc (length xs)"
  by (induction xs) auto

lemma set_update_cases: "(t, s) \<in> set (AList.update k v xs) \<Longrightarrow> (t, s) = (k, v) \<or> (t, s) \<in> set xs"
  by (induction xs) (auto split: if_splits)

lemma broker_ok_update:
  assumes "broker_ok b" "map_of (subs b) t = Some s" "sub_token s' = sub_token s"
    "length (sub_queue s') \<le> maxEventQueue"
  shows "broker_ok (b\<lparr>subs := AList.update t s' (subs b)\<rparr>)"
  using assms unfolding broker_ok_def
  by (auto simp: length_update_known distinct_update dest!: set_update_cases map_of_SomeD)

lemma broker_ok_cleanup [intro]: "broker_ok b \<Longrightarrow> broker_ok (cleanupLocked now b)"
  by (auto simp: broker_ok_def cleanupLocked_def distinct_map_filter
      intro: order_trans [OF length_filter_le])

lemma broker_ok_enqueueAll [intro]: "broker_ok b \<Longrightarrow> broker_ok (enqueueAllLocked e b)"
  using topic.push_bounded by (auto simp: broker_ok_def enqueueAllLocked_def comp_def case_prod_beta)

lemma broker_ok_queue: "broker_ok b \<Longrightarrow> map_of (subs b) t = Some s \<Longrightarrow> length (sub_queue s) \<le> maxEventQueue"
  by (auto simp: broker_ok_def dest!: map_of_SomeD)

lemma broker_ok_create:
  assumes "broker_ok b" "length (subs b) < maxPullPoints" "sub_token s = t" "sub_queue s = []"
  shows "broker_ok (b\<lparr>subs := AList.update t s (subs b)\<rparr>)"
  using assms length_update_le [of t s "subs b"]
  by (auto simp: broker_ok_def distinct_update dest!: set_update_cases)

lemma broker_ok_delete: "broker_ok b \<Longrightarrow> broker_ok (b\<lparr>subs := AList.delete t (subs b)\<rparr>)"
  by (auto simp: broker_ok_def AList.delete_eq distinct_map_filter intro: order_trans [OF length_filter_le])

lemma broker_ok_lastReady [intro]: "broker_ok b \<Longrightarrow> broker_ok (b\<lparr>lastReady := r\<rparr>)"
  by (simp add: broker_ok_def)


lemma broker_ok_step: "broker_ok b \<Longrightarrow> broker_ok (broker_step op b)"
proof (cases op)
  case (Create ttl random now)
  moreover assume "broker_ok b"
  then have "broker_ok (cleanupLocked now b)" ..
  ultimately show ?thesis
    by (auto simp: create_sub_def Let_def not_le intro: broker_ok_create split: option.splits)
next
  case (Renew t ttl now1 now2)
  moreover assume "broker_ok b"
  then have "broker_ok (cleanupLocked now1 b)" ..
  ultimately show ?thesis
    by (auto simp: renew_def Let_def intro!: broker_ok_update intro: broker_ok_queue split: option.splits)
next
  case (Sync t ready now1 now2)
  moreover assume "broker_ok b"
  then have "broker_ok (cleanupLocked now1 b)" ..
  ultimately show ?thesis
    by (auto simp: synchronizationPoint_def Let_def intro!: broker_ok_update topic.push_bounded split: option.splits)
next
  case (PullTurn t limit now)
  moreover assume "broker_ok b"
  then have "broker_ok (cleanupLocked now b)" ..
  ultimately show ?thesis
    by (auto simp: pull_turn_def Let_def intro!: broker_ok_update split: option.splits
        dest: broker_ok_queue intro: le_trans [OF diff_le_self])
next
  case (Receive t)
  moreover assume "broker_ok b"
  ultimately show ?thesis
    by (auto simp: receive_signal_def intro!: broker_ok_update intro: broker_ok_queue split: option.splits)
qed (auto simp: run_tick_def unsubscribe_def Let_def intro: broker_ok_delete split: option.splits)

lemma broker_ok_run: "broker_ok b \<Longrightarrow> broker_ok (broker_run ops b)"
  unfolding broker_run_def by (induction ops arbitrary: b) (auto simp: broker_ok_step)

lemma broker_ok_new: "broker_ok (newEventBroker ready)"
  by (simp add: broker_ok_def newEventBroker_def)

section \<open>What a pull point delivers\<close>

definition queue_of :: "string \<Rightarrow> eventBroker \<Rightarrow> eventNotification list" where
  "queue_of t b = (case lookup b t of None \<Rightarrow> [] | Some s \<Rightarrow> sub_queue s)"

text \<open>The events an operation puts into, and takes out of, the queue of a subscription.\<close>

definition enqueued :: "string \<Rightarrow> broker_op \<Rightarrow> eventBroker \<Rightarrow> eventNotification list" where
  "enqueued t op b =
     (case op of
        Tick current now1 now2 \<Rightarrow>
          if current \<noteq> lastReady b \<and> lookup (cleanupLocked now1 b) t \<noteq> None
          then [\<lparr>evt_when = now2, evt_videoLoss = \<not> current, evt_operation = ''Changed''\<rparr>] else []
      | Sync t' ready now1 now2 \<Rightarrow>
          if t' = t \<and> lookup (cleanupLocked now1 b) t \<noteq> None
          then [\<lparr>evt_when = now2, evt_videoLoss = \<not> ready, evt_operation = ''Initialized''\<rparr>] else []
      | _ \<Rightarrow> [])"

definition delivered :: "string \<Rightarrow> broker_op \<Rightarrow> eventBroker \<Rightarrow> eventNotification list" where
  "delivered t op b =
     (case op of
        PullTurn t' limit now \<Rightarrow>
          if t' = t then (case fst (pull_turn t limit now b) of PullMessages out _ \<Rightarrow> out | _ \<Rightarrow> []) else []
      | _ \<Rightarrow> [])"

fun all_enqueued :: "string \<Rightarrow> broker_op list \<Rightarrow> eventBroker \<Rightarrow> eventNotification list" where
  "all_enqueued t [] b = []"
| "all_enqueued t (op # ops) b = enqueued t op b @ all_enqueued t ops (broker_step op b)"

fun all_delivered :: "string \<Rightarrow> broker_op list \<Rightarrow> eventBroker \<Rightarrow> eventNotification list" where
  "all_delivered t [] b = []"
| "all_delivered t (op # ops) b = delivered t op b @ all_delivered t ops (broker_step op b)"


definition created :: "string \<Rightarrow> broker_op \<Rightarrow> bool" where
  "created t op = (case op of Create ttl random now \<Rightarrow> randomEventToken random = Some t | _ \<Rightarrow> False)"

lemma lookup_cleanup:
  "broker_ok b \<Longrightarrow> lookup (cleanupLocked now b) t =
     (case lookup b t of None \<Rightarrow> None | Some s \<Rightarrow> if sub_expires s > now then Some s else None)"
  by (simp add: lookup_def cleanupLocked_def map_of_filter_snd broker_ok_def)

lemma lookup_update [simp]:
  "lookup (b\<lparr>subs := AList.update t s (subs b)\<rparr>) t' = (if t' = t then Some s else lookup b t')"
  by (simp add: lookup_def update_conv')

lemma lookup_delete [simp]:
  "lookup (b\<lparr>subs := AList.delete t (subs b)\<rparr>) t' = (if t' = t then None else lookup b t')"
  by (simp add: lookup_def delete_conv')

lemma lookup_enqueueAll [simp]: "lookup (enqueueAllLocked e b) t = map_option (enqueueLocked e) (lookup b t)"
  by (simp add: lookup_def enqueueAllLocked_def map_of_map_snd)

lemma lookup_lastReady [simp]: "lookup (b\<lparr>lastReady := r\<rparr>) t = lookup b t"
  by (simp add: lookup_def)

lemma lastReady_cleanup [simp]: "lastReady (cleanupLocked now b) = lastReady b"
  by (simp add: cleanupLocked_def)

lemmas broker_lookups = lookup_def [symmetric] lookup_cleanup Let_def

text \<open>A step keeps a subscription only if it was there, unless it makes it.\<close>

lemma lookup_step:
  assumes "broker_ok b" "lookup (broker_step op b) t \<noteq> None" "\<not> created t op"
  shows "lookup b t \<noteq> None"
  using assms
  by (cases op)
    (auto simp: run_tick_def create_sub_def renew_def unsubscribe_def synchronizationPoint_def pull_turn_def
      receive_signal_def broker_lookups created_def split: option.splits if_splits)

text \<open>What a step does to one queue: nothing is invented, doubled or reordered.\<close>

lemma queue_step_subseq:
  assumes "broker_ok b"
  shows "subseq (delivered t op b @ queue_of t (broker_step op b)) (queue_of t b @ enqueued t op b)"
  using assms
  by (cases op)
    (auto simp: run_tick_def create_sub_def renew_def unsubscribe_def synchronizationPoint_def pull_turn_def
      receive_signal_def broker_lookups queue_of_def enqueued_def delivered_def topic.push_subseq
      split: option.splits if_splits)

lemma queue_step_exact:
  assumes "broker_ok b" "lookup (broker_step op b) t \<noteq> None" "\<not> created t op"
    and "length (queue_of t b @ enqueued t op b) \<le> maxEventQueue"
  shows "delivered t op b @ queue_of t (broker_step op b) = queue_of t b @ enqueued t op b"
  using assms
  by (cases op)
    (auto simp: run_tick_def create_sub_def renew_def unsubscribe_def synchronizationPoint_def pull_turn_def
      receive_signal_def broker_lookups queue_of_def enqueued_def delivered_def created_def topic.contents_push
      split: option.splits if_splits)


lemma all_subseq:
  "broker_ok b \<Longrightarrow>
     subseq (all_delivered t ops b @ queue_of t (broker_run ops b)) (queue_of t b @ all_enqueued t ops b)"
proof (induction ops arbitrary: b)
  case (Cons op ops)
  let ?b = "broker_step op b"
  have "subseq (delivered t op b @ all_delivered t ops ?b @ queue_of t (broker_run ops ?b))
      (delivered t op b @ queue_of t ?b @ all_enqueued t ops ?b)"
    using Cons by (simp add: subseq_append' broker_ok_step)
  also have "subseq \<dots> (queue_of t b @ enqueued t op b @ all_enqueued t ops ?b)"
    using queue_step_subseq [OF Cons.prems, of t op] by (metis append_assoc list_emb_append_mono subseq_order.order_refl)
  finally show ?case by (simp add: broker_run_def)
qed (simp add: broker_run_def)

text \<open>A subscription that is there at the end and was not made on the way was there all along.\<close>

lemma lookup_run:
  assumes "broker_ok b" "lookup (broker_run ops b) t \<noteq> None" "list_all (\<lambda>op. \<not> created t op) ops"
  shows "lookup b t \<noteq> None"
  using assms
proof (induction ops arbitrary: b)
  case (Cons op ops)
  then have "lookup (broker_step op b) t \<noteq> None" by (simp add: broker_run_def broker_ok_step)
  with Cons.prems show ?case by (auto dest: lookup_step)
qed (simp add: broker_run_def)

lemma all_exact:
  assumes "broker_ok b" "lookup (broker_run ops b) t \<noteq> None" "list_all (\<lambda>op. \<not> created t op) ops"
    and "length (queue_of t b @ all_enqueued t ops b) \<le> maxEventQueue"
  shows "all_delivered t ops b @ queue_of t (broker_run ops b) = queue_of t b @ all_enqueued t ops b"
  using assms
proof (induction ops arbitrary: b)
  case (Cons op ops)
  let ?b = "broker_step op b"
  have "lookup ?b t \<noteq> None"
    using Cons.prems by (intro lookup_run [of ?b ops]) (simp_all add: broker_run_def broker_ok_step)
  then have step: "delivered t op b @ queue_of t ?b = queue_of t b @ enqueued t op b"
    using Cons.prems by (intro queue_step_exact) simp_all
  then have "length (queue_of t ?b) \<le> length (queue_of t b @ enqueued t op b)"
    by (metis length_append le_add2)
  then have "all_delivered t ops ?b @ queue_of t (broker_run ops ?b) = queue_of t ?b @ all_enqueued t ops ?b"
    using Cons.prems by (intro Cons.IH) (simp_all add: broker_run_def broker_ok_step)
  with step show ?case by (simp add: broker_run_def flip: append_assoc) (metis append_assoc)
qed (simp add: broker_run_def)

section \<open>Changes of the signal\<close>

fun alternating :: "bool \<Rightarrow> eventNotification list \<Rightarrow> bool" where
  "alternating loss [] = True"
| "alternating loss (e # es) = (evt_videoLoss e = loss \<and> alternating (\<not> loss) es)"

text \<open>The \<open>Changed\<close> events among others.\<close>

definition changed :: "eventNotification list \<Rightarrow> eventNotification list" where
  "changed es = filter (\<lambda>e. evt_operation e = ''Changed'') es"

lemma changed_simps [simp]: "changed [] = []" "changed (es @ fs) = changed es @ changed fs"
  by (simp_all add: changed_def)

lemma lastReady_step:
  "lastReady (broker_step op b) = (case op of Tick current now1 now2 \<Rightarrow> current | _ \<Rightarrow> lastReady b)"
  by (cases op)
    (auto simp: run_tick_def create_sub_def renew_def unsubscribe_def synchronizationPoint_def pull_turn_def
      receive_signal_def Let_def enqueueAllLocked_def split: option.splits)

lemma enqueued_changes:
  assumes "broker_ok b" "lookup (broker_step op b) t \<noteq> None" "\<not> created t op"
  shows "changed (enqueued t op b) = [] \<and> lastReady (broker_step op b) = lastReady b
    \<or> (\<exists>e. changed (enqueued t op b) = [e] \<and> evt_videoLoss e = lastReady b
        \<and> lastReady (broker_step op b) = (\<not> lastReady b))"
  unfolding lastReady_step using assms
  by (cases op)
    (auto simp: changed_def enqueued_def run_tick_def broker_lookups split: option.splits if_splits)

lemma changes_alternate:
  assumes "broker_ok b" "lookup (broker_run ops b) t \<noteq> None" "list_all (\<lambda>op. \<not> created t op) ops"
  shows "alternating (lastReady b) (changed (all_enqueued t ops b))
    \<and> lastReady (broker_run ops b) = (lastReady b \<noteq> odd (length (changed (all_enqueued t ops b))))"
  using assms
proof (induction ops arbitrary: b)
  case (Cons op ops)
  let ?b = "broker_step op b"
  have "lookup ?b t \<noteq> None"
    using Cons.prems by (intro lookup_run [of ?b ops]) (simp_all add: broker_run_def broker_ok_step)
  moreover have "alternating (lastReady ?b) (changed (all_enqueued t ops ?b))
      \<and> lastReady (broker_run ops ?b) = (lastReady ?b \<noteq> odd (length (changed (all_enqueued t ops ?b))))"
    using Cons.prems by (intro Cons.IH) (simp_all add: broker_run_def broker_ok_step)
  ultimately show ?case
    using enqueued_changes [of b op t] Cons.prems by (auto simp: broker_run_def)
qed (simp add: broker_run_def)


section \<open>Waiting pulls\<close>

text \<open>
  A pull is at a turn of its loop, waits, or has returned: no subscription, or messages and
  the expiry.
\<close>

datatype puller =
    Trying
  | Waiting time
  | Returned "(eventNotification list \<times> time) option"

text \<open>
  One pull of \<open>t\<close> beside everything else the broker does. The other steps are all but the
  receipts of the same channel, so this is the only pull waiting on \<open>t\<close>; the code allows more of
  them, for which see \<open>second_pull_sleeps\<close> below. The wait ends by the signal, or by the timer or the
  request's context.
\<close>

definition concurrent :: "string \<Rightarrow> broker_op \<Rightarrow> bool" where
  "concurrent t op = (case op of Receive t' \<Rightarrow> t' \<noteq> t | _ \<Rightarrow> True)"

inductive pull_steps :: "string \<Rightarrow> nat \<Rightarrow> eventBroker \<times> puller \<Rightarrow> eventBroker \<times> puller \<Rightarrow> bool"
  for t :: string and limit :: nat
where
  gone: "pull_turn t limit now b = (PullGone, b') \<Longrightarrow> pull_steps t limit (b, Trying) (b', Returned None)"
| messages: "pull_turn t limit now b = (PullMessages out e, b') \<Longrightarrow>
    pull_steps t limit (b, Trying) (b', Returned (Some (out, e)))"
| wait: "pull_turn t limit now b = (PullWait e, b') \<Longrightarrow> pull_steps t limit (b, Trying) (b', Waiting e)"
| signalled: "lookup b t = Some s \<Longrightarrow> sub_signal s \<Longrightarrow>
    pull_steps t limit (b, Waiting e) (receive_signal t b, Trying)"
| timeout: "pull_steps t limit (b, Waiting e) (b, Returned (Some ([], e)))"
| other: "concurrent t op \<Longrightarrow> pull_steps t limit (b, p) (broker_step op b, p)"

inductive_cases pull_steps_waiting: "pull_steps t limit (b, Waiting e) st"
inductive_simps pull_steps_returned: "pull_steps t limit (b, Returned r) st"

text \<open>A waiting pull has nothing to take, or the channel is full.\<close>

definition awake :: "string \<Rightarrow> eventBroker \<times> puller \<Rightarrow> bool" where
  "awake t st \<longleftrightarrow> broker_ok (fst st) \<and>
     (case snd st of
        Waiting e \<Rightarrow> (case lookup (fst st) t of None \<Rightarrow> True | Some s \<Rightarrow> sub_queue s = [] \<or> sub_signal s)
      | _ \<Rightarrow> True)"

lemma wait_empty:
  assumes "pull_turn t limit now b = (PullWait e, b')" "broker_ok b"
  shows "case lookup b' t of None \<Rightarrow> True | Some s \<Rightarrow> sub_queue s = []"
  using assms by (auto simp: pull_turn_def Let_def lookup_def split: option.splits if_splits)

lemma concurrent_awake:
  assumes "concurrent t op" "broker_ok b"
    and "case lookup b t of None \<Rightarrow> True | Some s \<Rightarrow> sub_queue s = [] \<or> sub_signal s"
  shows "case lookup (broker_step op b) t of None \<Rightarrow> True | Some s \<Rightarrow> sub_queue s = [] \<or> sub_signal s"
  using assms
  by (cases op)
    (auto simp: run_tick_def create_sub_def renew_def unsubscribe_def synchronizationPoint_def pull_turn_def
      receive_signal_def broker_lookups concurrent_def topic.rung_push split: option.splits if_splits)

lemma pull_turn_ok: "pull_turn t limit now b = (r, b') \<Longrightarrow> broker_ok b \<Longrightarrow> broker_ok b'"
  using broker_ok_step [of b "PullTurn t limit now"] by simp

lemma awake_step: "pull_steps t limit st st' \<Longrightarrow> awake t st \<Longrightarrow> awake t st'"
proof (induction rule: pull_steps.induct)
  case (wait now b e b')
  then show ?case using wait_empty [OF wait(1)] pull_turn_ok [OF wait(1)]
    by (auto simp: awake_def split: option.splits)
next
  case (signalled b s e)
  then show ?case using broker_ok_step [of b "Receive t"] by (simp add: awake_def)
next
  case (other op b p)
  then show ?case using concurrent_awake [OF other(1)]
    by (auto simp: awake_def broker_ok_step split: puller.splits)
qed (auto simp: awake_def dest: pull_turn_ok)

lemma awake_reachable: "(pull_steps t limit)\<^sup>*\<^sup>* st st' \<Longrightarrow> awake t st \<Longrightarrow> awake t st'"
  by (induction rule: rtranclp_induct) (auto dest: awake_step)


section \<open>Properties\<close>

text \<open>
  Property C20: whatever the goroutines do and in whatever order, the broker never holds more
  than 32 subscriptions or more than 64 events for one of them, its keys are distinct and
  each is the token of its subscription.
\<close>

theorem broker_bounded:
  "length (subs (broker_run ops (newEventBroker ready))) \<le> 32
    \<and> distinct (map fst (subs (broker_run ops (newEventBroker ready))))
    \<and> list_all (\<lambda>(t, s). sub_token s = t \<and> length (sub_queue s) \<le> 64) (subs (broker_run ops (newEventBroker ready)))"
  using broker_ok_run [OF broker_ok_new]
  by (simp add: broker_ok_def list_all_iff maxPullPoints_def maxEventQueue_def)

text \<open>
  Property C4: the messages a pull point has delivered, followed by those it still holds, are
  a subsequence of the events put into it, in their order: nothing is invented, delivered
  twice or reordered, in any interleaving of operations.
\<close>

theorem pull_point_order:
  "subseq (all_delivered t ops (newEventBroker ready) @ queue_of t (broker_run ops (newEventBroker ready)))
     (all_enqueued t ops (newEventBroker ready))"
  using all_subseq [OF broker_ok_new, of t ops] by (simp add: queue_of_def lookup_def newEventBroker_def)

text \<open>
  Property C21: from any reachable state, while the subscription lives and no more than 64
  events are pending or arrive, every one of them is delivered exactly once and in order or
  still queued.
\<close>

theorem pull_point_lossless:
  assumes "b = broker_run pre (newEventBroker ready)"
    and "lookup (broker_run ops b) t \<noteq> None" "list_all (\<lambda>op. \<not> created t op) ops"
    and "length (queue_of t b) + length (all_enqueued t ops b) \<le> 64"
  shows "all_delivered t ops b @ queue_of t (broker_run ops b) = queue_of t b @ all_enqueued t ops b"
  using assms by (intro all_exact) (simp_all add: broker_ok_run broker_ok_new maxEventQueue_def)

definition example_token_text :: string where "example_token_text = hex_encode ''x''"

definition example_broker :: eventBroker where
  "example_broker = broker_run [Create minute (Some ''x'') 0] (newEventBroker True)"

lemma example_broker_eq:
  "example_broker = \<lparr>subs = [(example_token_text, \<lparr>sub_token = example_token_text, sub_expires = 60000000000,
     sub_queue = [], sub_signal = False\<rparr>)], lastReady = True\<rparr>"
  by (simp add: example_broker_def broker_run_def create_sub_def cleanupLocked_def newEventBroker_def
      maxPullPoints_def randomEventToken_def example_token_text_def duration_defs Let_def)

lemmas example_eval = example_broker_eq broker_run_def broker_ops lookup_def queue_of_def enqueued_def
  delivered_def created_def enqueueLocked_def maxEventQueue_def duration_defs

theorem pull_point_lossless_witness:
  "all_delivered example_token_text [Tick False 1 2, Tick True 3 4, PullTurn example_token_text 1 5] example_broker
     @ queue_of example_token_text
         (broker_run [Tick False 1 2, Tick True 3 4, PullTurn example_token_text 1 5] example_broker)
   = queue_of example_token_text example_broker
     @ all_enqueued example_token_text [Tick False 1 2, Tick True 3 4, PullTurn example_token_text 1 5] example_broker"
  by (rule pull_point_lossless [OF example_broker_def]) (simp_all add: example_eval)

text \<open>
  Property C22: what a subscriber sees of the source is consistent. Take a subscription that lives
  through a run, with an empty queue before and at most 64 events during it. Then the \<open>Changed\<close> events that
  it was delivered, followed by those in its queue, alternate between loss and no loss, beginning
  with the change away from the broker's state before, and the last one agrees with the state the
  broker ends in.
\<close>

theorem changed_events_alternate:
  assumes "b = broker_run pre (newEventBroker ready)"
    and "lookup (broker_run ops b) t \<noteq> None" "list_all (\<lambda>op. \<not> created t op) ops"
    and "queue_of t b = []" "length (all_enqueued t ops b) \<le> 64"
    and "seen = changed (all_delivered t ops b @ queue_of t (broker_run ops b))"
  shows "alternating (lastReady b) seen \<and> lastReady (broker_run ops b) = (lastReady b \<noteq> odd (length seen))"
proof -
  have "broker_ok b" using assms(1) by (simp add: broker_ok_run broker_ok_new)
  moreover from this have "all_delivered t ops b @ queue_of t (broker_run ops b) = queue_of t b @ all_enqueued t ops b"
    using assms(2-5) by (intro all_exact) (simp_all add: maxEventQueue_def)
  then have "seen = changed (all_enqueued t ops b)" unfolding assms(6) assms(4) by simp
  ultimately show ?thesis using changes_alternate assms(2,3) by simp
qed

theorem changed_events_alternate_witness:
  "alternating True (changed (all_delivered example_token_text [Tick False 1 2, PullTurn example_token_text 1 3, Tick True 4 5] example_broker
     @ queue_of example_token_text (broker_run [Tick False 1 2, PullTurn example_token_text 1 3, Tick True 4 5] example_broker)))"
  using changed_events_alternate [OF example_broker_def, of "[Tick False 1 2, PullTurn example_token_text 1 3, Tick True 4 5]"
      example_token_text, OF _ _ _ _ refl]
  by (simp add: example_eval)

text \<open>
  Property C17: a pull that is alone on its subscription loses no wake-up. In every state that it and
  the other goroutines reach (the ticker, requests, pulls of other subscriptions, and pulls of this one
  that do not wait), when the pull waits and its subscription holds events, the signal is there and
  the pull can go on to its next turn. With a second pull waiting on the same subscription this fails.
\<close>

theorem no_lost_wakeup:
  assumes "(pull_steps t limit)\<^sup>*\<^sup>* (broker_run pre (newEventBroker ready), Trying) (b, Waiting e)"
    and "lookup b t = Some s" "sub_queue s \<noteq> []"
  shows "pull_steps t limit (b, Waiting e) (receive_signal t b, Trying)"
proof -
  have "awake t (broker_run pre (newEventBroker ready), Trying)"
    by (simp add: awake_def broker_ok_run broker_ok_new)
  with assms(1) have "awake t (b, Waiting e)" by (rule awake_reachable)
  with assms(2,3) show ?thesis by (auto simp: awake_def intro: pull_steps.signalled)
qed

theorem no_lost_wakeup_witness:
  "pull_steps example_token_text 1 (broker_step (Tick False 1 2) example_broker, Waiting 60000000000)
     (receive_signal example_token_text (broker_step (Tick False 1 2) example_broker), Trying)"
proof (rule no_lost_wakeup)
  have "pull_steps example_token_text 1 (example_broker, Trying) (example_broker, Waiting 60000000000)"
    by (rule pull_steps.wait [where now = 1]) (simp add: example_eval)
  moreover have "pull_steps example_token_text 1 (example_broker, Waiting 60000000000)
      (broker_step (Tick False 1 2) example_broker, Waiting 60000000000)"
    by (rule pull_steps.other) (simp add: concurrent_def)
  ultimately show "(pull_steps example_token_text 1)\<^sup>*\<^sup>*
      (broker_run [Create minute (Some ''x'') 0] (newEventBroker True), Trying)
      (broker_step (Tick False 1 2) example_broker, Waiting 60000000000)"
    unfolding example_broker_def [symmetric] by (rule converse_rtranclp_into_rtranclp [OF _ r_into_rtranclp])
qed (simp add: example_eval)+

text \<open>
  With two pulls waiting on one subscription a wake-up can be lost: the channel
  holds one signal, so when the pull that takes it leaves events behind, the other pull sees
  a queue with events and an empty channel, and sleeps on.
\<close>

theorem second_pull_sleeps:
  assumes "b = broker_run pre (newEventBroker ready)" "lookup b t = Some s" "now < sub_expires s"
    and "limit < length (sub_queue s)"
    and "b' = broker_run [Receive t, PullTurn t limit now] b"
  shows "\<exists>s'. lookup b' t = Some s' \<and> sub_queue s' = drop limit (sub_queue s) \<and> sub_queue s' \<noteq> []
    \<and> (\<forall>e. \<not> pull_steps t limit (b', Waiting e) (receive_signal t b', Trying))"
proof -
  have ok: "broker_ok (receive_signal t b)"
    using broker_ok_step [of b "Receive t"] assms(1) by (simp add: broker_ok_run broker_ok_new)
  have "lookup (cleanupLocked now (receive_signal t b)) t = Some (s\<lparr>sub_signal := False\<rparr>)"
    using assms(2,3) by (simp add: lookup_cleanup [OF ok]) (simp add: receive_signal_def lookup_def update_conv')
  then have b': "lookup b' t = Some (s\<lparr>sub_signal := False, sub_queue := drop limit (sub_queue s)\<rparr>)"
    using assms(4,5) by (auto simp: broker_run_def pull_turn_def Let_def lookup_def update_conv')
  then show ?thesis using assms(4) by (auto elim: pull_steps_waiting)
qed

theorem second_pull_sleeps_witness:
  "\<exists>s'. lookup (broker_run [Receive example_token_text, PullTurn example_token_text 1 5]
      (broker_run [Create minute (Some ''x'') 0, Tick False 1 2, Tick True 3 4] (newEventBroker True)))
      example_token_text = Some s' \<and> sub_queue s' \<noteq> []"
proof -
  let ?b = "broker_run [Create minute (Some ''x'') 0, Tick False 1 2, Tick True 3 4] (newEventBroker True)"
  have b: "?b = broker_run [Tick False 1 2, Tick True 3 4] example_broker"
    by (simp add: example_broker_def broker_run_def)
  obtain s where "lookup ?b example_token_text = Some s" "5 < sub_expires s" "1 < length (sub_queue s)"
    unfolding b by (simp add: example_eval)
  from second_pull_sleeps [OF refl this refl] show ?thesis by auto
qed

text \<open>
  An expired subscription is gone for every pull, renewal and synchronization
  point, and its place is free; only \<open>Unsubscribe\<close> does not look at the clock.
\<close>

theorem expired_subscription_gone:
  assumes "b = broker_run ops (newEventBroker ready)" "lookup b t = Some s" "sub_expires s \<le> now"
  shows "fst (pull_turn t limit now b) = PullGone \<and> fst (renew t ttl now now2 b) = None
    \<and> \<not> fst (synchronizationPoint t r now now2 b) \<and> length (subs (cleanupLocked now b)) < length (subs b)
    \<and> fst (unsubscribe t b)"
proof -
  have "broker_ok b" using assms(1) by (simp add: broker_ok_run broker_ok_new)
  moreover have "length (subs (cleanupLocked now b)) < length (subs b)"
    using assms(2,3) unfolding lookup_def cleanupLocked_def
    by (auto intro!: length_filter_less dest: map_of_SomeD)
  ultimately show ?thesis
    using assms(2,3)
    by (auto simp: pull_turn_def renew_def synchronizationPoint_def unsubscribe_def broker_lookups)
qed

theorem expired_subscription_gone_witness:
  "fst (pull_turn example_token_text 1 60000000000 example_broker) = PullGone"
  using expired_subscription_gone [OF example_broker_def, of example_token_text _ 60000000000 1]
  by (simp add: example_broker_eq lookup_def)

end
