(* ===== verification/Files.thy ===== *)
theory Files
  imports Prelude
begin

text \<open>
  The file system as the program uses it: a map from paths to contents, and the set of
  operations the system refuses (permissions, locks, a missing directory, a full disk), which
  the environment may change at any time. Each operation of package \<open>os\<close> that the program
  calls is a function on this state. \<open>os.WriteFile\<close> truncates the file before it writes: when the
  system refuses to open it, the file stays as it was, and when the write breaks off
  (\<open>torn d path\<close> is the number of bytes written by then), the file holds the beginning of the new
  text. Directories are not modelled beyond being a reason to refuse.
\<close>

datatype file_op = OpReadFile | OpWriteFile | OpOpenFile | OpClose | OpStat | OpRename | OpRemove | OpMkdirAll

record disk =
  files :: "string \<Rightarrow> string option"
  refused :: "file_op \<Rightarrow> string \<Rightarrow> bool"
  torn :: "string \<Rightarrow> nat option"

datatype read_result = ReadOk string | ReadNotExist | ReadError

definition os_ReadFile :: "disk \<Rightarrow> string \<Rightarrow> read_result" where
  "os_ReadFile d path =
     (if refused d OpReadFile path then ReadError
      else (case files d path of None \<Rightarrow> ReadNotExist | Some b \<Rightarrow> ReadOk b))"

text \<open>The operations return whether they succeeded, and the new disk.\<close>

definition os_WriteFile :: "string \<Rightarrow> string \<Rightarrow> disk \<Rightarrow> bool \<times> disk" where
  "os_WriteFile path b d =
     (if refused d OpWriteFile path then (False, d)
      else
        (case torn d path of
           None \<Rightarrow> (True, d\<lparr>files := (files d)(path \<mapsto> b)\<rparr>)
         | Some n \<Rightarrow> (False, d\<lparr>files := (files d)(path \<mapsto> take n b)\<rparr>)))"

definition os_Stat :: "disk \<Rightarrow> string \<Rightarrow> bool" where
  "os_Stat d path \<longleftrightarrow> \<not> refused d OpStat path \<and> files d path \<noteq> None"

definition os_Remove :: "string \<Rightarrow> disk \<Rightarrow> bool \<times> disk" where
  "os_Remove path d =
     (if refused d OpRemove path \<or> files d path = None then (False, d)
      else (True, d\<lparr>files := (files d)(path := None)\<rparr>))"

definition os_Rename :: "string \<Rightarrow> string \<Rightarrow> disk \<Rightarrow> bool \<times> disk" where
  "os_Rename old new d =
     (if refused d OpRename old \<or> files d old = None then (False, d)
      else (True, d\<lparr>files := (files d)(old := None, new := files d old)\<rparr>))"

definition os_MkdirAll :: "string \<Rightarrow> disk \<Rightarrow> bool \<times> disk" where
  "os_MkdirAll path d = (\<not> refused d OpMkdirAll path, d)"

text \<open>\<open>os.OpenFile\<close> with \<open>O_CREATE | O_APPEND | O_WRONLY\<close>.\<close>

definition os_OpenAppend :: "string \<Rightarrow> disk \<Rightarrow> bool \<times> disk" where
  "os_OpenAppend path d =
     (if refused d OpOpenFile path then (False, d)
      else (True, d\<lparr>files := (files d)(path \<mapsto> (case files d path of None \<Rightarrow> [] | Some b \<Rightarrow> b))\<rparr>))"

definition no_refusal :: "disk \<Rightarrow> bool" where
  "no_refusal d \<longleftrightarrow> (\<forall>op path. \<not> refused d op path) \<and> (\<forall>path. torn d path = None)"

text \<open>What a failed write may have done to a disk: nothing, or left the beginning of a text.\<close>

definition torn_write :: "string \<Rightarrow> disk \<Rightarrow> disk \<Rightarrow> bool" where
  "torn_write path d d' \<longleftrightarrow> (\<exists>n b. torn d path = Some n \<and> d' = d\<lparr>files := (files d)(path \<mapsto> take n b)\<rparr>)"

section \<open>One file as a store\<close>

text \<open>
  What the users of a single file rely on: a read after a successful write sees what was
  written, and other files stay whether it succeeds or not.
\<close>

locale file_store =
  fixes rd :: "'fs \<Rightarrow> string \<Rightarrow> read_result"
    and wr :: "string \<Rightarrow> string \<Rightarrow> 'fs \<Rightarrow> bool \<times> 'fs"
  assumes read_written: "fst (wr p b s) \<Longrightarrow> rd s p \<noteq> ReadError \<Longrightarrow> rd (snd (wr p b s)) p = ReadOk b"
    and read_other: "q \<noteq> p \<Longrightarrow> rd (snd (wr p b s)) q = rd s q"
    and errors_stay: "(rd (snd (wr p b s)) q = ReadError) = (rd s q = ReadError)"
begin

lemma last_write_wins:
  "fst (wr p b s) \<Longrightarrow> fst (wr p b' (snd (wr p b s))) \<Longrightarrow> rd s p \<noteq> ReadError \<Longrightarrow>
     rd (snd (wr p b' (snd (wr p b s)))) p = ReadOk b'"
  by (simp add: read_written errors_stay)

end

interpretation os: file_store os_ReadFile os_WriteFile
  by unfold_locales (auto simp: os_ReadFile_def os_WriteFile_def split: if_splits option.splits)

lemma failed_write:
  "os_WriteFile path b d = (False, d') \<Longrightarrow> d' = d \<or> torn_write path d d'"
  by (auto simp: os_WriteFile_def torn_write_def split: if_splits option.splits)

end
