(* ===== verification/Logging.thy ===== *)
theory Logging
  imports Files Codec "HOL-Library.Sublist"
begin

text \<open>
  The rotating log file of \<open>internal/logging/rotate.go\<close>. The writer holds the open file, which
  is always the one at \<open>path\<close>, and its size; the disk is threaded through the operations.
  Sizes are \<open>int64\<close>.
\<close>

text \<open>
  The field \<open>file\<close>: nil, an open file, or a file whose \<open>Close\<close> failed, on which every further
  operation fails.
\<close>

datatype handle = NilFile | OpenedFile | DeadFile

record RotatingWriter =
  w_path :: string
  w_maxSize :: int
  w_backups :: int
  w_file :: handle
  w_size :: int

datatype log_error = LogClosed | LogMkdir | LogOpen | LogStat | LogClose | LogRename | LogWrite

text \<open>\<open>fmt.Sprintf("%s.%d", path, i)\<close>\<close>

definition backup_name :: "string \<Rightarrow> int \<Rightarrow> string" where
  "backup_name path i = path @ ''.'' @ itoa i"

definition open_log :: "RotatingWriter \<Rightarrow> disk \<Rightarrow> log_error option \<times> RotatingWriter \<times> disk" where
  "open_log w d =
     (case os_OpenAppend (w_path w) d of
        (False, d1) \<Rightarrow> (Some LogOpen, w, d1)
      | (True, d1) \<Rightarrow>
          if \<not> os_Stat d1 (w_path w) then (Some LogStat, w, d1)
          else (None, w\<lparr>w_file := OpenedFile, w_size := int (length (the (files d1 (w_path w))))\<rparr>, d1))"

text \<open>\<open>New\<close>; \<open>dir\<close> is \<open>filepath.Dir\<close>.\<close>

definition new_log ::
  "(string \<Rightarrow> string) \<Rightarrow> string \<Rightarrow> int \<Rightarrow> int \<Rightarrow> disk \<Rightarrow> (log_error, RotatingWriter) result \<times> disk"
where
  "new_log dir path maxMB backups d =
     (let maxMB = (if maxMB \<le> 0 then 20 else maxMB);
          backups = (if backups < 1 then 5 else backups) in
      case os_MkdirAll (dir path) d of
        (False, d1) \<Rightarrow> (Inl LogMkdir, d1)
      | (True, d1) \<Rightarrow>
          (case open_log \<lparr>w_path = path, w_maxSize = wrap64 (wrap64 (maxMB * 1024) * 1024),
                  w_backups = backups, w_file = NilFile, w_size = 0\<rparr> d1 of
             (Some e, w, d2) \<Rightarrow> (Inl e, d2)
           | (None, w, d2) \<Rightarrow> (Inr w, d2)))"

text \<open>The loop of \<open>rotate\<close> from backup \<open>i\<close> down to 1; the errors of its steps are ignored.\<close>

definition shift_backup :: "string \<Rightarrow> int \<Rightarrow> disk \<Rightarrow> disk" where
  "shift_backup path i d =
     (let oldName = backup_name path i; newName = backup_name path (i + 1);
          d1 = snd (os_Remove newName d)
      in if os_Stat d1 oldName then snd (os_Rename oldName newName d1) else d1)"

function shift_backups :: "string \<Rightarrow> int \<Rightarrow> disk \<Rightarrow> disk" where
  "shift_backups path i d =
     (if i \<ge> 1 then shift_backups path (i - 1) (shift_backup path i d) else d)"
  by pat_completeness auto
termination by (relation "measure (\<lambda>(path, i, d). nat i)") auto

declare shift_backups.simps [simp del]

definition close_fails :: "RotatingWriter \<Rightarrow> disk \<Rightarrow> bool" where
  "close_fails w d \<longleftrightarrow> w_file w = DeadFile \<or> refused d OpClose (w_path w)"

definition rotate :: "RotatingWriter \<Rightarrow> disk \<Rightarrow> log_error option \<times> RotatingWriter \<times> disk" where
  "rotate w d =
     (if close_fails w d then (Some LogClose, w\<lparr>w_file := DeadFile\<rparr>, d)
      else
        let w1 = w\<lparr>w_file := NilFile\<rparr>;
            d1 = shift_backups (w_path w) (w_backups w - 1) d;
            d2 = snd (os_Remove (backup_name (w_path w) 1) d1) in
        if os_Stat d2 (w_path w) then
          (case os_Rename (w_path w) (backup_name (w_path w) 1) d2 of
             (False, d3) \<Rightarrow> (Some LogRename, w1, d3)
           | (True, d3) \<Rightarrow> open_log w1 d3)
        else open_log w1 d2)"

text \<open>
  \<open>Write\<close> returns the number of bytes written, which counts for the size also when the write
  fails: one that the system refuses writes nothing, one that breaks off writes the first bytes.
\<close>

definition text_of :: "string option \<Rightarrow> string" where
  "text_of b = (case b of None \<Rightarrow> [] | Some t \<Rightarrow> t)"

definition append_file :: "RotatingWriter \<Rightarrow> string \<Rightarrow> disk \<Rightarrow> bool \<times> nat \<times> disk" where
  "append_file w p d =
     (if w_file w = DeadFile \<or> refused d OpWriteFile (w_path w) then (False, 0, d)
      else
        let (ok, written) = (case torn d (w_path w) of None \<Rightarrow> (True, p) | Some n \<Rightarrow> (False, take n p)) in
        (ok, length written, d\<lparr>files := (files d)(w_path w \<mapsto> text_of (files d (w_path w)) @ written)\<rparr>))"

definition Write :: "string \<Rightarrow> RotatingWriter \<Rightarrow> disk \<Rightarrow> (log_error, int) result \<times> RotatingWriter \<times> disk" where
  "Write p w d =
     (if w_file w = NilFile then (Inl LogClosed, w, d)
      else
        let (err, w1, d1) =
          (if wrap64 (w_size w + int (length p)) > w_maxSize w then rotate w d else (None, w, d)) in
        case err of
          Some e \<Rightarrow> (Inl e, w1, d1)
        | None \<Rightarrow>
            (case append_file w1 p d1 of
               (ok, n, d2) \<Rightarrow>
                 (if ok then Inr (int n) else Inl LogWrite, w1\<lparr>w_size := wrap64 (w_size w1 + int n)\<rparr>, d2)))"

definition Close :: "RotatingWriter \<Rightarrow> disk \<Rightarrow> log_error option \<times> RotatingWriter" where
  "Close w d =
     (if w_file w = NilFile then (None, w)
      else (if close_fails w d then Some LogClose else None, w\<lparr>w_file := NilFile\<rparr>))"


section \<open>Rotation shifts the backups\<close>

lemma backup_name_inj [simp]: "1 \<le> i \<Longrightarrow> 1 \<le> j \<Longrightarrow> backup_name path i = backup_name path j \<longleftrightarrow> i = j"
  unfolding backup_name_def by (metis append_same_eq digits_val_dec_nat itoa_nonneg nat_eq_iff2 order_trans same_append_eq zero_le_one)

lemma backup_name_path [simp]: "backup_name path i \<noteq> path" "path \<noteq> backup_name path i"
  by (simp_all add: backup_name_def)

lemma os_frame [simp]:
  "refused (snd (os_Remove p d)) = refused d" "refused (snd (os_Rename p q d)) = refused d"
  "refused (snd (os_OpenAppend p d)) = refused d"
  "torn (snd (os_Remove p d)) = torn d" "torn (snd (os_Rename p q d)) = torn d"
  "torn (snd (os_OpenAppend p d)) = torn d"
  by (simp_all add: os_Remove_def os_Rename_def os_OpenAppend_def)

lemma shift_backup_files:
  assumes "no_refusal d" "1 \<le> i"
  shows "files (shift_backup path i d) =
     (files d)(backup_name path (i + 1) := files d (backup_name path i), backup_name path i := None)"
  using assms
  by (auto simp: shift_backup_def os_Remove_def os_Rename_def os_Stat_def no_refusal_def Let_def fun_eq_iff)

lemma shift_backup_refused [simp]: "refused (shift_backup path i d) = refused d" "torn (shift_backup path i d) = torn d"
  by (simp_all add: shift_backup_def Let_def)

lemma shift_backups_refused [simp]: "refused (shift_backups path i d) = refused d" "torn (shift_backups path i d) = torn d"
  by (induction path i d rule: shift_backups.induct) (simp_all add: shift_backups.simps)

lemma shift_backups_path: "files (shift_backups path i d) path = files d path"
proof (induction path i d rule: shift_backups.induct)
  case (1 path i d)
  have "files (shift_backup path i d) path = files d path"
    by (simp add: shift_backup_def os_Remove_def os_Rename_def Let_def)
  with 1 show ?case by (subst shift_backups.simps) simp
qed

lemma shift_backups_files:
  assumes "no_refusal d"
  shows "1 \<le> k \<Longrightarrow> files (shift_backups path i d) (backup_name path k) =
      (if 1 < k \<and> k \<le> i + 1 then files d (backup_name path (k - 1))
       else if k = 1 \<and> 1 \<le> i then None else files d (backup_name path k))"
    and "\<forall>k \<ge> 1. q \<noteq> backup_name path k \<Longrightarrow> files (shift_backups path i d) q = files d q"
  using assms
proof (induction path i d rule: shift_backups.induct)
  case (1 path i d)
  {
    case 1
    then show ?case
      using "1.IH"(1)
      by (subst shift_backups.simps, cases "k = i + 1") (auto simp: shift_backup_files no_refusal_def)
  next
    case 2
    then show ?case
      using "1.IH"(2) by (subst shift_backups.simps) (auto simp: shift_backup_files no_refusal_def)
  }
qed


text \<open>The writer's invariant: an open writer knows the size of its file.\<close>

definition log_ok :: "RotatingWriter \<Rightarrow> disk \<Rightarrow> bool" where
  "log_ok w d \<longleftrightarrow> w_file w = OpenedFile \<and> 1 \<le> w_backups w
     \<and> (\<exists>t. files d (w_path w) = Some t \<and> w_size w = int (length t))"

lemma open_log_ok:
  assumes "no_refusal d" "1 \<le> w_backups w" "open_log w d = (e, w', d')"
  shows "e = None" "w' = w\<lparr>w_file := OpenedFile, w_size := int (length (text_of (files d (w_path w))))\<rparr>"
    "d' = d\<lparr>files := (files d)(w_path w \<mapsto> text_of (files d (w_path w)))\<rparr>"
  using assms
  by (auto simp: open_log_def os_OpenAppend_def os_Stat_def no_refusal_def text_of_def split: option.splits)

lemma rotate_ok:
  assumes "no_refusal d" "log_ok w d" "rotate w d = (e, w', d')"
  shows "e = None" "w' = w\<lparr>w_size := 0\<rparr>" "no_refusal d'" "files d' (w_path w) = Some []"
    "files d' (backup_name (w_path w) 1) = files d (w_path w)"
    "1 < k \<Longrightarrow> k \<le> w_backups w \<Longrightarrow>
       files d' (backup_name (w_path w) k) = files d (backup_name (w_path w) (k - 1))"
proof -
  let ?p = "w_path w"
  let ?d1 = "shift_backups ?p (w_backups w - 1) d"
  let ?d2 = "snd (os_Remove (backup_name ?p 1) ?d1)"
  obtain t where t: "files d ?p = Some t" using assms(2) by (auto simp: log_ok_def)
  have d1: "files ?d1 ?p = Some t" "no_refusal ?d1"
    using t assms(1) by (simp_all add: shift_backups_files(2) no_refusal_def)
  have d2: "no_refusal ?d2" "files ?d2 ?p = Some t" "files ?d2 (backup_name ?p 1) = None"
    "q \<noteq> backup_name ?p 1 \<Longrightarrow> files ?d2 q = files ?d1 q" for q
    using d1 by (auto simp: no_refusal_def os_Remove_def)
  obtain d3 where d3: "os_Rename ?p (backup_name ?p 1) ?d2 = (True, d3)" "no_refusal d3"
    "files d3 = (files ?d2)(?p := None, backup_name ?p 1 := Some t)"
    using d2(1,2) by (auto simp: os_Rename_def no_refusal_def)
  have "os_Stat ?d2 ?p" "\<not> close_fails w d"
    using d2(1,2) assms(1,2) by (simp_all add: os_Stat_def no_refusal_def close_fails_def log_ok_def)
  then have "open_log (w\<lparr>w_file := NilFile\<rparr>) d3 = (e, w', d')"
    using assms(3) d3(1) by (simp add: rotate_def Let_def)
  from open_log_ok [OF d3(2) _ this] assms(2) d3(3)
  have r: "e = None" "w' = w\<lparr>w_file := OpenedFile, w_size := 0\<rparr>" "d' = d3\<lparr>files := (files d3)(?p \<mapsto> [])\<rparr>"
    by (simp_all add: log_ok_def text_of_def)
  then show "e = None" "w' = w\<lparr>w_size := 0\<rparr>" "no_refusal d'" "files d' ?p = Some []"
    "files d' (backup_name ?p 1) = files d ?p"
    using assms(2) t d3 by (auto simp: log_ok_def no_refusal_def)
  show "files d' (backup_name ?p k) = files d (backup_name ?p (k - 1))" if "1 < k" "k \<le> w_backups w"
    using that r(3) d3(3) d2(4) assms(1) by (simp add: shift_backups_files(1))
qed

section \<open>What the log keeps\<close>

text \<open>The text of the backups from the oldest to the newest, then of the file.\<close>

definition backup_text :: "string \<Rightarrow> disk \<Rightarrow> nat \<Rightarrow> string" where
  "backup_text path d k = text_of (files d (backup_name path (int k)))"

definition kept :: "string \<Rightarrow> nat \<Rightarrow> disk \<Rightarrow> string" where
  "kept path n d = concat (map (backup_text path d) (rev [1..<Suc n])) @ text_of (files d path)"

lemma kept_rotate:
  assumes "no_refusal d" "log_ok w d" "rotate w d = (e, w', d')"
  shows "kept (w_path w) (nat (w_backups w)) d =
    backup_text (w_path w) d (nat (w_backups w)) @ kept (w_path w) (nat (w_backups w)) d'"
proof -
  let ?p = "w_path w" and ?n = "nat (w_backups w)"
  note r = rotate_ok [OF assms]
  have "1 \<le> w_backups w" using assms(2) by (simp add: log_ok_def)
  then have n: "1 \<le> ?n" by linarith
  have shifted: "map (backup_text ?p d') (rev [2..<Suc ?n]) = map (backup_text ?p d) (rev [1..<?n])"
  proof -
    have "backup_text ?p d' (Suc k) = backup_text ?p d k" if "1 \<le> k" "k < ?n" for k
      using r(6) [of "int (Suc k)"] that by (simp add: backup_text_def)
    then have "map (\<lambda>k. backup_text ?p d' (Suc k)) [1..<?n] = map (backup_text ?p d) [1..<?n]"
      by simp
    moreover have "[2..<Suc ?n] = map Suc [1..<?n]" by (simp add: map_Suc_upt numeral_2_eq_2)
    ultimately have "map (backup_text ?p d') [2..<Suc ?n] = map (backup_text ?p d) [1..<?n]"
      by (simp add: comp_def del: upt_Suc)
    then show ?thesis by (metis rev_map)
  qed
  have "[1..<Suc ?n] = 1 # [Suc 1..<Suc ?n]" using n by (intro upt_conv_Cons) simp
  then have first: "rev [1..<Suc ?n] = rev [2..<Suc ?n] @ [1]"
    by (simp only: rev.simps numeral_2_eq_2 One_nat_def)
  have last: "rev [1..<Suc ?n] = ?n # rev [1..<?n]" using n by simp
  have "kept ?p ?n d = backup_text ?p d ?n @ concat (map (backup_text ?p d) (rev [1..<?n])) @ text_of (files d ?p)"
    unfolding kept_def last by simp
  moreover have "kept ?p ?n d' = concat (map (backup_text ?p d) (rev [1..<?n])) @ text_of (files d ?p)"
    unfolding kept_def first using r(4,5) shifted by (simp add: backup_text_def text_of_def)
  ultimately show ?thesis by simp
qed

lemma Write_ok:
  assumes "no_refusal d" "log_ok w d" "w_size w + int (length p) \<le> int64_max"
    and "int (length p) \<le> int64_max" "Write p w d = (r, w', d')"
  shows "r = Inr (int (length p))" "no_refusal d'" "log_ok w' d'"
    "w' = w\<lparr>w_size := (if w_size w + int (length p) > w_maxSize w then 0 else w_size w) + int (length p)\<rparr>"
    "suffix (kept (w_path w) (nat (w_backups w)) d') (kept (w_path w) (nat (w_backups w)) d @ p)"
    "files d' (w_path w) =
       Some ((if w_size w + int (length p) > w_maxSize w then [] else text_of (files d (w_path w))) @ p)"
proof -
  let ?p = "w_path w" and ?n = "nat (w_backups w)"
  have open_w: "w_file w = OpenedFile" "0 \<le> w_size w" using assms(2) by (auto simp: log_ok_def)
  then have fits: "wrap64 (w_size w + int (length p)) = w_size w + int (length p)"
    "wrap64 (int (length p)) = int (length p)"
    using assms(3,4) by (simp_all add: wrap64_id int64_min_def)
  obtain e w1 d1 where mid: "(if wrap64 (w_size w + int (length p)) > w_maxSize w then rotate w d else (None, w, d)) = (e, w1, d1)"
    by (metis prod_cases3)
  have step: "e = None" "no_refusal d1" "log_ok w1 d1"
    "w1 = w\<lparr>w_size := (if w_size w + int (length p) > w_maxSize w then 0 else w_size w)\<rparr>"
    "suffix (kept ?p ?n d1) (kept ?p ?n d)"
  proof -
    show "e = None" "no_refusal d1"
      "w1 = w\<lparr>w_size := (if w_size w + int (length p) > w_maxSize w then 0 else w_size w)\<rparr>"
      "suffix (kept ?p ?n d1) (kept ?p ?n d)"
      using mid assms(1,2) fits rotate_ok [of d w e w1 d1] kept_rotate [of d w e w1 d1]
      by (auto simp: suffix_def split: if_splits)
    show "log_ok w1 d1"
      using mid assms(1,2) rotate_ok [of d w e w1 d1] by (auto simp: log_ok_def split: if_splits)
  qed
  obtain t where t: "files d1 ?p = Some t" "w_size w1 = int (length t)"
    using step(3,4) by (auto simp: log_ok_def)
  have "append_file w1 p d1 = (True, length p, d1\<lparr>files := (files d1)(?p \<mapsto> t @ p)\<rparr>)"
    using step t open_w by (simp add: append_file_def text_of_def no_refusal_def)
  then have w': "r = Inr (int (length p))" "w' = w1\<lparr>w_size := wrap64 (w_size w1 + int (length p))\<rparr>"
    "d' = d1\<lparr>files := (files d1)(?p \<mapsto> t @ p)\<rparr>"
    using assms(5) open_w(1) mid step(1) by (auto simp: Write_def Let_def)
  have "t = (if w_size w + int (length p) > w_maxSize w then [] else text_of (files d ?p))"
    using mid t(1) fits rotate_ok(4) [OF assms(1,2), of e w1 d1] by (auto simp: text_of_def split: if_splits)
  then show "files d' ?p =
       Some ((if w_size w + int (length p) > w_maxSize w then [] else text_of (files d ?p)) @ p)"
    using w'(3) by simp
  have size: "wrap64 (w_size w1 + int (length p)) = w_size w1 + int (length p)"
    using fits step(4) by (simp split: if_splits)
  show "r = Inr (int (length p))" "no_refusal d'" "log_ok w' d'"
    "w' = w\<lparr>w_size := (if w_size w + int (length p) > w_maxSize w then 0 else w_size w) + int (length p)\<rparr>"
    using w' size step t by (simp_all add: no_refusal_def log_ok_def)
  have "backup_text ?p d' = backup_text ?p d1"
    using w'(3) by (simp add: fun_eq_iff backup_text_def)
  then have "kept ?p ?n d' = kept ?p ?n d1 @ p"
    using w'(3) t(1) by (simp add: kept_def text_of_def)
  with step(5) show "suffix (kept ?p ?n d') (kept ?p ?n d @ p)"
    by (auto simp: suffix_def)
qed

fun write_all :: "string list \<Rightarrow> RotatingWriter \<Rightarrow> disk \<Rightarrow> RotatingWriter \<times> disk" where
  "write_all [] w d = (w, d)"
| "write_all (p # ps) w d = (case Write p w d of (r, w', d') \<Rightarrow> write_all ps w' d')"

lemma write_all_ok:
  assumes "no_refusal d" "log_ok w d" "w_size w \<le> M" "w_maxSize w \<le> M" "2 * M \<le> int64_max"
    and "\<forall>p \<in> set ps. int (length p) \<le> M" "write_all ps w d = (w', d')"
  shows "log_ok w' d' \<and> w_path w' = w_path w \<and> w_size w' \<le> M
    \<and> suffix (kept (w_path w) (nat (w_backups w)) d') (kept (w_path w) (nat (w_backups w)) d @ concat ps)"
  using assms
proof (induction ps arbitrary: w d)
  case (Cons p ps)
  obtain r w1 d1 where w1: "Write p w d = (r, w1, d1)" by (metis prod_cases3)
  have "0 \<le> w_size w" using Cons.prems(2) by (auto simp: log_ok_def)
  then have bounds: "w_size w + int (length p) \<le> int64_max" "int (length p) \<le> int64_max"
    using Cons.prems(3,5,6) by auto
  note step = Write_ok [OF Cons.prems(1,2) bounds w1]
  have "w_size w1 \<le> M" "w_maxSize w1 \<le> M" using step(4) Cons.prems(4,6) by auto
  then have "log_ok w' d' \<and> w_path w' = w_path w1 \<and> w_size w' \<le> M
      \<and> suffix (kept (w_path w1) (nat (w_backups w1)) d') (kept (w_path w1) (nat (w_backups w1)) d1 @ concat ps)"
    using Cons.prems(5,6,7) step w1 by (intro Cons.IH) auto
  moreover have "suffix (kept (w_path w) (nat (w_backups w)) d1 @ concat ps)
      (kept (w_path w) (nat (w_backups w)) d @ concat (p # ps))"
    using step(5) by (auto simp: suffix_def)
  ultimately show ?case using step(4) by (auto intro: suffix_order.order_trans)
qed simp


section \<open>Properties\<close>

text \<open>
  When the system refuses nothing, a rotation shifts the backups by one: the log
  becomes backup 1, backup k becomes k + 1, the oldest is dropped, and the writer goes on with
  an empty file.
\<close>

theorem log_rotation_shifts:
  assumes "no_refusal d" "log_ok w d" "rotate w d = (e, w', d')"
  shows "e = None \<and> w' = w\<lparr>w_size := 0\<rparr> \<and> files d' (w_path w) = Some []
    \<and> files d' (backup_name (w_path w) 1) = files d (w_path w)
    \<and> (\<forall>k. 1 < k \<and> k \<le> w_backups w \<longrightarrow>
         files d' (backup_name (w_path w) k) = files d (backup_name (w_path w) (k - 1)))"
  using rotate_ok [OF assms] by simp

definition example_disk :: disk where
  "example_disk = \<lparr>files = [''log'' \<mapsto> ''abc'', ''log.1'' \<mapsto> ''old''], refused = \<lambda>op path. False, torn = Map.empty\<rparr>"

definition example_writer :: RotatingWriter where
  "example_writer = \<lparr>w_path = ''log'', w_maxSize = 4, w_backups = 2, w_file = OpenedFile, w_size = 3\<rparr>"

lemma example_log: "no_refusal example_disk" "log_ok example_writer example_disk"
  by (simp_all add: no_refusal_def log_ok_def example_disk_def example_writer_def)

theorem log_rotation_shifts_witness:
  "files (snd (snd (rotate example_writer example_disk))) (backup_name ''log'' 1) = Some ''abc''"
  using log_rotation_shifts [OF example_log, of "fst (rotate example_writer example_disk)"
      "fst (snd (rotate example_writer example_disk))" "snd (snd (rotate example_writer example_disk))"]
  by (simp add: example_writer_def example_disk_def)

text \<open>
  Property C19: however many messages are written, the log file stays within the larger of its
  maximum size and the longest message, the writer keeps count of it, and the backups with
  the file hold the end of everything written: what a rotation drops is the oldest text, and
  no message in between is lost or cut.
\<close>

theorem log_keeps_newest:
  assumes "no_refusal d" "log_ok w d" "w_size w \<le> M" "w_maxSize w \<le> M" "2 * M \<le> int64_max"
    and "\<forall>p \<in> set ps. int (length p) \<le> M" "write_all ps w d = (w', d')"
  shows "(\<exists>t. files d' (w_path w) = Some t \<and> int (length t) \<le> M \<and> w_size w' = int (length t))
    \<and> suffix (kept (w_path w) (nat (w_backups w)) d') (kept (w_path w) (nat (w_backups w)) d @ concat ps)"
  using write_all_ok [OF assms] by (auto simp: log_ok_def)

theorem log_keeps_newest_witness:
  "suffix (kept ''log'' 2 (snd (write_all [''de'', ''fgh''] example_writer example_disk)))
     (kept ''log'' 2 example_disk @ ''defgh'')"
  using log_keeps_newest [OF example_log, of 4 "[''de'', ''fgh'']"
      "fst (write_all [''de'', ''fgh''] example_writer example_disk)"
      "snd (write_all [''de'', ''fgh''] example_writer example_disk)"]
  by (simp add: example_writer_def int64_max_def)

text \<open>
  One refused rename ends the log. A rotation that cannot rename the file leaves
  the writer without a file, and every later write fails, also when the file can be renamed
  and written again.
\<close>

theorem failed_rename_ends_log:
  assumes "w_file w = OpenedFile" "\<not> refused d OpClose (w_path w)" "refused d OpRename (w_path w)"
    and "os_Stat d (w_path w)" "w_maxSize w < wrap64 (w_size w + int (length p))"
    and "Write p w d = (r, w', d')"
  shows "r = Inl LogRename \<and> (\<forall>q d2. Write q w' d2 = (Inl LogClosed, w', d2))"
proof -
  let ?p = "w_path w"
  let ?d1 = "shift_backups ?p (w_backups w - 1) d"
  let ?d2 = "snd (os_Remove (backup_name ?p 1) ?d1)"
  have "files ?d1 ?p = files d ?p" by (rule shift_backups_path)
  then have "os_Stat ?d2 ?p" "refused ?d2 OpRename ?p"
    using assms(3,4) by (simp_all add: os_Stat_def) (simp add: os_Remove_def)
  then have "rotate w d = (Some LogRename, w\<lparr>w_file := NilFile\<rparr>, ?d2)"
    using assms(1,2) by (simp add: rotate_def close_fails_def Let_def os_Rename_def)
  then show ?thesis using assms(1,5,6) by (auto simp: Write_def)
qed

theorem failed_rename_ends_log_witness:
  "fst (Write ''de'' example_writer (example_disk\<lparr>refused := \<lambda>op path. op = OpRename\<rparr>)) = Inl LogRename"
  using failed_rename_ends_log [of example_writer "example_disk\<lparr>refused := \<lambda>op path. op = OpRename\<rparr>" "''de''"]
  by (cases "Write ''de'' example_writer (example_disk\<lparr>refused := \<lambda>op path. op = OpRename\<rparr>)")
    (simp add: example_writer_def example_disk_def os_Stat_def wrap64_def)

text \<open>
  The size limit overflows. With \<open>log_max_mb\<close> set to 2 to the 43, which \<open>Validate\<close>
  accepts, the limit is negative and every single write rotates: the file holds the last
  message only.
\<close>

theorem log_limit_overflows:
  assumes "no_refusal d"
  shows "\<exists>w d'. new_log dir path 8796093022208 backups d = (Inr w, d')
    \<and> (\<forall>p. w_size w + int (length p) \<le> int64_max \<longrightarrow>
         (\<exists>w2 d2. Write p w d' = (Inr (int (length p)), w2, d2) \<and> files d2 path = Some p))"
proof -
  define w where "w = \<lparr>w_path = path, w_maxSize = int64_min,
    w_backups = (if backups < 1 then 5 else backups), w_file = NilFile, w_size = 0\<rparr>"
  obtain e w' d' where w': "open_log w d = (e, w', d')" by (metis prod_cases3)
  have "1 \<le> w_backups w" by (simp add: w_def)
  note opened = open_log_ok [OF assms this w']
  have "wrap64 (wrap64 (8796093022208 * 1024) * 1024) = int64_min"
    by (simp add: wrap64_def int64_min_def)
  then have "new_log dir path 8796093022208 backups d = (Inr w', d')"
    using assms w' opened(1) by (simp add: new_log_def os_MkdirAll_def no_refusal_def w_def Let_def)
  moreover have "\<exists>w2 d2. Write p w' d' = (Inr (int (length p)), w2, d2) \<and> files d2 path = Some p"
    if "w_size w' + int (length p) \<le> int64_max" for p
  proof -
    obtain r w2 d2 where r: "Write p w' d' = (r, w2, d2)" by (metis prod_cases3)
    have "no_refusal d'" "log_ok w' d'" "0 \<le> w_size w'" "w_path w' = path" "w_maxSize w' = int64_min"
      using opened assms by (simp_all add: no_refusal_def log_ok_def w_def)
    with Write_ok [OF this(1,2) that _ r] that r show ?thesis by (auto simp: int64_min_def)
  qed
  ultimately show ?thesis by blast
qed

theorem log_limit_overflows_witness:
  "\<exists>w d'. new_log (\<lambda>p. p) ''log'' 8796093022208 3 example_disk = (Inr w, d')"
  using log_limit_overflows [OF example_log(1), of "\<lambda>p. p" "''log''" 3] by blast

end
