(* ===== verification/ConfigFile.thy ===== *)
theory ConfigFile
  imports Config Files "HOL-Library.Char_ord" "HOL-Library.List_Lexorder"
begin

text \<open>
  The configuration file: \<open>Load\<close> of \<open>internal/config/config.go\<close> and \<open>persistVideoConfig\<close> of
  \<open>internal/capture/capture.go\<close>. The reader and the writer of JSON texts are those of
  \<open>encoding/json\<close> and stay parameters; what \<open>Unmarshal\<close> does with a JSON value is modelled: how
  it fills the struct from the fields of an object, and how it fills a map.
\<close>

section \<open>JSON values\<close>

text \<open>A number is kept as its literal; an object keeps its members in the order of the text.\<close>

datatype jval =
    JNull
  | JBool bool
  | JNum string
  | JStr string
  | JArr "jval list"
  | JObj "(string \<times> jval) list"

text \<open>
  The library: \<open>json_parse\<close> reads a text (\<^const>\<open>None\<close>: a syntax error), \<open>json_print\<close> is
  \<open>MarshalIndent\<close> of a value, and \<open>float_text\<close> is what becomes of a number literal that is
  decoded into a \<open>float64\<close> and written again (\<^const>\<open>None\<close>: out of range).
\<close>

record jsonlib =
  json_parse :: "string \<Rightarrow> jval option"
  json_print :: "jval \<Rightarrow> string"
  float_text :: "string \<Rightarrow> string option"

section \<open>Into the struct\<close>

datatype field_setter =
    FStr "string \<Rightarrow> config \<Rightarrow> config"
  | FInt "int \<Rightarrow> config \<Rightarrow> config"
  | FBool "bool \<Rightarrow> config \<Rightarrow> config"

definition config_fields :: "(string \<times> field_setter) list" where
  "config_fields =
    [(''device_name'', FStr (\<lambda>v c. c\<lparr>DeviceName := v\<rparr>)),
     (''manufacturer'', FStr (\<lambda>v c. c\<lparr>Manufacturer := v\<rparr>)),
     (''model'', FStr (\<lambda>v c. c\<lparr>Model := v\<rparr>)),
     (''serial_number'', FStr (\<lambda>v c. c\<lparr>SerialNumber := v\<rparr>)),
     (''firmware_version'', FStr (\<lambda>v c. c\<lparr>FirmwareVersion := v\<rparr>)),
     (''advertise_ip'', FStr (\<lambda>v c. c\<lparr>AdvertiseIP := v\<rparr>)),
     (''onvif_port'', FInt (\<lambda>v c. c\<lparr>ONVIFPort := v\<rparr>)),
     (''rtsp_port'', FInt (\<lambda>v c. c\<lparr>RTSPPort := v\<rparr>)),
     (''rtsp_path'', FStr (\<lambda>v c. c\<lparr>RTSPPath := v\<rparr>)),
     (''substream_enabled'', FBool (\<lambda>v c. c\<lparr>SubstreamEnabled := v\<rparr>)),
     (''substream_path'', FStr (\<lambda>v c. c\<lparr>SubstreamPath := v\<rparr>)),
     (''substream_fps'', FInt (\<lambda>v c. c\<lparr>SubstreamFPS := v\<rparr>)),
     (''substream_width'', FInt (\<lambda>v c. c\<lparr>SubstreamWidth := v\<rparr>)),
     (''substream_height'', FInt (\<lambda>v c. c\<lparr>SubstreamHeight := v\<rparr>)),
     (''substream_bitrate'', FStr (\<lambda>v c. c\<lparr>SubstreamBitrate := v\<rparr>)),
     (''snapshot_refresh_ms'', FInt (\<lambda>v c. c\<lparr>SnapshotRefreshMS := v\<rparr>)),
     (''osd_text_file'', FStr (\<lambda>v c. c\<lparr>OSDTextFile := v\<rparr>)),
     (''osd_font_file'', FStr (\<lambda>v c. c\<lparr>OSDFontFile := v\<rparr>)),
     (''osd_font_size'', FInt (\<lambda>v c. c\<lparr>OSDFontSize := v\<rparr>)),
     (''metadata_enabled'', FBool (\<lambda>v c. c\<lparr>MetadataEnabled := v\<rparr>)),
     (''metadata_interval_ms'', FInt (\<lambda>v c. c\<lparr>MetadataIntervalMS := v\<rparr>)),
     (''metadata_payload_type'', FInt (\<lambda>v c. c\<lparr>MetadataPayloadType := v\<rparr>)),
     (''fps'', FInt (\<lambda>v c. c\<lparr>FPS := v\<rparr>)),
     (''width'', FInt (\<lambda>v c. c\<lparr>Width := v\<rparr>)),
     (''height'', FInt (\<lambda>v c. c\<lparr>Height := v\<rparr>)),
     (''offset_x'', FInt (\<lambda>v c. c\<lparr>OffsetX := v\<rparr>)),
     (''offset_y'', FInt (\<lambda>v c. c\<lparr>OffsetY := v\<rparr>)),
     (''video_bitrate'', FStr (\<lambda>v c. c\<lparr>VideoBitrate := v\<rparr>)),
     (''gop_seconds'', FInt (\<lambda>v c. c\<lparr>GOPSeconds := v\<rparr>)),
     (''encoder'', FStr (\<lambda>v c. c\<lparr>Encoder := v\<rparr>)),
     (''recording_enabled'', FBool (\<lambda>v c. c\<lparr>RecordingEnabled := v\<rparr>)),
     (''recording_dir'', FStr (\<lambda>v c. c\<lparr>RecordingDir := v\<rparr>)),
     (''segment_seconds'', FInt (\<lambda>v c. c\<lparr>SegmentSeconds := v\<rparr>)),
     (''retention_days'', FInt (\<lambda>v c. c\<lparr>RetentionDays := v\<rparr>)),
     (''max_recording_gb'', FInt (\<lambda>v c. c\<lparr>MaxRecordingGB := v\<rparr>)),
     (''ffmpeg_path'', FStr (\<lambda>v c. c\<lparr>FFmpegPath := v\<rparr>)),
     (''mediamtx_path'', FStr (\<lambda>v c. c\<lparr>MediaMTXPath := v\<rparr>)),
     (''mediamtx_config'', FStr (\<lambda>v c. c\<lparr>MediaMTXConfig := v\<rparr>)),
     (''log_file'', FStr (\<lambda>v c. c\<lparr>LogFile := v\<rparr>)),
     (''log_max_mb'', FInt (\<lambda>v c. c\<lparr>LogMaxMB := v\<rparr>)),
     (''log_backups'', FInt (\<lambda>v c. c\<lparr>LogBackups := v\<rparr>)),
     (''onvif_username'', FStr (\<lambda>v c. c\<lparr>ONVIFUsername := v\<rparr>)),
     (''onvif_password'', FStr (\<lambda>v c. c\<lparr>ONVIFPassword := v\<rparr>)),
     (''onvif_password_env'', FStr (\<lambda>v c. c\<lparr>ONVIFPasswordEnv := v\<rparr>)),
     (''rtsp_username'', FStr (\<lambda>v c. c\<lparr>RTSPUsername := v\<rparr>)),
     (''rtsp_password'', FStr (\<lambda>v c. c\<lparr>RTSPPassword := v\<rparr>)),
     (''rtsp_password_env'', FStr (\<lambda>v c. c\<lparr>RTSPPasswordEnv := v\<rparr>)),
     (''auth_realm'', FStr (\<lambda>v c. c\<lparr>AuthRealm := v\<rparr>)),
     (''insecure_allow_no_auth'', FBool (\<lambda>v c. c\<lparr>InsecureNoAuth := v\<rparr>))]"

text \<open>A key matches the field of that name, or the one of that name up to case; all names are lower case.\<close>

definition find_field :: "string \<Rightarrow> field_setter option" where
  "find_field k = map_of config_fields (fold_case k)"

text \<open>
  One member: \<open>null\<close> leaves the field, a value of another kind or an integer that does not
  fit is an \<open>UnmarshalTypeError\<close> (\<^const>\<open>None\<close>).
\<close>

fun set_field :: "field_setter \<Rightarrow> jval \<Rightarrow> config \<Rightarrow> config option" where
  "set_field f JNull c = Some c"
| "set_field (FStr f) (JStr s) c = Some (f s c)"
| "set_field (FInt f) (JNum n) c = (case parse_int n of NumOk i \<Rightarrow> Some (f i c) | _ \<Rightarrow> None)"
| "set_field (FBool f) (JBool b) c = Some (f b c)"
| "set_field f v c = None"

definition set_member :: "string \<times> jval \<Rightarrow> config \<Rightarrow> config option" where
  "set_member kv c = (case find_field (fst kv) of None \<Rightarrow> Some c | Some f \<Rightarrow> set_field f (snd kv) c)"

fun set_members :: "(string \<times> jval) list \<Rightarrow> config \<Rightarrow> config option" where
  "set_members [] c = Some c"
| "set_members (kv # kvs) c = Option.bind (set_member kv c) (set_members kvs)"

text \<open>
  \<open>json.Unmarshal(b, &cfg)\<close>. The library goes on after a type error and reports the first one
  at the end; the caller drops the value then, so the model stops at it.
\<close>

fun unmarshal_config :: "jval \<Rightarrow> config \<Rightarrow> config option" where
  "unmarshal_config (JObj kvs) c = set_members kvs c"
| "unmarshal_config JNull c = Some c"
| "unmarshal_config _ c = None"

datatype load_error = LoadRead | LoadParse | LoadInvalid config_error

definition Load ::
  "jsonlib \<Rightarrow> environment \<Rightarrow> string \<Rightarrow> disk \<Rightarrow> (load_error, config) result"
where
  "Load lib env path d =
     (let finish = (\<lambda>c. let c' = apply_env env c in
                        case validate c' of Some e \<Rightarrow> Inl (LoadInvalid e) | None \<Rightarrow> Inr c') in
      if path = [] then finish Default
      else
        (case os_ReadFile d path of
           ReadError \<Rightarrow> Inl LoadRead
         | ReadNotExist \<Rightarrow> finish Default
         | ReadOk b \<Rightarrow>
             (case Option.bind (json_parse lib b) (\<lambda>v. unmarshal_config v Default) of
                None \<Rightarrow> Inl LoadParse
              | Some c \<Rightarrow> finish c)))"

section \<open>Into a map\<close>

text \<open>
  \<open>Unmarshal\<close> into a \<open>map[string]any\<close> and \<open>MarshalIndent\<close> of it: numbers pass through
  \<open>float64\<close>, the last of several equal keys counts, and keys come out sorted.
\<close>

fun insert_key :: "string \<Rightarrow> 'v \<Rightarrow> (string \<times> 'v) list \<Rightarrow> (string \<times> 'v) list" where
  "insert_key k v [] = [(k, v)]"
| "insert_key k v ((k', v') # kvs) =
     (if k = k' then (k, v) # kvs
      else if k < k' then (k, v) # (k', v') # kvs
      else (k', v') # insert_key k v kvs)"

fun any_value :: "jsonlib \<Rightarrow> jval \<Rightarrow> jval option"
  and any_values :: "jsonlib \<Rightarrow> jval list \<Rightarrow> jval list option"
  and any_members :: "jsonlib \<Rightarrow> (string \<times> jval) list \<Rightarrow> (string \<times> jval) list \<Rightarrow> (string \<times> jval) list option"
where
  "any_value lib JNull = Some JNull"
| "any_value lib (JBool b) = Some (JBool b)"
| "any_value lib (JNum n) = map_option JNum (float_text lib n)"
| "any_value lib (JStr s) = Some (JStr s)"
| "any_value lib (JArr vs) = map_option JArr (any_values lib vs)"
| "any_value lib (JObj kvs) = map_option JObj (any_members lib [] kvs)"
| "any_values lib [] = Some []"
| "any_values lib (v # vs) =
     Option.bind (any_value lib v) (\<lambda>v'. map_option (\<lambda>vs'. v' # vs') (any_values lib vs))"
| "any_members lib m [] = Some m"
| "any_members lib m ((k, v) # kvs) =
     Option.bind (any_value lib v) (\<lambda>v'. any_members lib (insert_key k v' m) kvs)"

text \<open>The nine assignments to the map.\<close>

definition video_members :: "config \<Rightarrow> (string \<times> jval) list" where
  "video_members c =
     [(''fps'', JNum (itoa (FPS c))), (''width'', JNum (itoa (Width c))),
      (''height'', JNum (itoa (Height c))), (''video_bitrate'', JStr (VideoBitrate c)),
      (''gop_seconds'', JNum (itoa (GOPSeconds c))), (''substream_fps'', JNum (itoa (SubstreamFPS c))),
      (''substream_width'', JNum (itoa (SubstreamWidth c))),
      (''substream_height'', JNum (itoa (SubstreamHeight c))),
      (''substream_bitrate'', JStr (SubstreamBitrate c))]"

datatype persist_error = PersistRead | PersistParse | PersistNilMap | PersistWrite

text \<open>
  \<open>persistVideoConfig\<close>. A document \<open>null\<close> leaves the map nil, and the first assignment to a
  nil map panics.
\<close>

definition persistVideoConfig ::
  "jsonlib \<Rightarrow> string \<Rightarrow> config \<Rightarrow> disk \<Rightarrow> persist_error option \<times> disk"
where
  "persistVideoConfig lib path c d =
     (case os_ReadFile d path of
        ReadError \<Rightarrow> (Some PersistRead, d)
      | ReadNotExist \<Rightarrow> (Some PersistRead, d)
      | ReadOk b \<Rightarrow>
          (case json_parse lib b of
             Some JNull \<Rightarrow> (Some PersistNilMap, d)
           | Some (JObj kvs) \<Rightarrow>
               (case any_members lib [] kvs of
                  None \<Rightarrow> (Some PersistParse, d)
                | Some doc \<Rightarrow>
                    let doc' = fold (\<lambda>(k, v). insert_key k v) (video_members c) doc;
                        out = json_print lib (JObj doc') @ [CHR 0x0A]
                    in (case os_WriteFile path out d of
                          (False, d') \<Rightarrow> (Some PersistWrite, d')
                        | (True, d') \<Rightarrow> (None, d')))
           | _ \<Rightarrow> (Some PersistParse, d)))"


section \<open>The fields as a list\<close>

text \<open>Setting a field is updating one position of the list of all values, so settings of different fields commute.\<close>

datatype fval = VStr string | VInt int | VBool bool

definition config_values :: "config \<Rightarrow> fval list" where
  "config_values c =
    [VStr (DeviceName c), VStr (Manufacturer c), VStr (Model c), VStr (SerialNumber c), VStr
     (FirmwareVersion c), VStr (AdvertiseIP c), VInt (ONVIFPort c), VInt (RTSPPort c), VStr
     (RTSPPath c), VBool (SubstreamEnabled c), VStr (SubstreamPath c), VInt (SubstreamFPS c), VInt
     (SubstreamWidth c), VInt (SubstreamHeight c), VStr (SubstreamBitrate c), VInt
     (SnapshotRefreshMS c), VStr (OSDTextFile c), VStr (OSDFontFile c), VInt (OSDFontSize c), VBool
     (MetadataEnabled c), VInt (MetadataIntervalMS c), VInt (MetadataPayloadType c), VInt (FPS c),
     VInt (Width c), VInt (Height c), VInt (OffsetX c), VInt (OffsetY c), VStr (VideoBitrate c),
     VInt (GOPSeconds c), VStr (Encoder c), VBool (RecordingEnabled c), VStr (RecordingDir c), VInt
     (SegmentSeconds c), VInt (RetentionDays c), VInt (MaxRecordingGB c), VStr (FFmpegPath c), VStr
     (MediaMTXPath c), VStr (MediaMTXConfig c), VStr (LogFile c), VInt (LogMaxMB c), VInt
     (LogBackups c), VStr (ONVIFUsername c), VStr (ONVIFPassword c), VStr (ONVIFPasswordEnv c), VStr
     (RTSPUsername c), VStr (RTSPPassword c), VStr (RTSPPasswordEnv c), VStr (AuthRealm c), VBool
     (InsecureNoAuth c)]"

lemma config_values_inj: "config_values c = config_values d \<Longrightarrow> c = d"
  by (rule config.equality) (simp_all add: config_values_def)

lemma length_config_values [simp]: "length (config_values c) = 49"
  by (simp add: config_values_def)

fun sets_at :: "nat \<Rightarrow> field_setter \<Rightarrow> bool" where
  "sets_at i (FStr f) = (\<forall>v c. config_values (f v c) = (config_values c)[i := VStr v])"
| "sets_at i (FInt f) = (\<forall>v c. config_values (f v c) = (config_values c)[i := VInt v])"
| "sets_at i (FBool f) = (\<forall>v c. config_values (f v c) = (config_values c)[i := VBool v])"

lemma setters: "list_all (\<lambda>(i, f). sets_at i f) (enumerate 0 (map snd config_fields))"
  by (simp add: config_fields_def config_values_def)

lemma distinct_field_names: "distinct (map fst config_fields)"
  by (simp add: config_fields_def)


fun decode_fval :: "field_setter \<Rightarrow> jval \<Rightarrow> fval option option" where
  "decode_fval f JNull = Some None"
| "decode_fval (FStr f) (JStr s) = Some (Some (VStr s))"
| "decode_fval (FInt f) (JNum n) = (case parse_int n of NumOk i \<Rightarrow> Some (Some (VInt i)) | _ \<Rightarrow> None)"
| "decode_fval (FBool f) (JBool b) = Some (Some (VBool b))"
| "decode_fval f v = None"

fun put_field :: "field_setter \<Rightarrow> fval \<Rightarrow> config \<Rightarrow> config" where
  "put_field (FStr f) (VStr s) c = f s c"
| "put_field (FInt f) (VInt i) c = f i c"
| "put_field (FBool f) (VBool b) c = f b c"
| "put_field f x c = c"

lemma set_field_eq:
  "set_field f v c = map_option (\<lambda>x. case x of None \<Rightarrow> c | Some y \<Rightarrow> put_field f y c) (decode_fval f v)"
  by (cases "(f, v)" rule: decode_fval.cases) (auto split: num_result.splits)

lemma put_field_values:
  assumes "sets_at i f" "decode_fval f v = Some (Some x)"
  shows "config_values (put_field f x c) = (config_values c)[i := x]"
  using assms by (cases "(f, v)" rule: decode_fval.cases) (auto split: num_result.splits)

lemma find_field_at:
  assumes "find_field k = Some f"
  obtains i where "i < 49" "sets_at i f" "fst (config_fields ! i) = fold_case k"
proof -
  have "(fold_case k, f) \<in> set config_fields" using assms by (auto simp: find_field_def dest: map_of_SomeD)
  then obtain i where i: "i < length config_fields" "config_fields ! i = (fold_case k, f)"
    by (auto simp: in_set_conv_nth)
  then have "sets_at i f"
    using setters by (auto simp: list_all_length nth_enumerate_eq)
  moreover have "length config_fields = 49" by (simp add: config_fields_def)
  ultimately show ?thesis using i that by simp
qed

text \<open>Keys that name a field exactly, or no field at all.\<close>

definition plain_key :: "string \<Rightarrow> bool" where
  "plain_key k \<longleftrightarrow> find_field k = None \<or> fold_case k = k"

lemma put_field_commute:
  assumes "find_field k = Some f" "find_field l = Some g" "plain_key k" "plain_key l" "k \<noteq> l"
    and "decode_fval f v = Some (Some x)" "decode_fval g w = Some (Some y)"
  shows "put_field f x (put_field g y c) = put_field g y (put_field f x c)"
proof -
  obtain i where i: "i < 49" "sets_at i f" "fst (config_fields ! i) = fold_case k"
    using assms(1) by (rule find_field_at)
  obtain j where j: "j < 49" "sets_at j g" "fst (config_fields ! j) = fold_case l"
    using assms(2) by (rule find_field_at)
  have "i \<noteq> j" using i(3) j(3) assms(1-5) by (auto simp: plain_key_def)
  then show ?thesis
    by (intro config_values_inj)
      (simp add: put_field_values [OF i(2) assms(6)] put_field_values [OF j(2) assms(7)] list_update_swap)
qed

lemma put_field_twice:
  assumes "find_field k = Some f" "decode_fval f v = Some (Some x)" "decode_fval f w = Some (Some y)"
  shows "put_field f x (put_field f y c) = put_field f x c"
proof -
  obtain i where "sets_at i f" using assms(1) by (rule find_field_at)
  then show ?thesis
    by (intro config_values_inj) (simp add: put_field_values [OF _ assms(2)] put_field_values [OF _ assms(3)])
qed

lemma set_member_commute:
  assumes "plain_key (fst a)" "plain_key (fst b)" "fst a \<noteq> fst b"
  shows "Option.bind (set_member a c) (set_member b) = Option.bind (set_member b c) (set_member a)"
  using assms put_field_commute [of "fst b" _ "fst a"]
  by (auto simp: set_member_def set_field_eq map_option_case split: option.splits)

lemma set_members_commute:
  assumes "plain_key k" "\<forall>l \<in> fst ` set m. plain_key l" "k \<notin> fst ` set m"
  shows "Option.bind (set_member (k, v) c) (set_members m) = Option.bind (set_members m c) (set_member (k, v))"
  using assms(2,3)
proof (induction m arbitrary: c)
  case (Cons kv m)
  have "Option.bind (set_member (k, v) c) (set_members (kv # m))
      = Option.bind (Option.bind (set_member (k, v) c) (set_member kv)) (set_members m)"
    by (cases "set_member (k, v) c") simp_all
  also have "\<dots> = Option.bind (Option.bind (set_member kv c) (set_member (k, v))) (set_members m)"
    using Cons.prems assms(1) by (simp add: set_member_commute [of "(k, v)" kv])
  also have "\<dots> = Option.bind (set_members (kv # m) c) (set_member (k, v))"
    using Cons by (cases "set_member kv c") simp_all
  finally show ?case .
next
  case Nil
  show ?case by (cases "set_member (k, v) c") simp_all
qed

text \<open>A member that sets its field, whatever was there.\<close>

definition overwrites :: "string \<times> jval \<Rightarrow> bool" where
  "overwrites kv \<longleftrightarrow> (\<exists>f x. find_field (fst kv) = Some f \<and> decode_fval f (snd kv) = Some (Some x))"

lemma set_member_overwrites:
  assumes "overwrites (k, v)" "set_member (k, w) c = Some c'"
  shows "set_member (k, v) c' = set_member (k, v) c"
  using assms put_field_twice [of k]
  by (auto simp: set_member_def set_field_eq overwrites_def split: option.splits)

definition sorted_keys :: "(string \<times> 'v) list \<Rightarrow> bool" where
  "sorted_keys m \<longleftrightarrow> sorted_wrt (<) (map fst m)"

lemma keys_insert [simp]: "fst ` set (insert_key k v m) = insert k (fst ` set m)"
  by (induction k v m rule: insert_key.induct) auto

lemma sorted_insert [intro]: "sorted_keys m \<Longrightarrow> sorted_keys (insert_key k v m)"
proof (induction k v m rule: insert_key.induct)
  case (2 k v k' v' kvs)
  then have "\<forall>l \<in> fst ` set (insert_key k v kvs). k' < l" if "k' < k"
    using that by (auto simp: sorted_keys_def)
  with 2 show ?case by (auto simp: sorted_keys_def)
qed (simp add: sorted_keys_def)

text \<open>Inserting a member into a sorted object comes to setting it last.\<close>

lemma set_members_insert:
  assumes "sorted_keys m" "\<forall>l \<in> fst ` set m. plain_key l" "plain_key k"
    and "k \<notin> fst ` set m \<or> overwrites (k, v)" "set_members m c = Some c'"
  shows "set_members (insert_key k v m) c = set_member (k, v) c'"
  using assms(1,2,4,5)
proof (induction m arbitrary: c)
  case (Cons kv m)
  obtain l w where kv: "kv = (l, w)" by (cases kv)
  obtain c1 where c1: "set_member (l, w) c = Some c1" "set_members m c1 = Some c'"
    using Cons.prems(4) kv by (cases "set_member (l, w) c") auto
  have m: "sorted_keys m" "\<forall>k \<in> fst ` set m. plain_key k" "\<forall>k \<in> fst ` set m. l < k"
    using Cons.prems(1,2) kv by (auto simp: sorted_keys_def)
  consider "k = l" | "k < l" | "l < k" by fastforce
  then show ?case
  proof cases
    case 1
    then have "set_member (k, v) c = set_member (k, v) c1" "k \<notin> fst ` set m"
      using Cons.prems(3) c1(1) kv m(3) set_member_overwrites by auto
    then show ?thesis
      using set_members_commute [OF assms(3) m(2), of v c1] c1(2) 1 kv by simp
  next
    case 2
    then have "k \<notin> fst ` set (kv # m)" using m(3) kv by auto
    with set_members_commute [OF assms(3) Cons.prems(2) this, of v c] 2 c1 kv
    show ?thesis by simp
  next
    case 3
    then show ?thesis using Cons.IH [OF m(1,2) _ c1(2)] Cons.prems(3) c1(1) kv by auto
  qed
qed (cases "set_member (k, v) c'", simp_all)

section \<open>A document and its map\<close>

text \<open>The integers of the document survive \<open>float64\<close>, as they do up to 2 to the 53.\<close>

definition ints_survive :: "jsonlib \<Rightarrow> (string \<times> jval) list \<Rightarrow> bool" where
  "ints_survive lib kvs \<longleftrightarrow>
     list_all (\<lambda>kv. case snd kv of
        JNum n \<Rightarrow> (case (parse_int n, float_text lib n) of
                     (NumOk i, Some n') \<Rightarrow> parse_int n' = NumOk i
                   | _ \<Rightarrow> True)
      | _ \<Rightarrow> True) kvs"

lemma any_value_same:
  assumes "any_value lib v = Some v'" "ints_survive lib [(k, v)]" "set_member (k, v) c = Some c'"
  shows "set_member (k, v') c = Some c'"
proof (cases "find_field k")
  case (Some f)
  then show ?thesis
    using assms by (cases "(f, v)" rule: decode_fval.cases)
      (auto simp: set_member_def ints_survive_def split: num_result.splits)
qed (use assms(3) in \<open>simp add: set_member_def\<close>)

lemma any_members_same:
  assumes "any_members lib m kvs = Some doc" "ints_survive lib kvs" "distinct (map fst kvs)"
    and "fst ` set m \<inter> fst ` set kvs = {}" "sorted_keys m" "\<forall>k \<in> fst ` set m \<union> fst ` set kvs. plain_key k"
    and "set_members m c = Some c1" "set_members kvs c1 = Some c2"
  shows "set_members doc c = Some c2 \<and> sorted_keys doc \<and> (\<forall>k \<in> fst ` set doc. plain_key k)"
  using assms
proof (induction kvs arbitrary: m c1)
  case (Cons kv kvs)
  obtain k v where kv: "kv = (k, v)" by (cases kv)
  obtain v' where v': "any_value lib v = Some v'" "any_members lib (insert_key k v' m) kvs = Some doc"
    using Cons.prems(1) kv by (cases "any_value lib v") auto
  obtain c3 where c3: "set_member (k, v) c1 = Some c3" "set_members kvs c3 = Some c2"
    using Cons.prems(8) kv by (cases "set_member (k, v) c1") auto
  have "set_member (k, v') c1 = Some c3"
    using any_value_same [OF v'(1) _ c3(1)] Cons.prems(2) kv by (simp add: ints_survive_def)
  moreover have "k \<notin> fst ` set m" "plain_key k" using Cons.prems(4,6) kv by auto
  ultimately have "set_members (insert_key k v' m) c = Some c3"
    using Cons.prems(5,6,7) by (subst set_members_insert) auto
  moreover have "ints_survive lib kvs" "distinct (map fst kvs)" using Cons.prems(2,3) by (simp_all add: ints_survive_def)
  moreover have "fst ` set (insert_key k v' m) \<inter> fst ` set kvs = {}" using Cons.prems(3,4) kv by auto
  ultimately show ?case
    using Cons.prems(5,6) v'(2) c3(2) kv by (intro Cons.IH) auto
qed auto


section \<open>The video fields\<close>

text \<open>The nine assignments of \<open>UpdateConfig\<close> to the running configuration.\<close>

definition copy_video :: "config \<Rightarrow> config \<Rightarrow> config" where
  "copy_video v c = c\<lparr>FPS := FPS v, Width := Width v, Height := Height v, VideoBitrate := VideoBitrate v,
     GOPSeconds := GOPSeconds v, SubstreamFPS := SubstreamFPS v, SubstreamWidth := SubstreamWidth v,
     SubstreamHeight := SubstreamHeight v, SubstreamBitrate := SubstreamBitrate v\<rparr>"

text \<open>Machine integers.\<close>

definition video_int64 :: "config \<Rightarrow> bool" where
  "video_int64 c \<longleftrightarrow> list_all (\<lambda>i. int64_min \<le> i \<and> i \<le> int64_max)
     [FPS c, Width c, Height c, GOPSeconds c, SubstreamFPS c, SubstreamWidth c, SubstreamHeight c]"

lemma video_keys:
  "fold_case ''fps'' = ''fps''" "fold_case ''width'' = ''width''" "fold_case ''height'' = ''height''"
  "fold_case ''video_bitrate'' = ''video_bitrate''" "fold_case ''gop_seconds'' = ''gop_seconds''"
  "fold_case ''substream_fps'' = ''substream_fps''" "fold_case ''substream_width'' = ''substream_width''"
  "fold_case ''substream_height'' = ''substream_height''" "fold_case ''substream_bitrate'' = ''substream_bitrate''"
  by code_simp+

lemma video_fields:
  "find_field ''fps'' = Some (FInt (\<lambda>v c. c\<lparr>FPS := v\<rparr>))"
  "find_field ''width'' = Some (FInt (\<lambda>v c. c\<lparr>Width := v\<rparr>))"
  "find_field ''height'' = Some (FInt (\<lambda>v c. c\<lparr>Height := v\<rparr>))"
  "find_field ''video_bitrate'' = Some (FStr (\<lambda>v c. c\<lparr>VideoBitrate := v\<rparr>))"
  "find_field ''gop_seconds'' = Some (FInt (\<lambda>v c. c\<lparr>GOPSeconds := v\<rparr>))"
  "find_field ''substream_fps'' = Some (FInt (\<lambda>v c. c\<lparr>SubstreamFPS := v\<rparr>))"
  "find_field ''substream_width'' = Some (FInt (\<lambda>v c. c\<lparr>SubstreamWidth := v\<rparr>))"
  "find_field ''substream_height'' = Some (FInt (\<lambda>v c. c\<lparr>SubstreamHeight := v\<rparr>))"
  "find_field ''substream_bitrate'' = Some (FStr (\<lambda>v c. c\<lparr>SubstreamBitrate := v\<rparr>))"
  unfolding find_field_def video_keys by (simp_all add: config_fields_def)

lemma video_members_overwrite:
  assumes "video_int64 c" "kv \<in> set (video_members c)"
  shows "overwrites kv \<and> plain_key (fst kv)"
  using assms by (auto simp: video_members_def overwrites_def video_fields plain_key_def video_keys
      video_int64_def atoi_itoa [unfolded atoi_def] simp del: fold_case.simps)

lemma set_members_fold:
  assumes "sorted_keys m" "\<forall>l \<in> fst ` set m. plain_key l" "set_members m c = Some c1"
    and "\<forall>kv \<in> set kvs. overwrites kv \<and> plain_key (fst kv)" "set_members kvs c1 = Some c2"
  shows "set_members (fold (\<lambda>(k, v). insert_key k v) kvs m) c = Some c2"
  using assms
proof (induction kvs arbitrary: m c1)
  case (Cons kv kvs)
  obtain k v where kv: "kv = (k, v)" by (cases kv)
  obtain c3 where c3: "set_member (k, v) c1 = Some c3" "set_members kvs c3 = Some c2"
    using Cons.prems(5) kv by (cases "set_member (k, v) c1") auto
  have "set_members (insert_key k v m) c = Some c3"
    using set_members_insert [OF Cons.prems(1,2)] Cons.prems(3,4) c3(1) kv by auto
  moreover have "\<forall>l \<in> fst ` set (insert_key k v m). plain_key l" using Cons.prems(2,4) kv by simp
  ultimately show ?case using Cons.prems(1,4) kv c3(2) by (auto intro!: Cons.IH simp del: keys_insert)
qed simp

lemma set_video_members:
  assumes "video_int64 c"
  shows "set_members (video_members c) c1 = Some (copy_video c c1)"
  using assms by (simp add: video_members_def set_member_def video_fields video_int64_def
      atoi_itoa [unfolded atoi_def] copy_video_def)

lemma persisted_config:
  assumes "any_members lib [] kvs = Some doc" "ints_survive lib kvs" "distinct (map fst kvs)"
    and "list_all plain_key (map fst kvs)" "set_members kvs Default = Some c1" "video_int64 c"
  shows "set_members (fold (\<lambda>(k, v). insert_key k v) (video_members c) doc) Default = Some (copy_video c c1)"
proof -
  have "set_members doc Default = Some c1 \<and> sorted_keys doc \<and> (\<forall>k \<in> fst ` set doc. plain_key k)"
    using assms(1-5) by (intro any_members_same) (auto simp: sorted_keys_def list_all_iff)
  then show ?thesis
    using video_members_overwrite [OF assms(6)] set_video_members [OF assms(6)]
    by (intro set_members_fold) auto
qed

lemma apply_env_copy_video: "apply_env env (copy_video v c) = copy_video v (apply_env env c)"
  by (rule config.equality)
    (simp_all add: apply_env_eq copy_video_def resolved_onvif_password_def resolved_rtsp_username_def
      resolved_rtsp_password_def Let_def)


text \<open>
  A failed persist leaves the disk as it was, unless the system broke the write off; without a
  map to write there is no write.
\<close>

lemma persist_failed:
  "persistVideoConfig lib path c d = (Some e, d') \<Longrightarrow> d' = d \<or> e = PersistWrite \<and> torn_write path d d'"
  by (auto simp: persistVideoConfig_def Let_def dest!: failed_write
      split: read_result.splits option.splits jval.splits prod.splits bool.splits if_splits)

section \<open>Loading what was persisted\<close>

text \<open>
  A configuration file that JSON keeps: no key twice, none that differs from a known one in case
  only, integers that survive \<open>float64\<close>, and a document as \<open>any\<close> values.
\<close>

definition config_json :: "jsonlib \<Rightarrow> string \<Rightarrow> (string \<times> jval) list \<Rightarrow> bool" where
  "config_json lib b doc \<longleftrightarrow>
     (\<exists>kvs. json_parse lib b = Some (JObj kvs) \<and> distinct (map fst kvs) \<and> list_all plain_key (map fst kvs)
        \<and> ints_survive lib kvs \<and> any_members lib [] kvs = Some doc)"

text \<open>The text of the updated document reads back as that document.\<close>

definition reads_back :: "jsonlib \<Rightarrow> (string \<times> jval) list \<Rightarrow> config \<Rightarrow> bool" where
  "reads_back lib doc c \<longleftrightarrow>
     (let doc' = fold (\<lambda>(k, v). insert_key k v) (video_members c) doc in
      json_parse lib (json_print lib (JObj doc') @ [CHR 0x0A]) = Some (JObj doc'))"

lemma persisted_reload:
  assumes "os_ReadFile d path = ReadOk b" "config_json lib b doc" "reads_back lib doc c" "path \<noteq> []"
    and "Load lib env path d = Inr c0" "video_int64 c" "validate (copy_video c c0) = None"
    and "persistVideoConfig lib path c d = (None, d')"
  shows "Load lib env path d' = Inr (copy_video c c0)"
proof -
  define doc' where "doc' = fold (\<lambda>(k, v). insert_key k v) (video_members c) doc"
  obtain kvs where kvs: "json_parse lib b = Some (JObj kvs)" "distinct (map fst kvs)" "list_all plain_key (map fst kvs)"
    "ints_survive lib kvs" "any_members lib [] kvs = Some doc"
    using assms(2) unfolding config_json_def by blast
  have reads: "json_parse lib (json_print lib (JObj doc') @ [CHR 0x0A]) = Some (JObj doc')"
    using assms(3) by (simp add: reads_back_def doc'_def Let_def)
  obtain c1 where c1: "set_members kvs Default = Some c1" "c0 = apply_env env c1"
    using assms(1,4,5) kvs(1) by (auto simp: Load_def Let_def split: option.splits)
  have "set_members doc' Default = Some (copy_video c c1)"
    unfolding doc'_def using kvs assms(6) c1(1) by (intro persisted_config)
  moreover have "os_WriteFile path (json_print lib (JObj doc') @ [CHR 0x0A]) d = (True, d')"
    using assms(1,8) kvs(1,5) by (auto simp: persistVideoConfig_def doc'_def Let_def split: prod.splits bool.splits)
  then have "os_ReadFile d' path = ReadOk (json_print lib (JObj doc') @ [CHR 0x0A])"
    using os.read_written [of path _ d] assms(1) by (metis fst_conv read_result.distinct(3) snd_conv)
  ultimately show ?thesis
    using assms(4,7) reads c1(2) by (simp add: Load_def Let_def apply_env_copy_video)
qed

section \<open>Properties\<close>

text \<open>
  Whatever the file and the environment hold, a configuration that \<open>Load\<close>
  returns is valid, and the environment has been applied to it.
\<close>

theorem load_returns_valid:
  "case Load lib env path d of Inl e \<Rightarrow> True | Inr c \<Rightarrow> validate c = None \<and> apply_env env c = c"
  by (auto simp: Load_def Let_def apply_env_twice split: read_result.splits option.splits)

text \<open>
  Property C2: after an update was persisted, loading the file again gives the old
  configuration with exactly the nine video fields replaced: the other members of the file,
  known or not, keep their meaning through the map, the sorting and the new text. The
  hypotheses on the library are that the text it printed reads back as the printed value and
  that the file's integers survive \<open>float64\<close>.
\<close>

theorem persist_then_load:
  assumes "os_ReadFile d path = ReadOk b" "json_parse lib b = Some (JObj kvs)" "path \<noteq> []"
    and "distinct (map fst kvs)" "list_all plain_key (map fst kvs)" "ints_survive lib kvs"
    and "any_members lib [] kvs = Some doc"
    and "doc' = fold (\<lambda>(k, v). insert_key k v) (video_members c) doc"
    and "json_parse lib (json_print lib (JObj doc') @ [CHR 0x0A]) = Some (JObj doc')"
    and "Load lib env path d = Inr c0" "video_int64 c" "validate (copy_video c c0) = None"
    and "persistVideoConfig lib path c d = (None, d')"
  shows "Load lib env path d' = Inr (copy_video c c0)"
proof (rule persisted_reload [OF assms(1) _ _ assms(3,10-13)])
  show "config_json lib b doc" using assms(2,4-7) unfolding config_json_def by blast
  show "reads_back lib doc c" using assms(8,9) by (simp add: reads_back_def Let_def)
qed

definition example_doc :: "(string \<times> jval) list" where
  "example_doc = fold (\<lambda>(k, v). insert_key k v) (video_members Default) []"

definition example_json :: jsonlib where
  "example_json = \<lparr>json_parse = (\<lambda>t. if t = ''{}'' then Some (JObj []) else Some (JObj example_doc)),
     json_print = (\<lambda>v. ''{...}''), float_text = Some\<rparr>"

definition example_config_disk :: disk where
  "example_config_disk = \<lparr>files = [''config.json'' \<mapsto> ''{}''], refused = \<lambda>op path. False, torn = Map.empty\<rparr>"

definition example_env :: environment where
  "example_env = (\<lambda>name. Some ''correct-horse'')"

lemma example_valid: "validate (apply_env example_env Default) = None"
  by code_simp


lemma example_defaults: "0 < FPS Default" "video_int64 Default"
  by (simp_all add: Default_def video_int64_def int64_min_def int64_max_def)

lemma copy_video_same: "copy_video c (apply_env env c) = apply_env env c"
  by (simp add: apply_env_eq copy_video_def)

theorem persist_then_load_witness:
  "Load example_json example_env ''config.json''
     (snd (persistVideoConfig example_json ''config.json'' Default example_config_disk)) =
   Inr (copy_video Default (apply_env example_env Default))"
proof (rule persist_then_load)
  show "os_ReadFile example_config_disk ''config.json'' = ReadOk ''{}''"
    by (simp add: os_ReadFile_def example_config_disk_def)
  then show "Load example_json example_env ''config.json'' example_config_disk =
      Inr (apply_env example_env Default)"
    by (simp add: Load_def example_json_def example_valid Let_def)
  show "json_parse example_json ''{}'' = Some (JObj [])" "any_members example_json [] [] = Some []"
    by (simp_all add: example_json_def)
  show "json_parse example_json (json_print example_json (JObj example_doc) @ [CHR 0x0A]) = Some (JObj example_doc)"
    by (simp add: example_json_def)
  show "persistVideoConfig example_json ''config.json'' Default example_config_disk =
      (None, snd (persistVideoConfig example_json ''config.json'' Default example_config_disk))"
    by (simp add: persistVideoConfig_def os_ReadFile_def os_WriteFile_def example_config_disk_def
        example_json_def Let_def)
qed (simp_all add: example_defaults example_valid copy_video_same ints_survive_def example_doc_def)

end
