(* ===== verification/Video.thy ===== *)
theory Video
  imports ConfigFile
begin

text \<open>
  The video settings at run time: \<open>bitrateKbps\<close> of \<open>internal/onvif/server.go\<close>, and the manager
  of \<open>internal/capture/capture.go\<close> that holds the running configuration (\<open>CurrentConfig\<close>,
  \<open>UpdateConfig\<close>), behind the interface \<open>VideoConfigController\<close> through which the ONVIF server
  sees it.
\<close>

section \<open>Bit rates\<close>

definition bitrateKbps :: "string \<Rightarrow> int" where
  "bitrateKbps v =
     (let v = trim_space (to_lower v);
          (v, mul) = (if has_suffix v ''k'' then (trim_suffix v ''k'', 1)
                      else if has_suffix v ''m'' then (trim_suffix v ''m'', 1000)
                      else (v, 1))
      in case atoi v of
           NumOk n \<Rightarrow> if n \<le> 0 then 4000 else wrap64 (n * mul)
         | _ \<Rightarrow> 4000)"

section \<open>The manager\<close>

text \<open>
  \<open>m_restart\<close>: the one-place channel \<open>restartCapture\<close> is full. The two atomic flags say
  whether the public stream, and the raw source for the metadata relay, can be read.
\<close>

record manager =
  m_cfg :: config
  m_configPath :: string
  m_restart :: bool
  m_ready :: bool
  m_sourceReady :: bool

definition new_manager :: "config \<Rightarrow> manager" where
  "new_manager c = \<lparr>m_cfg = c, m_configPath = [], m_restart = False, m_ready = False, m_sourceReady = False\<rparr>"

definition SetConfigPath :: "string \<Rightarrow> manager \<Rightarrow> manager" where
  "SetConfigPath path m = m\<lparr>m_configPath := path\<rparr>"

text \<open>
  The result of \<open>UpdateConfig\<close>: nil, an error with its text, or a panic. The texts of the
  errors of the operating system and of the JSON library are the argument \<open>msg\<close>.
\<close>

datatype update_result = UpdateOk | UpdateErr string | UpdatePanic

definition UpdateConfig ::
  "jsonlib \<Rightarrow> (persist_error \<Rightarrow> string) \<Rightarrow> config \<Rightarrow> bool \<Rightarrow> manager \<times> disk \<Rightarrow> update_result \<times> manager \<times> disk"
where
  "UpdateConfig lib msg next_cfg persist st =
     (case st of (m, d) \<Rightarrow>
        (case validate next_cfg of
           Some e \<Rightarrow> (UpdateErr (error_text e), m, d)
         | None \<Rightarrow>
             let (res, d1) =
               (if persist then
                  if m_configPath m = [] then (UpdateErr ''config path is not set'', d)
                  else (case persistVideoConfig lib (m_configPath m) next_cfg d of
                          (Some PersistNilMap, d1) \<Rightarrow> (UpdatePanic, d1)
                        | (Some e, d1) \<Rightarrow> (UpdateErr (msg e), d1)
                        | (None, d1) \<Rightarrow> (UpdateOk, d1))
                else (UpdateOk, d)) in
             (case res of
                UpdateOk \<Rightarrow> (UpdateOk, m\<lparr>m_cfg := copy_video next_cfg (m_cfg m), m_restart := True\<rparr>, d1)
              | _ \<Rightarrow> (res, m, d1))))"

definition CurrentConfig :: "manager \<times> disk \<Rightarrow> config" where
  "CurrentConfig st = m_cfg (fst st)"

section \<open>The interface\<close>

text \<open>
  What the server relies on: an accepted update was valid and replaces the nine video fields,
  a refused one changes nothing it can see. \<open>kept p s s'\<close> is what a refused update, with or without
  persistence, may leave behind.
\<close>

locale video_controller =
  fixes current :: "'s \<Rightarrow> config"
    and update :: "config \<Rightarrow> bool \<Rightarrow> 's \<Rightarrow> update_result \<times> 's"
    and kept :: "bool \<Rightarrow> 's \<Rightarrow> 's \<Rightarrow> bool"
  assumes accepted_valid: "fst (update c p s) = UpdateOk \<Longrightarrow> validate c = None"
    and accepted_copied: "fst (update c p s) = UpdateOk \<Longrightarrow> current (snd (update c p s)) = copy_video c (current s)"
    and refused_kept: "fst (update c p s) \<noteq> UpdateOk \<Longrightarrow> kept p s (snd (update c p s))"
    and kept_current: "kept p s s' \<Longrightarrow> current s' = current s"
    and kept_refl: "kept p s s"
begin

text \<open>An update that differs from the current configuration in video fields only takes effect as a whole.\<close>

lemma accepted_exact:
  "fst (update c p s) = UpdateOk \<Longrightarrow> copy_video c (current s) = c \<Longrightarrow> current (snd (update c p s)) = c"
  by (simp add: accepted_copied)

lemma stays_valid:
  "validate (current s) = None \<Longrightarrow> copy_video c (current s) = c \<Longrightarrow>
     validate (current (snd (update c p s))) = None"
  using accepted_valid accepted_exact kept_current [OF refused_kept]
  by (cases "fst (update c p s) = UpdateOk") simp_all

end

text \<open>
  A refused update leaves the manager as it was, and the disk too, except that a write of the
  configuration file may have broken off.
\<close>

definition update_kept :: "bool \<Rightarrow> manager \<times> disk \<Rightarrow> manager \<times> disk \<Rightarrow> bool" where
  "update_kept persist st st' \<longleftrightarrow>
     fst st' = fst st \<and> (snd st' = snd st \<or> persist \<and> torn_write (m_configPath (fst st)) (snd st) (snd st'))"

interpretation vc: video_controller CurrentConfig "UpdateConfig lib msg" update_kept
  by unfold_locales
    (auto simp: UpdateConfig_def CurrentConfig_def update_kept_def Let_def dest: persist_failed
      split: option.splits prod.splits if_splits persist_error.splits)

end
