(* ===== verification/Soap.thy ===== *)
theory Soap
  imports Xml Video Net
begin

text \<open>
  The answers of the ONVIF services (\<open>internal/onvif\<close>): HTTP responses, the SOAP envelopes and
  faults around them, and the XML of URLs, profiles and configurations. Every text is built
  as the code's format strings build it. \<open>s\<close> is the server with its fixed configuration, \<open>v\<close>
  the configuration that \<open>videoConfig\<close> returns while the handler runs.
\<close>

section \<open>The library\<close>

text \<open>
  What the handlers take from the standard library without reading its text here:
  \<open>filepath.Abs\<close> and \<open>filepath.Dir\<close>, the text of the XML decoder's error for a body, the
  formatting of a time in the layout \<open>RFC3339Nano\<close>, parsing one in the layout \<open>RFC3339\<close>, the
  calendar of a time in UTC (year, month, day, hour, minute, second), the addresses and prefix
  lengths of the host's interfaces, and what an out-of-range conversion of a float gives.
\<close>

record platform =
  filepath_Abs :: "string \<Rightarrow> string option"
  filepath_Dir :: "string \<Rightarrow> string"
  xml_error :: "xtoken list \<Rightarrow> string"
  format_time :: "time \<Rightarrow> string"
  parse_rfc3339 :: "string \<Rightarrow> time option"
  civil :: "time \<Rightarrow> int \<times> int \<times> int \<times> int \<times> int \<times> int"
  interface_addrs :: "(ip \<times> int) list list"
  float_out_of_range :: int

section \<open>Responses\<close>

record response =
  rs_status :: nat
  rs_headers :: "(string \<times> string) list"
  rs_body :: string

record server =
  s_cfg :: config
  s_ip :: string
  s_uuid :: string

definition soap_headers :: "(string \<times> string) list" where
  "soap_headers = [(''Content-Type'', ''application/soap+xml; charset=utf-8''), (''Cache-Control'', ''no-store'')]"

text \<open>\<open>http.Error\<close> of the library.\<close>

definition http_error :: "string \<Rightarrow> nat \<Rightarrow> response" where
  "http_error msg status =
     \<lparr>rs_status = status,
      rs_headers = [(''Content-Type'', ''text/plain; charset=utf-8''), (''X-Content-Type-Options'', ''nosniff'')],
      rs_body = msg @ [CHR 0x0A]\<rparr>"

definition soap_envelope :: "string \<Rightarrow> string" where \<open>
  soap_envelope inner =
     ''<?xml version="1.0" encoding="UTF-8"?><s:Envelope xmlns:s="http://www.w3.org/2003/05/s'' @
     ''oap-envelope" xmlns:tds="http://www.onvif.org/ver10/device/wsdl" xmlns:trt="http://www'' @
     ''.onvif.org/ver10/media/wsdl" xmlns:tt="http://www.onvif.org/ver10/schema"><s:Body>'' @ inner @
     ''</s:Body></s:Envelope>''\<close>

definition media2_envelope :: "string \<Rightarrow> string" where \<open>
  media2_envelope inner =
     ''<?xml version="1.0" encoding="UTF-8"?><s:Envelope xmlns:s="http://www.w3.org/2003/05/s'' @
     ''oap-envelope" xmlns:tr2="http://www.onvif.org/ver20/media/wsdl" xmlns:tt="http://www.o'' @
     ''nvif.org/ver10/schema"><s:Body>'' @ inner @ ''</s:Body></s:Envelope>''\<close>

definition event_envelope :: "string \<Rightarrow> string" where \<open>
  event_envelope inner =
     ''<?xml version="1.0" encoding="UTF-8"?><s:Envelope xmlns:s="http://www.w3.org/2003/05/s'' @
     ''oap-envelope" xmlns:tev="http://www.onvif.org/ver10/events/wsdl" xmlns:tt="http://www.'' @
     ''onvif.org/ver10/schema" xmlns:tns1="http://www.onvif.org/ver10/topics" xmlns:wsnt="htt'' @
     ''p://docs.oasis-open.org/wsn/b-2" xmlns:wstop="http://docs.oasis-open.org/wsn/t-1" xmln'' @
     ''s:wsa5="http://www.w3.org/2005/08/addressing" xmlns:xs="http://www.w3.org/2001/XMLSche'' @
     ''ma"><s:Body>'' @ inner @ ''</s:Body></s:Envelope>''\<close>

definition fault_envelope :: "string \<Rightarrow> string \<Rightarrow> string" where \<open>
  fault_envelope code reason =
     ''<?xml version="1.0" encoding="UTF-8"?><s:Envelope xmlns:s="http://www.w3.org/2003/05/s'' @
     ''oap-envelope" xmlns:ter="http://www.onvif.org/ver10/error"><s:Body><s:Fault><s:Code><s'' @
     '':Value>s:Sender</s:Value><s:Subcode><s:Value>'' @ xmlEsc code @
     ''</s:Value></s:Subcode></s:Code><s:Reason><s:Text xml:lang="en">'' @ xmlEsc reason @
     ''</s:Text></s:Reason></s:Fault></s:Body></s:Envelope>''\<close>

definition soap :: "string \<Rightarrow> response" where
  "soap inner = \<lparr>rs_status = 200, rs_headers = soap_headers, rs_body = soap_envelope inner\<rparr>"

definition soapMedia2 :: "string \<Rightarrow> response" where
  "soapMedia2 inner = \<lparr>rs_status = 200, rs_headers = soap_headers, rs_body = media2_envelope inner\<rparr>"

definition eventSOAP :: "string \<Rightarrow> response" where
  "eventSOAP inner = \<lparr>rs_status = 200, rs_headers = soap_headers, rs_body = event_envelope inner\<rparr>"

definition fault :: "string \<Rightarrow> string \<Rightarrow> response" where
  "fault code reason = \<lparr>rs_status = 500, rs_headers = soap_headers, rs_body = fault_envelope code reason\<rparr>"

section \<open>URLs\<close>

definition service_url :: "server \<Rightarrow> string \<Rightarrow> string" where
  "service_url s path = ''http://'' @ s_ip s @ '':'' @ itoa (ONVIFPort (s_cfg s)) @ path"

definition Addr :: "server \<Rightarrow> string" where "Addr s = '':'' @ itoa (ONVIFPort (s_cfg s))"
definition DeviceURL :: "server \<Rightarrow> string" where "DeviceURL s = service_url s ''/onvif/device_service''"
definition MediaURL :: "server \<Rightarrow> string" where "MediaURL s = service_url s ''/onvif/media_service''"
definition Media2URL :: "server \<Rightarrow> string" where "Media2URL s = service_url s ''/onvif/media2_service''"
definition SnapshotURL :: "server \<Rightarrow> string" where "SnapshotURL s = service_url s ''/snapshot.jpg''"
definition EventURL :: "server \<Rightarrow> string" where "EventURL s = service_url s ''/onvif/events_service''"

definition pullPointURL :: "server \<Rightarrow> string \<Rightarrow> string" where
  "pullPointURL s token = service_url s ''/onvif/pullpoint/'' @ token"

definition StreamURL :: "server \<Rightarrow> string" where
  "StreamURL s = ''rtsp://'' @ s_ip s @ '':'' @ itoa (RTSPPort (s_cfg s)) @ ''/'' @ RTSPPath (s_cfg s)"

definition SubStreamURL :: "server \<Rightarrow> string" where
  "SubStreamURL s = ''rtsp://'' @ s_ip s @ '':'' @ itoa (RTSPPort (s_cfg s)) @ ''/'' @ SubstreamPath (s_cfg s)"

definition streamURLForProfile :: "server \<Rightarrow> string \<Rightarrow> string option" where
  "streamURLForProfile s token =
     (if token = [] \<or> token = ''screen_profile'' then Some (StreamURL s)
      else if token = ''screen_profile_sub'' \<and> SubstreamEnabled (s_cfg s) then Some (SubStreamURL s)
      else None)"

section \<open>Profiles and configurations\<close>

definition profileCount :: "server \<Rightarrow> int" where
  "profileCount s = (if SubstreamEnabled (s_cfg s) then 2 else 1)"

definition metadataConfigurationXML :: "server \<Rightarrow> string \<Rightarrow> string" where \<open>
  metadataConfigurationXML s tag =
     ''<'' @ tag @ '' token="'' @ ''screen_metadata'' @
     ''"><tt:Name>ONVIF Event Metadata</tt:Name><tt:UseCount>'' @ itoa (profileCount s) @
     ''</tt:UseCount><tt:PTZStatus><tt:Status>false</tt:Status><tt:Position>false</tt:Positio'' @
     ''n></tt:PTZStatus><tt:Events/><tt:Analytics>false</tt:Analytics><tt:Multicast><tt:Addre'' @
     ''ss><tt:Type>IPv4</tt:Type><tt:IPv4Address>0.0.0.0</tt:IPv4Address></tt:Address><tt:Por'' @
     ''t>0</tt:Port><tt:TTL>1</tt:TTL><tt:AutoStart>false</tt:AutoStart></tt:Multicast><tt:Se'' @
     ''ssionTimeout>PT60S</tt:SessionTimeout></'' @ tag @ ''>''\<close>

definition metadataConfigurationOptionsXML :: "string \<Rightarrow> string" where \<open>
  metadataConfigurationOptionsXML tag =
     ''<'' @ tag @
     ''><tt:PTZStatusFilterOptions><tt:PanTiltStatusSupported>false</tt:PanTiltStatusSupporte'' @
     ''d><tt:ZoomStatusSupported>false</tt:ZoomStatusSupported><tt:PanTiltPositionSupported>f'' @
     ''alse</tt:PanTiltPositionSupported><tt:ZoomPositionSupported>false</tt:ZoomPositionSupp'' @
     ''orted></tt:PTZStatusFilterOptions></'' @ tag @ ''>''\<close>

text \<open>The product \<open>fps*cfg.GOPSeconds\<close> is one of machine integers.\<close>


definition encoderXMLFor :: "config \<Rightarrow> string \<Rightarrow> string \<Rightarrow> string \<Rightarrow> int \<Rightarrow> int \<Rightarrow> int \<Rightarrow> string \<Rightarrow> string" where \<open>
  encoderXMLFor v tag token name width height fps bitrateValue =
     ''<'' @ tag @ '' token="'' @ token @ ''"><tt:Name>'' @ name @
     ''</tt:Name><tt:UseCount>1</tt:UseCount><tt:Encoding>H264</tt:Encoding><tt:Resolution><t'' @
     ''t:Width>'' @ itoa width @ ''</tt:Width><tt:Height>'' @ itoa height @
     ''</tt:Height></tt:Resolution><tt:Quality>5</tt:Quality><tt:RateControl><tt:FrameRateLim'' @
     ''it>'' @ itoa fps @
     ''</tt:FrameRateLimit><tt:EncodingInterval>1</tt:EncodingInterval><tt:BitrateLimit>'' @
     itoa (bitrateKbps bitrateValue) @ ''</tt:BitrateLimit></tt:RateControl><tt:H264><tt:GovLength>'' @
     itoa (wrap64 (fps * GOPSeconds v)) @
     ''</tt:GovLength><tt:H264Profile>High</tt:H264Profile></tt:H264><tt:Multicast><tt:Addres'' @
     ''s><tt:Type>IPv4</tt:Type><tt:IPv4Address>0.0.0.0</tt:IPv4Address></tt:Address><tt:Port'' @
     ''>0</tt:Port><tt:TTL>1</tt:TTL><tt:AutoStart>false</tt:AutoStart></tt:Multicast><tt:Ses'' @
     ''sionTimeout>PT60S</tt:SessionTimeout></'' @ tag @ ''>''\<close>

definition encoderXML :: "config \<Rightarrow> string \<Rightarrow> string" where
  "encoderXML v tag =
     encoderXMLFor v tag ''screen_encoder'' ''H264 Desktop'' (Width v) (Height v) (FPS v) (VideoBitrate v)"

definition subEncoderXML :: "config \<Rightarrow> string \<Rightarrow> string" where
  "subEncoderXML v tag =
     encoderXMLFor v tag ''screen_encoder_sub'' ''H264 Desktop Substream''
       (SubstreamWidth v) (SubstreamHeight v) (SubstreamFPS v) (SubstreamBitrate v)"

definition media2EncoderConfigXML :: "string \<Rightarrow> string \<Rightarrow> string \<Rightarrow> int \<Rightarrow> int \<Rightarrow> int \<Rightarrow> int \<Rightarrow> int \<Rightarrow> string" where \<open>
  media2EncoderConfigXML tag token name width height fps bitrate gop =
     ''<'' @ tag @ '' token="'' @ token @ ''"><tt:Name>'' @ xmlEsc name @
     ''</tt:Name><tt:UseCount>1</tt:UseCount><tt:Encoding>H264</tt:Encoding><tt:Resolution><t'' @
     ''t:Width>'' @ itoa width @ ''</tt:Width><tt:Height>'' @ itoa height @
     ''</tt:Height></tt:Resolution><tt:Quality>5</tt:Quality><tt:RateControl><tt:FrameRateLim'' @
     ''it>'' @ itoa fps @ ''</tt:FrameRateLimit><tt:BitrateLimit>'' @ itoa bitrate @
     ''</tt:BitrateLimit></tt:RateControl><tt:GovLength>'' @ itoa gop @
     ''</tt:GovLength><tt:Profile>High</tt:Profile><tt:Multicast><tt:Address><tt:Type>IPv4</t'' @
     ''t:Type><tt:IPv4Address>0.0.0.0</tt:IPv4Address></tt:Address><tt:Port>0</tt:Port><tt:TT'' @
     ''L>1</tt:TTL><tt:AutoStart>false</tt:AutoStart></tt:Multicast></'' @ tag @ ''>''\<close>

definition media2EncoderXMLWith :: "config \<Rightarrow> string \<Rightarrow> bool \<Rightarrow> string" where
  "media2EncoderXMLWith v tag sub =
     (if sub
      then media2EncoderConfigXML tag ''screen_encoder_sub'' ''H264 Desktop Substream''
             (SubstreamWidth v) (SubstreamHeight v) (SubstreamFPS v) (bitrateKbps (SubstreamBitrate v))
             (wrap64 (SubstreamFPS v * GOPSeconds v))
      else media2EncoderConfigXML tag ''screen_encoder'' ''H264 Desktop''
             (Width v) (Height v) (FPS v) (bitrateKbps (VideoBitrate v)) (wrap64 (FPS v * GOPSeconds v)))"

definition media2EncoderXMLForProfile :: "config \<Rightarrow> bool \<Rightarrow> string" where
  "media2EncoderXMLForProfile v sub = media2EncoderXMLWith v ''tr2:VideoEncoder'' sub"

definition media2EncoderXML :: "config \<Rightarrow> bool \<Rightarrow> string" where
  "media2EncoderXML v sub = media2EncoderXMLWith v ''tr2:Configurations'' sub"

definition profileXML :: "server \<Rightarrow> config \<Rightarrow> bool \<Rightarrow> string" where \<open>
  profileXML s v sub =
     ''<trt:Profile fixed="true" token="'' @
     (if sub then ''screen_profile_sub'' else ''screen_profile'') @ ''"><tt:Name>'' @
     (if sub then ''Desktop Screen Substream'' else ''Desktop Screen'') @
     ''</tt:Name><tt:VideoSourceConfiguration token="screen_source"><tt:Name>Desktop</tt:Name'' @
     ''><tt:UseCount>'' @ itoa (profileCount s) @
     ''</tt:UseCount><tt:SourceToken>desktop</tt:SourceToken><tt:Bounds x="'' @ itoa (OffsetX v) @
     ''" y="'' @ itoa (OffsetY v) @ ''" width="'' @ itoa (Width v) @ ''" height="'' @ itoa (Height v) @
     ''"/></tt:VideoSourceConfiguration>'' @
     (if sub then subEncoderXML v ''tt:VideoEncoderConfiguration'' else encoderXML v ''tt:VideoEncoderConfiguration'') @
     (if MetadataEnabled (s_cfg s) then metadataConfigurationXML s ''tt:MetadataConfiguration'' else []) @
     ''</trt:Profile>''\<close>

text \<open>\<open>strings.Replace(v, old, new, 1)\<close>: the first occurrence.\<close>

fun replace_first :: "string \<Rightarrow> string \<Rightarrow> string \<Rightarrow> string" where
  "replace_first [] old r = (if old = [] then r else [])"
| "replace_first (c # v) old r =
     (if has_prefix (c # v) old then r @ drop (length old) (c # v) else c # replace_first v old r)"

definition rename_profile :: "string \<Rightarrow> string" where
  "rename_profile p = replace_first (replace_first p ''<trt:Profile'' ''<trt:Profiles'') ''</trt:Profile>'' ''</trt:Profiles>''"

definition media1ProfilesXML :: "server \<Rightarrow> config \<Rightarrow> string" where
  "media1ProfilesXML s v =
     (if \<not> SubstreamEnabled (s_cfg s) then rename_profile (profileXML s v False)
      else rename_profile (profileXML s v False) @ rename_profile (profileXML s v True))"

definition media1ProfileByToken :: "server \<Rightarrow> config \<Rightarrow> string \<Rightarrow> string option" where
  "media1ProfileByToken s v token =
     (if token = [] \<or> token = ''screen_profile'' then Some (profileXML s v False)
      else if token = ''screen_profile_sub'' \<and> SubstreamEnabled (s_cfg s) then Some (profileXML s v True)
      else None)"

definition media2ProfileConfigs :: "server \<Rightarrow> config \<Rightarrow> bool \<Rightarrow> string" where \<open>
  media2ProfileConfigs s v sub =
     ''<tr2:Configurations><tr2:VideoSource token="screen_source"><tt:Name>Desktop</tt:Name><'' @
     ''tt:UseCount>'' @ itoa (profileCount s) @
     ''</tt:UseCount><tt:SourceToken>desktop</tt:SourceToken><tt:Bounds x="'' @ itoa (OffsetX v) @
     ''" y="'' @ itoa (OffsetY v) @ ''" width="'' @ itoa (Width v) @ ''" height="'' @ itoa (Height v) @
     ''"/></tr2:VideoSource>'' @ media2EncoderXMLForProfile v sub @
     (if MetadataEnabled (s_cfg s) then metadataConfigurationXML s ''tr2:Metadata'' else []) @
     ''</tr2:Configurations>''\<close>

definition media2ProfileXML :: "server \<Rightarrow> config \<Rightarrow> bool \<Rightarrow> bool \<Rightarrow> string" where \<open>
  media2ProfileXML s v sub includeConfig =
     ''<tr2:Profiles token="'' @ (if sub then ''screen_profile_sub'' else ''screen_profile'') @
     ''" fixed="true"><tr2:Name>'' @
     xmlEsc (if sub then ''Desktop Screen Substream'' else ''Desktop Screen'') @ ''</tr2:Name>'' @
     (if includeConfig then media2ProfileConfigs s v sub else []) @ ''</tr2:Profiles>''\<close>

definition media2ProfileByToken :: "server \<Rightarrow> config \<Rightarrow> string \<Rightarrow> bool \<Rightarrow> string option" where
  "media2ProfileByToken s v token includeConfig =
     (if token = ''screen_profile'' then Some (media2ProfileXML s v False includeConfig)
      else if token = ''screen_profile_sub'' \<and> SubstreamEnabled (s_cfg s)
        then Some (media2ProfileXML s v True includeConfig)
      else None)"

end
