(* ===== verification/Encoder.thy ===== *)
theory Encoder
  imports Soap
begin

text \<open>
  \<open>SetVideoEncoderConfiguration\<close> (\<open>internal/onvif/encoder_config.go\<close>): parsing the request, the
  checks, and the update through the interface \<open>VideoConfigController\<close>, whose two methods are
  the arguments \<open>current\<close> and \<open>update\<close>.
\<close>

section \<open>The request\<close>

record videoEncoderConfigurationRequest =
  vr_Token :: string
  vr_Encoding :: string
  vr_Width :: int
  vr_Height :: int
  vr_FrameRateLimit :: int
  vr_EncodingInterval :: int
  vr_BitrateLimit :: int
  vr_H264_GovLength :: int
  vr_GovLength :: int

definition empty_request :: videoEncoderConfigurationRequest where
  "empty_request = \<lparr>vr_Token = [], vr_Encoding = [], vr_Width = 0, vr_Height = 0, vr_FrameRateLimit = 0,
     vr_EncodingInterval = 0, vr_BitrateLimit = 0, vr_H264_GovLength = 0, vr_GovLength = 0\<rparr>"

definition decode_resolution ::
  "string \<Rightarrow> attrs \<Rightarrow> xnode list \<Rightarrow> videoEncoderConfigurationRequest \<Rightarrow> videoEncoderConfigurationRequest option"
where
  "decode_resolution n as cs r =
     (if n = ''Width'' then decode_int_field cs (\<lambda>i. r\<lparr>vr_Width := i\<rparr>)
      else if n = ''Height'' then decode_int_field cs (\<lambda>i. r\<lparr>vr_Height := i\<rparr>)
      else Some r)"

definition decode_rate_control ::
  "string \<Rightarrow> attrs \<Rightarrow> xnode list \<Rightarrow> videoEncoderConfigurationRequest \<Rightarrow> videoEncoderConfigurationRequest option"
where
  "decode_rate_control n as cs r =
     (if n = ''FrameRateLimit'' then decode_int_field cs (\<lambda>i. r\<lparr>vr_FrameRateLimit := i\<rparr>)
      else if n = ''EncodingInterval'' then decode_int_field cs (\<lambda>i. r\<lparr>vr_EncodingInterval := i\<rparr>)
      else if n = ''BitrateLimit'' then decode_int_field cs (\<lambda>i. r\<lparr>vr_BitrateLimit := i\<rparr>)
      else Some r)"

definition decode_h264 ::
  "string \<Rightarrow> attrs \<Rightarrow> xnode list \<Rightarrow> videoEncoderConfigurationRequest \<Rightarrow> videoEncoderConfigurationRequest option"
where
  "decode_h264 n as cs r =
     (if n = ''GovLength'' then decode_int_field cs (\<lambda>i. r\<lparr>vr_H264_GovLength := i\<rparr>) else Some r)"

definition decode_configuration ::
  "string \<Rightarrow> attrs \<Rightarrow> xnode list \<Rightarrow> videoEncoderConfigurationRequest \<Rightarrow> videoEncoderConfigurationRequest option"
where
  "decode_configuration n as cs r =
     (if n = ''Encoding'' then Some (r\<lparr>vr_Encoding := node_text cs\<rparr>)
      else if n = ''Resolution'' then decode_children decode_resolution cs r
      else if n = ''RateControl'' then decode_children decode_rate_control cs r
      else if n = ''H264'' then decode_children decode_h264 cs r
      else if n = ''GovLength'' then decode_int_field cs (\<lambda>i. r\<lparr>vr_GovLength := i\<rparr>)
      else Some r)"

text \<open>Errors are their texts; \<open>xerr\<close> is the text of the XML decoder's error for this body.\<close>

definition parseVideoEncoderConfiguration ::
  "string \<Rightarrow> xtoken list \<Rightarrow> (string, videoEncoderConfigurationRequest) result"
where
  "parseVideoEncoderConfiguration xerr body =
     (case find_element ''Configuration'' body of
        Inl _ \<Rightarrow> Inl ''video encoder configuration missing''
      | Inr None \<Rightarrow> Inl (''invalid video encoder configuration: '' @ xerr)
      | Inr (Some (as, cs)) \<Rightarrow>
          (case decode_children decode_configuration cs (empty_request\<lparr>vr_Token := attr_value ''token'' as []\<rparr>) of
             None \<Rightarrow> Inl (''invalid video encoder configuration: '' @ xerr)
           | Some r \<Rightarrow>
               if vr_Token r = [] then Inl ''configuration token is required'' else Inr r))"

section \<open>The checks\<close>

text \<open>
  The body of the handler between parsing and updating: from the current configuration \<open>c\<close> and
  the request \<open>r\<close> to the next configuration, or the code and reason of a fault. A number that
  is not given (0) keeps its current value.
\<close>

definition is_sub :: "videoEncoderConfigurationRequest \<Rightarrow> bool" where
  "is_sub r \<longleftrightarrow> vr_Token r = ''screen_encoder_sub''"

definition given_or :: "int \<Rightarrow> int \<Rightarrow> int" where
  "given_or i old = (if i \<noteq> 0 then i else old)"

definition set_width :: "config \<Rightarrow> videoEncoderConfigurationRequest \<Rightarrow> int" where
  "set_width c r = given_or (vr_Width r) (if is_sub r then SubstreamWidth c else Width c)"

definition set_height :: "config \<Rightarrow> videoEncoderConfigurationRequest \<Rightarrow> int" where
  "set_height c r = given_or (vr_Height r) (if is_sub r then SubstreamHeight c else Height c)"

definition set_fps :: "config \<Rightarrow> videoEncoderConfigurationRequest \<Rightarrow> int" where
  "set_fps c r = given_or (vr_FrameRateLimit r) (if is_sub r then SubstreamFPS c else FPS c)"

definition set_bitrate :: "config \<Rightarrow> videoEncoderConfigurationRequest \<Rightarrow> int" where
  "set_bitrate c r =
     given_or (vr_BitrateLimit r) (bitrateKbps (if is_sub r then SubstreamBitrate c else VideoBitrate c))"

definition set_gov :: "videoEncoderConfigurationRequest \<Rightarrow> int" where
  "set_gov r = given_or (vr_GovLength r) (vr_H264_GovLength r)"

text \<open>The early returns, in the order of the code.\<close>

definition encoder_guards ::
  "config \<Rightarrow> videoEncoderConfigurationRequest \<Rightarrow> (bool \<times> string \<times> string) list"
where
  "encoder_guards c r =
     [(is_sub r \<and> \<not> SubstreamEnabled c, ''ter:NoConfig'', ''Substream is disabled''),
      (\<not> is_sub r \<and> vr_Token r \<noteq> ''screen_encoder'',
         ''ter:NoConfig'', ''Unknown video encoder configuration: '' @ vr_Token r),
      (vr_Encoding r \<noteq> [] \<and> \<not> equal_fold (vr_Encoding r) ''H264'',
         ''ter:ConfigModify'', ''Only H264 encoding is supported''),
      (vr_EncodingInterval r \<noteq> 0 \<and> vr_EncodingInterval r \<noteq> 1,
         ''ter:ConfigModify'', ''EncodingInterval must be 1''),
      (set_gov r \<noteq> 0 \<and> (set_fps c r < 1 \<or> go_mod (set_gov r) (set_fps c r) \<noteq> 0),
         ''ter:ConfigModify'', ''GovLength must be a whole number of seconds at the selected frame rate''),
      (bad_size (set_width c r) (set_height c r),
         ''ter:ConfigModify'', ''Resolution must use even dimensions of at least 64 pixels''),
      (set_fps c r < 1 \<or> set_fps c r > 120,
         ''ter:ConfigModify'', ''FrameRateLimit must be between 1 and 120''),
      (set_bitrate c r < 64 \<or> set_bitrate c r > 200000,
         ''ter:ConfigModify'', ''BitrateLimit must be between 64 and 200000 kbit/s'')]"

definition apply_request :: "config \<Rightarrow> videoEncoderConfigurationRequest \<Rightarrow> config" where
  "apply_request c r =
     (let n = (if set_gov r \<noteq> 0 then c\<lparr>GOPSeconds := go_div (set_gov r) (set_fps c r)\<rparr> else c) in
      if is_sub r
      then n\<lparr>SubstreamWidth := set_width c r, SubstreamHeight := set_height c r,
             SubstreamFPS := set_fps c r, SubstreamBitrate := itoa (set_bitrate c r) @ ''k''\<rparr>
      else n\<lparr>Width := set_width c r, Height := set_height c r, FPS := set_fps c r,
             VideoBitrate := itoa (set_bitrate c r) @ ''k''\<rparr>)"

definition next_config ::
  "config \<Rightarrow> videoEncoderConfigurationRequest \<Rightarrow> (string \<times> string, config) result"
where
  "next_config c r =
     (case first_error (encoder_guards c r) of
        Some e \<Rightarrow> Inl e
      | None \<Rightarrow> Inr (apply_request c r))"

section \<open>The handler\<close>

text \<open>
  The response, \<^const>\<open>None\<close> when the handler panics, and the controller's new state. The
  argument \<open>available\<close> says whether a controller is set.
\<close>

definition setVideoEncoderConfiguration ::
  "('s \<Rightarrow> config) \<Rightarrow> (config \<Rightarrow> bool \<Rightarrow> 's \<Rightarrow> update_result \<times> 's) \<Rightarrow> bool \<Rightarrow> string \<Rightarrow> xtoken list \<Rightarrow> bool \<Rightarrow> 's
    \<Rightarrow> response option \<times> 's"
where
  "setVideoEncoderConfiguration current update available xerr body media2 st =
     (if \<not> available
      then (Some (fault ''ter:ActionNotSupported'' ''Runtime video configuration is unavailable''), st)
      else
        (case parseVideoEncoderConfiguration xerr body of
           Inl e \<Rightarrow> (Some (fault ''ter:ConfigModify'' e), st)
         | Inr req \<Rightarrow>
             (case next_config (current st) req of
                Inl (code, reason) \<Rightarrow> (Some (fault code reason), st)
              | Inr next_cfg \<Rightarrow>
                  let persist = equal_fold (elementText body ''ForcePersistence'') ''true'' in
                  (case update next_cfg persist st of
                     (UpdatePanic, st') \<Rightarrow> (None, st')
                   | (UpdateErr e, st') \<Rightarrow> (Some (fault ''ter:ConfigModify'' e), st')
                   | (UpdateOk, st') \<Rightarrow>
                       (Some (if media2 then soapMedia2 ''<tr2:SetVideoEncoderConfigurationResponse/>''
                              else soap ''<trt:SetVideoEncoderConfigurationResponse/>''), st')))))"


section \<open>Bit rates round trip\<close>

lemma to_lower_digit: "is_digit c \<Longrightarrow> to_lower (c # s) = c # to_lower s"
  by (auto simp: is_digit_def to_lower_char_def Let_def)

lemma to_lower_digits: "\<forall>c \<in> set s. is_digit c \<Longrightarrow> to_lower (s @ t) = s @ to_lower t"
  by (induction s) (auto simp: to_lower_digit simp del: to_lower.simps)

lemma to_lower_k: "to_lower ''k'' = ''k''" by code_simp

lemma bitrateKbps_itoa:
  assumes "1 \<le> b" "b \<le> int64_max"
  shows "bitrateKbps (itoa b @ ''k'') = b"
proof -
  have b: "itoa b = dec_nat (nat b)" using assms(1) by (simp add: itoa_nonneg)
  have "graphic (hd (dec_nat (nat b) @ ''k''))" "graphic (last (dec_nat (nat b) @ ''k''))"
    using hd_dec_nat [of "nat b"] by (simp_all add: is_digit_graphic) (simp add: graphic_def)
  then have "trim_space (dec_nat (nat b) @ ''k'') = dec_nat (nat b) @ ''k''"
    by (intro trim_space_graphic) simp_all
  moreover have "to_lower (dec_nat (nat b) @ ''k'') = dec_nat (nat b) @ ''k''"
    using dec_nat_digits [of "nat b"] by (simp only: to_lower_digits to_lower_k)
  moreover have "atoi (dec_nat (nat b)) = NumOk b"
    using atoi_itoa [of b] assms by (simp add: b int64_min_def)
  ultimately show ?thesis
    using assms by (simp add: b bitrateKbps_def has_suffix_def trim_suffix_def wrap64_id int64_min_def)
qed

section \<open>What an accepted request does\<close>

lemma next_config_Inr:
  "next_config c r = Inr n \<longleftrightarrow> (\<forall>g \<in> set (encoder_guards c r). \<not> fst g) \<and> n = apply_request c r"
  by (auto simp: next_config_def first_error_None [symmetric] split: option.splits)

lemma copy_video_request: "copy_video (apply_request c r) c = apply_request c r"
  by (rule config.equality) (simp_all add: apply_request_def copy_video_def Let_def)

lemma next_config_video: "next_config c r = Inr n \<Longrightarrow> copy_video n c = n"
  by (simp add: next_config_Inr copy_video_request)

lemma next_config_ranges:
  assumes "next_config c r = Inr n"
  shows "is_sub r \<or> vr_Token r = ''screen_encoder''" "1 \<le> set_fps c r" "set_fps c r \<le> 120"
    "64 \<le> set_bitrate c r" "set_bitrate c r \<le> 200000"
    "set_gov r \<noteq> 0 \<Longrightarrow> go_mod (set_gov r) (set_fps c r) = 0"
  using assms by (auto simp: next_config_Inr encoder_guards_def)

lemma apply_request_main:
  assumes "\<not> is_sub r"
  shows "Width (apply_request c r) = set_width c r" "Height (apply_request c r) = set_height c r"
    "FPS (apply_request c r) = set_fps c r" "VideoBitrate (apply_request c r) = itoa (set_bitrate c r) @ ''k''"
    "SubstreamWidth (apply_request c r) = SubstreamWidth c"
    "SubstreamHeight (apply_request c r) = SubstreamHeight c"
    "SubstreamFPS (apply_request c r) = SubstreamFPS c"
    "SubstreamBitrate (apply_request c r) = SubstreamBitrate c"
  using assms by (simp_all add: apply_request_def Let_def)

lemma apply_request_sub:
  assumes "is_sub r"
  shows "Width (apply_request c r) = Width c" "Height (apply_request c r) = Height c"
    "FPS (apply_request c r) = FPS c" "VideoBitrate (apply_request c r) = VideoBitrate c"
    "SubstreamWidth (apply_request c r) = set_width c r"
    "SubstreamHeight (apply_request c r) = set_height c r"
    "SubstreamFPS (apply_request c r) = set_fps c r"
    "SubstreamBitrate (apply_request c r) = itoa (set_bitrate c r) @ ''k''"
  using assms by (simp_all add: apply_request_def Let_def)

lemma apply_request_gop:
  "GOPSeconds (apply_request c r) =
     (if set_gov r \<noteq> 0 then go_div (set_gov r) (set_fps c r) else GOPSeconds c)"
  by (simp add: apply_request_def Let_def)

context video_controller
begin

text \<open>The two outcomes: everything as asked, or nothing and an error.\<close>

lemma set_encoder_cases:
  assumes "setVideoEncoderConfiguration current update av xerr body m2 st = (resp, st')"
  obtains (accepted) r n where "parseVideoEncoderConfiguration xerr body = Inr r"
      "next_config (current st) r = Inr n" "resp \<noteq> None" "rs_status (the resp) = 200"
      "current st' = n" "validate n = None"
    | (refused) "kept (equal_fold (elementText body ''ForcePersistence'') ''true'') st st'"
      "resp = None \<or> rs_status (the resp) = 500"
proof -
  have "(\<exists>r n. parseVideoEncoderConfiguration xerr body = Inr r \<and> next_config (current st) r = Inr n
      \<and> resp \<noteq> None \<and> rs_status (the resp) = 200 \<and> current st' = n \<and> validate n = None)
    \<or> kept (equal_fold (elementText body ''ForcePersistence'') ''true'') st st' \<and> (resp = None \<or> rs_status (the resp) = 500)"
  proof (cases "parseVideoEncoderConfiguration xerr body")
    case (Inr r)
    show ?thesis
    proof (cases "next_config (current st) r")
      case n: (Inr n)
      define p where "p = equal_fold (elementText body ''ForcePersistence'') ''true''"
      obtain res st1 where up: "update n p st = (res, st1)" by force
      show ?thesis
      proof (cases "av \<and> res = UpdateOk")
        case True
        then have "current st1 = n" "validate n = None"
          using up accepted_valid [of n p st] accepted_exact [of n p st] next_config_video [OF n] by simp_all
        then show ?thesis
          using assms Inr n up True
          by (auto simp: setVideoEncoderConfiguration_def p_def [symmetric] soap_def soapMedia2_def)
      next
        case False
        then show ?thesis
          using assms Inr n up refused_kept [of n p st] kept_refl
          by (cases res) (auto simp: setVideoEncoderConfiguration_def p_def [symmetric] fault_def split: if_splits)
      qed
    qed (use assms Inr kept_refl in \<open>auto simp: setVideoEncoderConfiguration_def fault_def split: if_splits prod.splits\<close>)
  qed (use assms kept_refl in \<open>auto simp: setVideoEncoderConfiguration_def fault_def split: if_splits\<close>)
  with accepted refused show ?thesis by blast
qed

end


lemma update_stored:
  assumes "UpdateConfig lib msg n p st = (UpdateOk, st')"
  shows "m_restart (fst st') \<and> (p \<or> snd st' = snd st)"
  using assms
  by (cases st) (auto simp: UpdateConfig_def Let_def split: option.splits prod.splits if_splits persist_error.splits)

lemma set_encoder_stored:
  assumes "setVideoEncoderConfiguration CurrentConfig (UpdateConfig lib msg) av xerr body m2 st = (Some resp, st')"
    and "rs_status resp = 200"
  shows "m_restart (fst st') \<and> (equal_fold (elementText body ''ForcePersistence'') ''true'' \<or> snd st' = snd st)"
proof -
  have "\<exists>n. UpdateConfig lib msg n (equal_fold (elementText body ''ForcePersistence'') ''true'') st = (UpdateOk, st')"
    using assms
    by (auto simp: setVideoEncoderConfiguration_def fault_def Let_def
        split: if_splits sum.splits prod.splits update_result.splits)
  then show ?thesis using update_stored by blast
qed

text \<open>An accepted request that asks for persistence has written the file.\<close>

lemma update_persisted:
  assumes "UpdateConfig lib msg n True st = (UpdateOk, st')"
  shows "m_configPath (fst st) \<noteq> [] \<and> persistVideoConfig lib (m_configPath (fst st)) n (snd st) = (None, snd st')
    \<and> validate n = None \<and> CurrentConfig st' = copy_video n (CurrentConfig st)"
  using assms
  by (cases st) (auto simp: UpdateConfig_def CurrentConfig_def Let_def
      split: option.splits prod.splits if_splits persist_error.splits)

lemma set_encoder_persisted:
  assumes "setVideoEncoderConfiguration CurrentConfig (UpdateConfig lib msg) av xerr body m2 st = (Some resp, st')"
    and "rs_status resp = 200" "equal_fold (elementText body ''ForcePersistence'') ''true''"
  shows "av \<and> m_configPath (fst st) \<noteq> []
    \<and> persistVideoConfig lib (m_configPath (fst st)) (CurrentConfig st') (snd st) = (None, snd st')
    \<and> validate (CurrentConfig st') = None \<and> copy_video (CurrentConfig st') (CurrentConfig st) = CurrentConfig st'"
proof -
  have "\<exists>r n. av \<and> next_config (CurrentConfig st) r = Inr n \<and> UpdateConfig lib msg n True st = (UpdateOk, st')"
    using assms
    by (auto simp: setVideoEncoderConfiguration_def fault_def Let_def
        split: if_splits sum.splits prod.splits update_result.splits)
  then obtain r n where n: "av" "next_config (CurrentConfig st) r = Inr n" "UpdateConfig lib msg n True st = (UpdateOk, st')"
    by blast
  note persisted = update_persisted [OF n(3)] next_config_video [OF n(2)]
  then have "CurrentConfig st' = n" by simp
  with persisted n(1) show ?thesis by simp
qed

section \<open>Properties\<close>

text \<open>
  Property C3: \<open>SetVideoEncoderConfiguration\<close> is all or nothing for the running settings. Either it
  answers 200, and then the running configuration is valid, differs from the old one in video fields
  only, FFmpeg is told to restart, and the disk is untouched unless persistence was asked for; or it
  answers a fault (or dies), and then the manager is as before. The disk is as before too, with one
  exception, which the code allows: \<open>os.WriteFile\<close> truncates the configuration file, so when
  persistence was asked for and the system breaks the write off, the client gets a fault and the
  file holds only the beginning of the new text.
\<close>

theorem set_encoder_all_or_nothing:
  "(case setVideoEncoderConfiguration CurrentConfig (UpdateConfig lib msg) av xerr body m2 st of
      (resp, st') \<Rightarrow>
        let persist = equal_fold (elementText body ''ForcePersistence'') ''true'' in
        if resp \<noteq> None \<and> rs_status (the resp) = 200
        then validate (CurrentConfig st') = None \<and> copy_video (CurrentConfig st') (CurrentConfig st) = CurrentConfig st'
          \<and> m_restart (fst st') \<and> (persist \<or> snd st' = snd st)
        else (resp = None \<or> rs_status (the resp) = 500) \<and> fst st' = fst st
          \<and> (snd st' = snd st \<or> persist \<and> torn_write (m_configPath (fst st)) (snd st) (snd st')))"
proof -
  obtain resp st' where e: "setVideoEncoderConfiguration CurrentConfig (UpdateConfig lib msg) av xerr body m2 st = (resp, st')"
    by (rule prod.exhaust)
  have stored: "m_restart (fst st') \<and> (equal_fold (elementText body ''ForcePersistence'') ''true'' \<or> snd st' = snd st)"
    if "resp \<noteq> None" "rs_status (the resp) = 200"
    using set_encoder_stored e that by (metis option.collapse)
  show ?thesis
    unfolding e using e stored
    by (cases rule: vc.set_encoder_cases) (auto simp: next_config_video update_kept_def Let_def)
qed

lemma request_gop:
  assumes "next_config c r = Inr n" "validate n = None" "set_gov r \<noteq> 0"
  shows "wrap64 (set_fps c r * GOPSeconds n) = set_gov r"
proof -
  note r = next_config_ranges [OF assms(1)]
  have n: "n = apply_request c r" using assms(1) by (simp add: next_config_Inr)
  have "set_fps c r * GOPSeconds n = set_gov r"
    using go_div_exact [of "set_fps c r" "set_gov r"] r assms(3) by (simp add: n apply_request_gop)
  moreover have "1 \<le> GOPSeconds n" "GOPSeconds n \<le> 10"
    using assms(2) by (simp_all add: validate_None_iff valid_config_def valid_streams_def)
  then have "0 \<le> set_fps c r * GOPSeconds n" "set_fps c r * GOPSeconds n \<le> 120 * 10"
    using r(2,3) mult_mono [of "set_fps c r" 120 "GOPSeconds n" 10] by simp_all
  ultimately show ?thesis by (simp add: wrap64_id int64_min_def int64_max_def)
qed

definition example_set_body :: "string \<Rightarrow> string \<Rightarrow> int \<Rightarrow> xtoken list" where
  "example_set_body token name i =
     [StartElement ''Configuration'' [(''token'', token)], StartElement ''Resolution'' [],
      StartElement name [], CharData (itoa i), EndElement name, EndElement ''Resolution'', EndElement ''Configuration'']"

lemma example_set_parse:
  assumes "token \<noteq> []" "0 \<le> i" "i \<le> 100000"
  shows "parseVideoEncoderConfiguration [] (example_set_body token ''Width'' i) =
     Inr (empty_request\<lparr>vr_Token := token, vr_Width := i\<rparr>)"
  using assms
  by (simp add: parseVideoEncoderConfiguration_def example_set_body_def empty_request_def decode_configuration_def
      decode_resolution_def decode_int_field_def decode_int_itoa int64_min_def int64_max_def)

lemma kbps_4000: "itoa 4000 @ ''k'' = ''4000k''" "bitrateKbps ''4000k'' = 4000"
proof -
  show k: "itoa 4000 @ ''k'' = ''4000k''" by (simp add: itoa_def digit_chars dec_nat.simps)
  show "bitrateKbps ''4000k'' = 4000" using bitrateKbps_itoa [of 4000] unfolding k by (simp add: int64_max_def)
qed


text \<open>An accepted update without persistence.\<close>

lemma set_encoder_accepts:
  assumes "parseVideoEncoderConfiguration xerr body = Inr r" "next_config (m_cfg m) r = Inr n"
    and "validate n = None" "\<not> equal_fold (elementText body ''ForcePersistence'') ''true''"
  shows "setVideoEncoderConfiguration CurrentConfig (UpdateConfig lib msg) True xerr body m2 (m, d) =
     (Some (if m2 then soapMedia2 ''<tr2:SetVideoEncoderConfigurationResponse/>''
            else soap ''<trt:SetVideoEncoderConfigurationResponse/>''),
      m\<lparr>m_cfg := n, m_restart := True\<rparr>, d)"
  using assms next_config_video [OF assms(2)]
  by (simp add: setVideoEncoderConfiguration_def CurrentConfig_def UpdateConfig_def Let_def)

lemma kbps_fraction: "bitrateKbps ''2.5M'' = 4000"
proof -
  have "to_lower ''2.5M'' = ''2.5m''" by code_simp
  moreover have "trim_space ''2.5m'' = ''2.5m''"
    by (rule trim_space_graphic) (simp_all add: graphic_def)
  moreover have "atoi ''2.5'' = NumSyntax"
    by (simp add: atoi_def parse_int_def parse_int_sign_def parse_uint_def is_digit_def digit_val_def)
  ultimately show ?thesis by (simp add: bitrateKbps_def has_suffix_def trim_suffix_def)
qed

abbreviation example_width_request :: videoEncoderConfigurationRequest where
  "example_width_request \<equiv> empty_request\<lparr>vr_Token := ''screen_encoder'', vr_Width := 1280\<rparr>"

abbreviation example_width_body :: "xtoken list" where
  "example_width_body \<equiv> example_set_body ''screen_encoder'' ''Width'' 1280"

lemma example_next:
  assumes "VideoBitrate c = b" "bitrateKbps b = 4000" "Height c = 1080" "FPS c = 15" "SubstreamEnabled c"
  shows "next_config c example_width_request = Inr (c\<lparr>Width := 1280, VideoBitrate := ''4000k''\<rparr>)"
proof -
  have "apply_request c example_width_request = c\<lparr>Width := 1280, VideoBitrate := ''4000k''\<rparr>"
    using assms kbps_4000
    by (intro config.equality)
      (simp_all add: apply_request_def set_gov_def is_sub_def empty_request_def set_width_def set_height_def
        set_fps_def set_bitrate_def given_or_def)
  then show ?thesis
    using assms
    by (simp add: next_config_Inr encoder_guards_def is_sub_def empty_request_def set_gov_def set_width_def
        set_height_def set_fps_def set_bitrate_def given_or_def bad_size_def go_mod_def go_div_def)
qed

lemma example_not_persistent: "\<not> equal_fold (elementText example_width_body ''ForcePersistence'') ''true''"
  by (simp add: example_set_body_def equal_fold_def)

lemma example_widths_valid:
  "validate (apply_env example_env Default\<lparr>Width := 1280, VideoBitrate := ''4000k''\<rparr>) = None"
  by code_simp

text \<open>A manager with any bit rate that reads as 4000 kbit/s.\<close>

definition example_manager_with :: "string \<Rightarrow> manager \<times> disk" where
  "example_manager_with b = (new_manager (apply_env example_env Default\<lparr>VideoBitrate := b\<rparr>), example_config_disk)"

lemma example_set:
  assumes "bitrateKbps b = 4000"
  shows "setVideoEncoderConfiguration CurrentConfig (UpdateConfig example_json (\<lambda>e. [])) True [] example_width_body False
     (example_manager_with b) =
   (Some (soap ''<trt:SetVideoEncoderConfigurationResponse/>''),
    (fst (example_manager_with b))\<lparr>m_cfg := apply_env example_env Default\<lparr>Width := 1280, VideoBitrate := ''4000k''\<rparr>,
       m_restart := True\<rparr>, snd (example_manager_with b))"
  unfolding example_manager_with_def
  using example_not_persistent example_widths_valid assms
  by (subst set_encoder_accepts [OF example_set_parse example_next])
    (simp_all add: new_manager_def apply_env_eq Default_def)

text \<open>What a client reads in a video encoder configuration.\<close>

definition reports :: "string \<Rightarrow> string \<Rightarrow> int \<Rightarrow> int \<Rightarrow> int \<Rightarrow> int \<Rightarrow> int \<Rightarrow> bool" where \<open>
  reports xml token w h fps kbps gov \<longleftrightarrow>
     contains xml ('' token="'' @ token @ ''">'')
     \<and> contains xml (''<tt:Width>'' @ itoa w @ ''</tt:Width>'')
     \<and> contains xml (''<tt:Height>'' @ itoa h @ ''</tt:Height>'')
     \<and> contains xml (''<tt:FrameRateLimit>'' @ itoa fps @ ''</tt:FrameRateLimit>'')
     \<and> contains xml (''<tt:BitrateLimit>'' @ itoa kbps @ ''</tt:BitrateLimit>'')
     \<and> contains xml (''<tt:GovLength>'' @ itoa gov @ ''</tt:GovLength>'')\<close>

lemma contains_parts:
  "has_prefix (x # s) (y # p) \<longleftrightarrow> x = y \<and> has_prefix s p" "has_prefix s []" "has_prefix (t @ s) (t @ p) \<longleftrightarrow> has_prefix s p"
  "contains s p \<Longrightarrow> contains (t @ s) p"
  by (simp_all add: has_prefix_def contains_append_right)

lemma reports_media1:
  "reports (encoderXMLFor v tag token name w h fps b) token w h fps (bitrateKbps b) (wrap64 (fps * GOPSeconds v))"
  unfolding reports_def encoderXMLFor_def by (intro conjI) (simp_all add: contains_parts)

lemma reports_media2: "reports (media2EncoderConfigXML tag token name w h fps b gov) token w h fps b gov"
  unfolding reports_def media2EncoderConfigXML_def by (intro conjI) (simp_all add: contains_parts)

text \<open>A number of a request, where 0 stands for one that is not given.\<close>

definition asked :: "int \<Rightarrow> int \<Rightarrow> int" where "asked i old = (if i \<noteq> 0 then i else old)"



text \<open>
  A fractional bit rate is lost. \<open>bitrateKbps\<close> reads \<open>2.5M\<close>, which FFmpeg takes as
  2500 kbit/s, as its fallback of 4000, so an accepted request that does not mention the bit
  rate changes it to 4000 kbit/s.
\<close>

theorem fractional_bitrate_replaced:
  assumes "setVideoEncoderConfiguration CurrentConfig (UpdateConfig lib msg) av xerr body m2 st = (Some resp, st')"
    and "rs_status resp = 200" "parseVideoEncoderConfiguration xerr body = Inr r" "\<not> is_sub r"
    and "vr_BitrateLimit r = 0" "VideoBitrate (CurrentConfig st) = ''2.5M''"
  shows "VideoBitrate (CurrentConfig st') = ''4000k''"
  using assms(1)
proof (cases rule: vc.set_encoder_cases)
  case (accepted q n)
  have "bitrateKbps ''2.5M'' = 4000" by (rule kbps_fraction)
  then show ?thesis
    using accepted assms(3-6) kbps_4000 by (simp add: next_config_Inr apply_request_main set_bitrate_def given_or_def)
qed (use assms(2) in auto)

theorem fractional_bitrate_replaced_witness:
  "VideoBitrate (CurrentConfig (snd (setVideoEncoderConfiguration CurrentConfig
     (UpdateConfig example_json (\<lambda>e. [])) True [] example_width_body False (example_manager_with ''2.5M'')))) = ''4000k''"
  unfolding example_set [OF kbps_fraction] snd_conv
  by (rule fractional_bitrate_replaced [OF example_set [OF kbps_fraction] _ example_set_parse])
    (simp_all add: soap_def is_sub_def empty_request_def example_manager_with_def CurrentConfig_def new_manager_def)

text \<open>
  Property C37: two concurrent requests can lose an update. When both read the configuration
  before either writes it, both are answered 200, and the later write of the substream
  request puts the old main stream settings back.
\<close>

theorem concurrent_set_loses_update:
  assumes "next_config (CurrentConfig st) r1 = Inr n1" "next_config (CurrentConfig st) r2 = Inr n2" "is_sub r2"
    and "UpdateConfig lib msg n1 p1 st = (UpdateOk, st1)" "UpdateConfig lib msg n2 p2 st1 = (UpdateOk, st2)"
  shows "CurrentConfig st1 = n1 \<and> Width (CurrentConfig st2) = Width (CurrentConfig st)
    \<and> Height (CurrentConfig st2) = Height (CurrentConfig st) \<and> FPS (CurrentConfig st2) = FPS (CurrentConfig st)
    \<and> VideoBitrate (CurrentConfig st2) = VideoBitrate (CurrentConfig st)"
proof -
  have "CurrentConfig st1 = n1"
    using vc.accepted_exact [of lib msg n1 p1 st] next_config_video [OF assms(1)] assms(4) by simp
  moreover have "CurrentConfig st2 = copy_video n2 n1"
    using vc.accepted_copied [of lib msg n2 p2 st1] assms(5) calculation by simp
  ultimately show ?thesis
    using assms(2,3) by (simp add: copy_video_def next_config_Inr apply_request_sub)
qed


lemma example_sub_valid:
  "validate (apply_env example_env Default\<lparr>SubstreamWidth := 320, SubstreamBitrate := ''4000k''\<rparr>) = None"
  by code_simp

lemma example_next_sub:
  "next_config (apply_env example_env Default)
     (empty_request\<lparr>vr_Token := ''screen_encoder_sub'', vr_Width := 320, vr_BitrateLimit := 4000\<rparr>) =
   Inr (apply_env example_env Default\<lparr>SubstreamWidth := 320, SubstreamBitrate := ''4000k''\<rparr>)"
proof -
  let ?c = "apply_env example_env Default"
  let ?r = "empty_request\<lparr>vr_Token := ''screen_encoder_sub'', vr_Width := 320, vr_BitrateLimit := 4000\<rparr>"
  have c: "SubstreamHeight ?c = 360" "SubstreamFPS ?c = 10" "SubstreamEnabled ?c"
    by (simp_all add: apply_env_eq Default_def)
  have "apply_request ?c ?r = ?c\<lparr>SubstreamWidth := 320, SubstreamBitrate := ''4000k''\<rparr>"
    using kbps_4000 c
    by (intro config.equality)
      (simp_all add: apply_request_def set_gov_def is_sub_def empty_request_def set_width_def set_height_def
        set_fps_def set_bitrate_def given_or_def)
  then show ?thesis
    using c
    by (simp add: next_config_Inr encoder_guards_def is_sub_def empty_request_def set_gov_def set_width_def
        set_height_def set_fps_def set_bitrate_def given_or_def bad_size_def go_mod_def go_div_def)
qed

lemma UpdateConfig_accepts:
  "validate n = None \<Longrightarrow> UpdateConfig lib msg n False (m, d) =
     (UpdateOk, m\<lparr>m_cfg := copy_video n (m_cfg m), m_restart := True\<rparr>, d)"
  by (simp add: UpdateConfig_def)

theorem concurrent_set_loses_update_witness:
  "Width (CurrentConfig (snd (UpdateConfig example_json (\<lambda>e. [])
     (apply_env example_env Default\<lparr>SubstreamWidth := 320, SubstreamBitrate := ''4000k''\<rparr>) False
     (snd (UpdateConfig example_json (\<lambda>e. [])
        (apply_env example_env Default\<lparr>Width := 1280, VideoBitrate := ''4000k''\<rparr>) False
        (new_manager (apply_env example_env Default), example_config_disk)))))) = 1920"
proof -
  let ?c = "apply_env example_env Default"
  have c: "VideoBitrate ?c = ''4000k''" "Height ?c = 1080" "FPS ?c = 15" "SubstreamEnabled ?c" "Width ?c = 1920"
    by (simp_all add: apply_env_eq Default_def)
  have st: "CurrentConfig (new_manager ?c, example_config_disk) = ?c"
    by (simp add: CurrentConfig_def new_manager_def)
  note next_main = example_next [OF c(1) kbps_4000(2) c(2-4)]
  show ?thesis
    unfolding UpdateConfig_accepts [OF example_widths_valid] UpdateConfig_accepts [OF example_sub_valid] snd_conv
    using concurrent_set_loses_update [of "(new_manager ?c, example_config_disk)", unfolded st, OF next_main
        example_next_sub _ UpdateConfig_accepts [OF example_widths_valid] UpdateConfig_accepts [OF example_sub_valid]] c(5)
    by (simp add: is_sub_def)
qed

end
