(* ===== verification/Osd.thy ===== *)
theory Osd
  imports Soap
begin

text \<open>
  The on-screen display service of Media2 (\<open>internal/onvif/osd.go\<close>): one text OSD that lives in
  a file, created, changed, read and deleted by requests. The disk is the state;
  \<open>xerr\<close> is the text of the XML decoder's error.
\<close>

definition osdToken :: string where "osdToken = ''osd_text_1''"

section \<open>The request\<close>

record osdConfiguration =
  osd_Token :: string
  osd_VideoSourceConfigurationToken :: string
  osd_Type :: string
  osd_Position_Type :: string
  osd_Text_Type :: string
  osd_Text_FontSize :: int
  osd_Text_PlainText :: string

definition empty_osd :: osdConfiguration where
  "empty_osd = \<lparr>osd_Token = [], osd_VideoSourceConfigurationToken = [], osd_Type = [], osd_Position_Type = [],
     osd_Text_Type = [], osd_Text_FontSize = 0, osd_Text_PlainText = []\<rparr>"

definition decode_position :: "string \<Rightarrow> attrs \<Rightarrow> xnode list \<Rightarrow> osdConfiguration \<Rightarrow> osdConfiguration option" where
  "decode_position n as cs r = (if n = ''Type'' then Some (r\<lparr>osd_Position_Type := node_text cs\<rparr>) else Some r)"

definition decode_text_string :: "string \<Rightarrow> attrs \<Rightarrow> xnode list \<Rightarrow> osdConfiguration \<Rightarrow> osdConfiguration option" where
  "decode_text_string n as cs r =
     (if n = ''Type'' then Some (r\<lparr>osd_Text_Type := node_text cs\<rparr>)
      else if n = ''FontSize'' then decode_int_field cs (\<lambda>i. r\<lparr>osd_Text_FontSize := i\<rparr>)
      else if n = ''PlainText'' then Some (r\<lparr>osd_Text_PlainText := node_text cs\<rparr>)
      else Some r)"

definition decode_osd :: "string \<Rightarrow> attrs \<Rightarrow> xnode list \<Rightarrow> osdConfiguration \<Rightarrow> osdConfiguration option" where
  "decode_osd n as cs r =
     (if n = ''VideoSourceConfigurationToken'' then Some (r\<lparr>osd_VideoSourceConfigurationToken := node_text cs\<rparr>)
      else if n = ''Type'' then Some (r\<lparr>osd_Type := node_text cs\<rparr>)
      else if n = ''Position'' then decode_children decode_position cs r
      else if n = ''TextString'' then decode_children decode_text_string cs r
      else Some r)"

definition parseOSDConfiguration :: "string \<Rightarrow> xtoken list \<Rightarrow> (string, osdConfiguration) result" where
  "parseOSDConfiguration xerr body =
     (case find_element ''OSD'' body of
        Inl _ \<Rightarrow> Inl ''OSD configuration missing''
      | Inr None \<Rightarrow> Inl (''invalid OSD configuration: '' @ xerr)
      | Inr (Some (as, cs)) \<Rightarrow>
          (case decode_children decode_osd cs (empty_osd\<lparr>osd_Token := attr_value ''token'' as []\<rparr>) of
             None \<Rightarrow> Inl (''invalid OSD configuration: '' @ xerr)
           | Some r \<Rightarrow> Inr r))"

text \<open>
  \<open>len([]rune(text))\<close>: the bytes that are not continuation bytes. The XML decoder lets only
  valid UTF-8 through.
\<close>

definition rune_count :: "string \<Rightarrow> nat" where
  "rune_count s = length (filter (\<lambda>c. let n = (of_char c :: nat) in \<not> (128 \<le> n \<and> n < 192)) s)"

definition validateOSD :: "server \<Rightarrow> osdConfiguration \<Rightarrow> bool \<Rightarrow> string option" where
  "validateOSD s r requireToken = first_error
     [(requireToken \<and> osd_Token r \<noteq> osdToken, ''unknown OSD token''),
      (osd_VideoSourceConfigurationToken r \<noteq> [] \<and> osd_VideoSourceConfigurationToken r \<noteq> ''screen_source'',
         ''unknown video source configuration''),
      (osd_Type r \<noteq> [] \<and> osd_Type r \<noteq> ''Text'', ''only text OSD is supported''),
      (osd_Position_Type r \<noteq> [] \<and> osd_Position_Type r \<noteq> ''UpperLeft'', ''only UpperLeft OSD position is supported''),
      (osd_Text_Type r \<noteq> [] \<and> osd_Text_Type r \<noteq> ''Plain'', ''only Plain OSD text is supported''),
      (osd_Text_FontSize r \<noteq> 0 \<and> osd_Text_FontSize r \<noteq> OSDFontSize (s_cfg s), ''unsupported OSD font size''),
      (osd_Text_PlainText r = [], ''plain-text OSD requires non-empty text''),
      (rune_count (osd_Text_PlainText r) > 256, ''OSD text is limited to 256 characters''),
      (CHR 0x00 \<in> set (osd_Text_PlainText r), ''OSD text contains a NUL character'')]"

section \<open>The file\<close>

definition is_line_end :: "char \<Rightarrow> bool" where
  "is_line_end c \<longleftrightarrow> c = CHR 0x0D \<or> c = CHR 0x0A"

text \<open>\<open>strings.TrimRight(v, "\r\n")\<close>\<close>

definition trim_line_ends :: "string \<Rightarrow> string" where
  "trim_line_ends t = rev (dropWhile is_line_end (rev t))"

text \<open>\<^const>\<open>None\<close> is an error return.\<close>

definition readOSDText :: "platform \<Rightarrow> server \<Rightarrow> disk \<Rightarrow> string option" where
  "readOSDText pf s d =
     (case os_ReadFile d (OSDTextAbsPath (filepath_Abs pf) (s_cfg s)) of
        ReadNotExist \<Rightarrow> Some []
      | ReadError \<Rightarrow> None
      | ReadOk b \<Rightarrow> Some (trim_line_ends b))"

definition writeOSDText ::
  "platform \<Rightarrow> server \<Rightarrow> string \<Rightarrow> disk \<Rightarrow> bool \<times> disk"
where
  "writeOSDText pf s text d =
     (let path = OSDTextAbsPath (filepath_Abs pf) (s_cfg s) in
      case os_MkdirAll (filepath_Dir pf path) d of
        (False, d1) \<Rightarrow> (False, d1)
      | (True, d1) \<Rightarrow> os_WriteFile path text d1)"

section \<open>The handler\<close>

definition osdXML :: "server \<Rightarrow> string \<Rightarrow> string" where \<open>
  osdXML s text =
     ''<tr2:OSDs token="'' @ osdToken @
     ''"><tt:VideoSourceConfigurationToken>screen_source</tt:VideoSourceConfigurationToken><t'' @
     ''t:Type>Text</tt:Type><tt:Position><tt:Type>UpperLeft</tt:Type></tt:Position><tt:TextSt'' @
     ''ring><tt:Type>Plain</tt:Type><tt:FontSize>'' @ itoa (OSDFontSize (s_cfg s)) @
     ''</tt:FontSize><tt:PlainText>'' @ xmlEsc text @ ''</tt:PlainText></tt:TextString></tr2:OSDs>''\<close>

definition osdOptionsXML :: "server \<Rightarrow> string" where \<open>
  osdOptionsXML s =
     ''<tr2:GetOSDOptionsResponse><tr2:Options><tt:MaximumNumberOfOSDs Total="1" PlainText="1'' @
     ''"/><tt:Type>Text</tt:Type><tt:PositionOption>UpperLeft</tt:PositionOption><tt:TextOpti'' @
     ''on><tt:Type>Plain</tt:Type><tt:FontSizeRange><tt:Min>'' @ itoa (OSDFontSize (s_cfg s)) @
     ''</tt:Min><tt:Max>'' @ itoa (OSDFontSize (s_cfg s)) @
     ''</tt:Max></tt:FontSizeRange></tt:TextOption></tr2:Options></tr2:GetOSDOptionsResponse>''\<close>

definition get_osds :: "server \<Rightarrow> string \<Rightarrow> string option \<Rightarrow> response" where
  "get_osds s token text =
     (case text of
        None \<Rightarrow> fault ''ter:Action'' ''Unable to read OSD configuration''
      | Some t \<Rightarrow>
          if token \<noteq> [] \<and> token \<noteq> osdToken then fault ''ter:NoConfig'' (''Unknown OSD token: '' @ token)
          else if t = [] then
            (if token \<noteq> [] then fault ''ter:NoConfig'' ''OSD does not exist''
             else soapMedia2 ''<tr2:GetOSDsResponse/>'')
          else soapMedia2 (''<tr2:GetOSDsResponse>'' @ osdXML s t @ ''</tr2:GetOSDsResponse>''))"

text \<open>Parsing, checking and writing, as \<open>CreateOSD\<close> and \<open>SetOSD\<close> do it.\<close>

definition store_osd ::
  "platform \<Rightarrow> server \<Rightarrow> bool \<Rightarrow> string \<Rightarrow> xtoken list \<Rightarrow> disk
    \<Rightarrow> response \<times> disk"
where
  "store_osd pf s requireToken answer body d =
     (case parseOSDConfiguration (xml_error pf body) body of
        Inl e \<Rightarrow> (fault ''ter:ConfigModify'' e, d)
      | Inr r \<Rightarrow>
          (case validateOSD s r requireToken of
             Some e \<Rightarrow> (fault ''ter:ConfigModify'' e, d)
           | None \<Rightarrow>
               (case writeOSDText pf s (osd_Text_PlainText r) d of
                  (False, d1) \<Rightarrow> (fault ''ter:Action'' ''Unable to persist OSD configuration'', d1)
                | (True, d1) \<Rightarrow> (soapMedia2 answer, d1))))"

definition create_osd ::
  "platform \<Rightarrow> server \<Rightarrow> xtoken list \<Rightarrow> disk \<Rightarrow> response \<times> disk"
where
  "create_osd pf s body d =
     (case readOSDText pf s d of
        None \<Rightarrow> (fault ''ter:Action'' ''Unable to read OSD configuration'', d)
      | Some current \<Rightarrow>
          if current \<noteq> [] then (fault ''ter:MaxOSDs'' ''Only one text OSD is supported'', d)
          else store_osd pf s False
                 (''<tr2:CreateOSDResponse><tr2:OSDToken>'' @ osdToken @ ''</tr2:OSDToken></tr2:CreateOSDResponse>'') body d)"

definition set_osd ::
  "platform \<Rightarrow> server \<Rightarrow> xtoken list \<Rightarrow> disk \<Rightarrow> response \<times> disk"
where
  "set_osd pf s body d =
     (case readOSDText pf s d of
        None \<Rightarrow> (fault ''ter:Action'' ''Unable to read OSD configuration'', d)
      | Some current \<Rightarrow>
          if current = [] then (fault ''ter:NoConfig'' ''OSD does not exist'', d)
          else store_osd pf s True ''<tr2:SetOSDResponse/>'' body d)"

definition delete_osd ::
  "platform \<Rightarrow> server \<Rightarrow> string \<Rightarrow> disk \<Rightarrow> response \<times> disk"
where
  "delete_osd pf s token d =
     (if token \<noteq> osdToken then (fault ''ter:NoConfig'' (''Unknown OSD token: '' @ token), d)
      else
        (case readOSDText pf s d of
           None \<Rightarrow> (fault ''ter:Action'' ''Unable to read OSD configuration'', d)
         | Some current \<Rightarrow>
             if current = [] then (fault ''ter:NoConfig'' ''OSD does not exist'', d)
             else
               (case writeOSDText pf s [] d of
                  (False, d1) \<Rightarrow> (fault ''ter:Action'' ''Unable to persist OSD configuration'', d1)
                | (True, d1) \<Rightarrow> (soapMedia2 ''<tr2:DeleteOSDResponse/>'', d1))))"

text \<open>\<open>handleMedia2OSD\<close>; \<^const>\<open>None\<close> when the action is not one of these.\<close>

definition handleMedia2OSD ::
  "platform \<Rightarrow> server \<Rightarrow> string \<Rightarrow> xtoken list \<Rightarrow> disk
    \<Rightarrow> (response \<times> disk) option"
where
  "handleMedia2OSD pf s action body d =
     (if action = ''GetOSDs'' then Some (get_osds s (elementText body ''OSDToken'') (readOSDText pf s d), d)
      else if action = ''GetOSDOptions'' then
        (let token = elementText body ''ConfigurationToken'' in
         if token \<noteq> [] \<and> token \<noteq> ''screen_source''
         then Some (fault ''ter:NoConfig'' (''Unknown video source configuration: '' @ token), d)
         else Some (soapMedia2 (osdOptionsXML s), d))
      else if action = ''CreateOSD'' then Some (create_osd pf s body d)
      else if action = ''SetOSD'' then Some (set_osd pf s body d)
      else if action = ''DeleteOSD'' then Some (delete_osd pf s (elementText body ''OSDToken'') d)
      else None)"

section \<open>What the file holds\<close>

lemma trim_line_ends_id: "t = [] \<or> \<not> is_line_end (last t) \<Longrightarrow> trim_line_ends t = t"
  by (cases t rule: rev_cases) (simp_all add: trim_line_ends_def)

lemma trim_line_ends_Nil [simp]: "trim_line_ends [] = []"
  by (simp add: trim_line_ends_def)

lemma trim_line_ends_all: "trim_line_ends t = [] \<longleftrightarrow> list_all is_line_end t"
  by (simp add: trim_line_ends_def list_all_iff)

text \<open>A write that reports success is what the next read sees, with the line ends cut.\<close>

lemma read_written_osd:
  assumes "readOSDText pf s d \<noteq> None" "writeOSDText pf s t d = (True, d')"
  shows "readOSDText pf s d' = Some (trim_line_ends t)"
proof -
  let ?p = "OSDTextAbsPath (filepath_Abs pf) (s_cfg s)"
  have "os_WriteFile ?p t d = (True, d')"
    using assms(2) by (auto simp: writeOSDText_def Let_def os_MkdirAll_def split: prod.splits if_splits bool.splits)
  moreover have "os_ReadFile d ?p \<noteq> ReadError" using assms(1) by (auto simp: readOSDText_def)
  ultimately have "os_ReadFile d' ?p = ReadOk t" using os.read_written [of ?p t d] by simp
  then show ?thesis by (simp add: readOSDText_def)
qed

lemma write_failed_osd:
  "writeOSDText pf s t d = (False, d') \<Longrightarrow> d' = d \<or> torn_write (OSDTextAbsPath (filepath_Abs pf) (s_cfg s)) d d'"
  by (auto simp: writeOSDText_def Let_def os_MkdirAll_def dest: failed_write split: prod.splits if_splits bool.splits)

lemma rs_status_simps [simp]: "rs_status (fault c r) = 500" "rs_status (soapMedia2 x) = 200" "rs_status (soap x) = 200"
  "rs_status (eventSOAP x) = 200"
  by (simp_all add: fault_def soapMedia2_def soap_def eventSOAP_def)

section \<open>The service as a single text\<close>

text \<open>
  The specification: the state is the text, empty when there is no OSD. \<^const>\<open>None\<close> is a
  refusal, which changes nothing.
\<close>

definition osd_stored :: "platform \<Rightarrow> server \<Rightarrow> bool \<Rightarrow> xtoken list \<Rightarrow> string option" where
  "osd_stored pf s requireToken body =
     (case parseOSDConfiguration (xml_error pf body) body of
        Inl e \<Rightarrow> None
      | Inr r \<Rightarrow> if validateOSD s r requireToken = None then Some (trim_line_ends (osd_Text_PlainText r)) else None)"

definition osd_spec :: "platform \<Rightarrow> server \<Rightarrow> string \<Rightarrow> xtoken list \<Rightarrow> string \<Rightarrow> string option" where
  "osd_spec pf s action body text =
     (if action = ''CreateOSD'' then (if text = [] then osd_stored pf s False body else None)
      else if action = ''SetOSD'' then (if text \<noteq> [] then osd_stored pf s True body else None)
      else if action = ''DeleteOSD''
        then (if text \<noteq> [] \<and> elementText body ''OSDToken'' = osdToken then Some [] else None)
      else Some text)"

lemma write_osd_ok: "no_refusal d \<Longrightarrow> \<exists>d'. writeOSDText pf s t d = (True, d')"
  by (simp add: writeOSDText_def Let_def os_MkdirAll_def os_WriteFile_def no_refusal_def)

lemma read_osd_ok: "no_refusal d \<Longrightarrow> \<exists>text. readOSDText pf s d = Some text"
  by (auto simp: readOSDText_def os_ReadFile_def no_refusal_def split: option.splits)

lemma store_osd_refines:
  assumes "no_refusal d" "store_osd pf s rt answer body d = (resp, d')"
  shows "case osd_stored pf s rt body of
      None \<Rightarrow> rs_status resp = 500 \<and> d' = d
    | Some t \<Rightarrow> rs_status resp = 200 \<and> readOSDText pf s d' = Some t"
proof (cases "parseOSDConfiguration (xml_error pf body) body")
  case (Inr r)
  obtain d1 where d1: "writeOSDText pf s (osd_Text_PlainText r) d = (True, d1)"
    using write_osd_ok [OF assms(1)] by blast
  moreover have "readOSDText pf s d1 = Some (trim_line_ends (osd_Text_PlainText r))"
    using read_osd_ok [OF assms(1)] d1 by (intro read_written_osd) auto
  ultimately show ?thesis
    using assms(2) Inr by (auto simp: store_osd_def osd_stored_def split: option.splits)
qed (use assms(2) in \<open>auto simp: store_osd_def osd_stored_def\<close>)

lemma create_osd_refines:
  assumes "no_refusal d" "readOSDText pf s d = Some text" "create_osd pf s body d = (resp, d')"
  shows "case osd_spec pf s ''CreateOSD'' body text of
      None \<Rightarrow> rs_status resp = 500 \<and> d' = d
    | Some t \<Rightarrow> rs_status resp = 200 \<and> readOSDText pf s d' = Some t"
proof (cases "text = []")
  case True
  then have "\<exists>answer. store_osd pf s False answer body d = (resp, d')"
    using assms(2,3) by (auto simp: create_osd_def)
  then obtain answer where "store_osd pf s False answer body d = (resp, d')" ..
  from store_osd_refines [OF assms(1) this] True show ?thesis by (simp add: osd_spec_def)
qed (use assms(2,3) in \<open>auto simp: create_osd_def osd_spec_def\<close>)

lemma set_osd_refines:
  assumes "no_refusal d" "readOSDText pf s d = Some text" "set_osd pf s body d = (resp, d')"
  shows "case osd_spec pf s ''SetOSD'' body text of
      None \<Rightarrow> rs_status resp = 500 \<and> d' = d
    | Some t \<Rightarrow> rs_status resp = 200 \<and> readOSDText pf s d' = Some t"
proof (cases "text \<noteq> []")
  case True
  then have "\<exists>answer. store_osd pf s True answer body d = (resp, d')"
    using assms(2,3) by (auto simp: set_osd_def)
  then obtain answer where "store_osd pf s True answer body d = (resp, d')" ..
  from store_osd_refines [OF assms(1) this] True show ?thesis by (simp add: osd_spec_def)
qed (use assms(2,3) in \<open>auto simp: set_osd_def osd_spec_def\<close>)

lemma delete_osd_refines:
  assumes "no_refusal d" "readOSDText pf s d = Some text"
    and "delete_osd pf s (elementText body ''OSDToken'') d = (resp, d')"
  shows "case osd_spec pf s ''DeleteOSD'' body text of
      None \<Rightarrow> rs_status resp = 500 \<and> d' = d
    | Some t \<Rightarrow> rs_status resp = 200 \<and> readOSDText pf s d' = Some t"
proof -
  obtain d1 where d1: "writeOSDText pf s [] d = (True, d1)"
    using write_osd_ok [OF assms(1)] by blast
  then have "readOSDText pf s d1 = Some []" using read_written_osd [OF _ d1] assms(2) by simp
  with d1 assms(2,3) show ?thesis by (auto simp: delete_osd_def osd_spec_def split: if_splits)
qed

section \<open>Properties\<close>

text \<open>
  Property C10: when the system refuses nothing, the OSD service implements a single text:
  creating needs none, changing and deleting need one and its token, a request is answered 200
  exactly when the specification allows it, and then the file reads as the specified text;
  otherwise the answer is a fault and the disk is unchanged.
\<close>

theorem osd_service_refines_text:
  assumes "no_refusal d" "readOSDText pf s d = Some text"
    and "handleMedia2OSD pf s action body d = Some (resp, d')"
    and "action \<in> {''CreateOSD'', ''SetOSD'', ''DeleteOSD''}"
  shows "case osd_spec pf s action body text of
      None \<Rightarrow> rs_status resp = 500 \<and> d' = d
    | Some t \<Rightarrow> rs_status resp = 200 \<and> readOSDText pf s d' = Some t"
  using assms(4,3) create_osd_refines [OF assms(1,2)] set_osd_refines [OF assms(1,2)] delete_osd_refines [OF assms(1,2)]
  by (elim insertE) (simp_all add: handleMedia2OSD_def)


definition example_server :: server where
  "example_server = \<lparr>s_cfg = Default, s_ip = ''10.0.0.5'', s_uuid = ''u''\<rparr>"

definition example_platform :: platform where
  "example_platform = \<lparr>filepath_Abs = Some, filepath_Dir = (\<lambda>p. p), xml_error = (\<lambda>b. []), format_time = (\<lambda>t. []),
     parse_rfc3339 = (\<lambda>s. None), civil = (\<lambda>t. (0, 0, 0, 0, 0, 0)), interface_addrs = [],
     float_out_of_range = int64_min\<rparr>"

definition example_osd_body :: "string \<Rightarrow> xtoken list" where
  "example_osd_body t =
     [StartElement ''OSD'' [], StartElement ''TextString'' [], StartElement ''PlainText'' [], CharData t,
      EndElement ''PlainText'', EndElement ''TextString'', EndElement ''OSD'']"

lemma example_osd_parse:
  "parseOSDConfiguration xerr (example_osd_body t) = Inr (empty_osd\<lparr>osd_Text_PlainText := t\<rparr>)"
  by (simp add: parseOSDConfiguration_def example_osd_body_def empty_osd_def decode_osd_def decode_text_string_def)

lemma rune_count_le: "rune_count s \<le> length s"
  by (simp add: rune_count_def)

lemma example_osd_valid:
  "t \<noteq> [] \<Longrightarrow> length t \<le> 256 \<Longrightarrow> CHR 0x00 \<notin> set t \<Longrightarrow>
     validateOSD s (empty_osd\<lparr>osd_Text_PlainText := t\<rparr>) False = None"
  using rune_count_le [of t] unfolding validateOSD_def first_error_None by (simp add: empty_osd_def)

definition example_empty_disk :: disk where
  "example_empty_disk = \<lparr>files = Map.empty, refused = \<lambda>op path. False, torn = Map.empty\<rparr>"

lemma example_empty: "no_refusal example_empty_disk" "readOSDText pf s example_empty_disk = Some []"
  by (simp_all add: no_refusal_def example_empty_disk_def readOSDText_def os_ReadFile_def)

theorem osd_service_refines_text_witness:
  "readOSDText example_platform example_server (snd (create_osd example_platform example_server
     (example_osd_body ''Door'') example_empty_disk)) = Some ''Door''"
  using osd_service_refines_text [OF example_empty, of example_platform example_server "''CreateOSD''"
      "example_osd_body ''Door''" "fst (create_osd example_platform example_server (example_osd_body ''Door'') example_empty_disk)"
      "snd (create_osd example_platform example_server (example_osd_body ''Door'') example_empty_disk)"]
  by (simp add: handleMedia2OSD_def osd_spec_def osd_stored_def example_osd_parse example_osd_valid
      trim_line_ends_id is_line_end_def)

text \<open>
  The text of a created OSD is what \<open>GetOSDs\<close> reports, if it does not end in a line
  end, and an XML reader of the response recovers it exactly.
\<close>

theorem created_osd_is_reported:
  assumes "no_refusal d" "readOSDText pf s d = Some []" "parseOSDConfiguration (xml_error pf body) body = Inr r"
    and "validateOSD s r False = None" "\<not> is_line_end (last (osd_Text_PlainText r))"
    and "create_osd pf s body d = (resp, d')"
  shows "get_osds s [] (readOSDText pf s d') =
       soapMedia2 (''<tr2:GetOSDsResponse>'' @ osdXML s (osd_Text_PlainText r) @ ''</tr2:GetOSDsResponse>'')
    \<and> xml_unescape (xmlEsc (osd_Text_PlainText r)) = Some (osd_Text_PlainText r)"
proof -
  have "osd_Text_PlainText r \<noteq> []"
    using assms(4) unfolding validateOSD_def first_error_None by simp
  moreover have "readOSDText pf s d' = Some (osd_Text_PlainText r)"
    using create_osd_refines [OF assms(1,2,6)] assms(3,4,5)
    by (simp add: osd_spec_def osd_stored_def trim_line_ends_id)
  moreover have "xml_unescape (xmlEsc t) = Some t" for t by (rule escaping.dec_enc) simp
  ultimately show ?thesis by (simp add: get_osds_def)
qed

theorem created_osd_is_reported_witness:
  "get_osds example_server [] (readOSDText example_platform example_server
     (snd (create_osd example_platform example_server (example_osd_body ''Door'') example_empty_disk))) =
   soapMedia2 (''<tr2:GetOSDsResponse>'' @ osdXML example_server ''Door'' @ ''</tr2:GetOSDsResponse>'')"
  using created_osd_is_reported [OF example_empty example_osd_parse example_osd_valid _ prod.collapse [symmetric],
      of "''Door''"]
  by (simp add: empty_osd_def is_line_end_def)

text \<open>
  A text of line ends only passes the check for a non-empty text and is answered
  200 with a token, but the OSD does not exist afterwards: reading cuts the line ends, so
  \<open>GetOSDs\<close> for the token and \<open>DeleteOSD\<close> answer that there is none.
\<close>

theorem blank_osd_vanishes:
  assumes "no_refusal d" "readOSDText pf s d = Some []" "parseOSDConfiguration (xml_error pf body) body = Inr r"
    and "validateOSD s r False = None" "list_all is_line_end (osd_Text_PlainText r)"
    and "create_osd pf s body d = (resp, d')"
  shows "rs_status resp = 200 \<and> get_osds s osdToken (readOSDText pf s d') = fault ''ter:NoConfig'' ''OSD does not exist''
    \<and> fst (delete_osd pf s osdToken d') = fault ''ter:NoConfig'' ''OSD does not exist''"
proof -
  have "rs_status resp = 200 \<and> readOSDText pf s d' = Some []"
    using create_osd_refines [OF assms(1,2,6)] assms(3-5)
    by (simp add: osd_spec_def osd_stored_def trim_line_ends_all [symmetric])
  then show ?thesis by (simp add: get_osds_def delete_osd_def osdToken_def)
qed


theorem blank_osd_vanishes_witness:
  "rs_status (fst (create_osd example_platform example_server (example_osd_body [CHR 0x0A]) example_empty_disk)) = 200"
  using blank_osd_vanishes [OF example_empty example_osd_parse example_osd_valid _ prod.collapse [symmetric],
      of "[CHR 0x0A]"]
  by (simp add: empty_osd_def is_line_end_def)

end
