(* ===== verification/Server.thy ===== *)
theory Server
  imports Encoder Osd Auth Events
begin

text \<open>
  The HTTP services of \<open>internal/onvif\<close> (\<open>server.go\<close>, \<open>events.go\<close>, \<open>metadata.go\<close>): the
  authorization of SOAP requests, the handlers of the device, media, media2, event and
  pull-point services with the text of every answer, the snapshot, and the dispatch of a
  request to its handler.
\<close>

section \<open>State\<close>

text \<open>
  The parts of the server that requests change: the authenticator (\<^const>\<open>None\<close> when
  authentication is switched off), the event broker, the video controller with the disk, and
  the cached snapshot. \<open>sv_controller\<close> says whether a controller was set.
\<close>

record server_state =
  sv_auth :: "authenticator option"
  sv_broker :: eventBroker
  sv_controller :: bool
  sv_manager :: "manager \<times> disk"
  sv_snapshot :: string
  sv_snapshotUpdated :: time

definition videoConfig :: "server \<Rightarrow> server_state \<Rightarrow> config" where
  "videoConfig s st = (if sv_controller st then CurrentConfig (sv_manager st) else s_cfg s)"

section \<open>Authorization\<close>

text \<open>\<open>Challenge\<close>\<close>

definition challenge :: "golib \<Rightarrow> authenticator \<Rightarrow> bool \<Rightarrow> time \<Rightarrow> response" where
  "challenge lib a stale now =
     (let r = http_error ''authentication required'' 401
      in r\<lparr>rs_headers := (''WWW-Authenticate'', challenge_value lib a stale now) # rs_headers r\<rparr>)"

text \<open>
  \<open>readAuthorizedSOAP\<close>: the body, or the answer that was sent. \<open>readable\<close> says whether reading
  the body succeeded, \<open>now\<close> gives the clock readings in their order.
\<close>

definition readAuthorizedSOAP ::
  "golib \<Rightarrow> bool \<Rightarrow> http_request \<Rightarrow> (nat \<Rightarrow> time) \<Rightarrow> authenticator option
    \<Rightarrow> (response, string) result \<times> authenticator option"
where
  "readAuthorizedSOAP lib readable r now auth =
     (if Method r \<noteq> ''POST'' then (Inl (http_error ''method not allowed'' 405), auth)
      else if \<not> readable \<or> length (Body r) > 2 ^ 20 then (Inl (http_error ''invalid SOAP body'' 400), auth)
      else
        (case auth of
           None \<Rightarrow> (Inr (Body r), None)
         | Some a \<Rightarrow>
             (case VerifyHTTP lib a r (now 0) (now 1) of
                ((ok, stale), a1) \<Rightarrow>
                  if ok then (Inr (Body r), Some a1)
                  else if stale then (Inl (challenge lib a1 True (now 2)), Some a1)
                  else
                    (case VerifyWSSE lib a1 (fst (xml_tokens lib (Body r))) (now 2) of
                       (wsse_ok, a2) \<Rightarrow>
                         if wsse_ok then (Inr (Body r), Some a2)
                         else (Inl (challenge lib a2 False (now 3)), Some a2)))))"

section \<open>The device service\<close>

text \<open>\<open>url.PathEscape\<close>\<close>

definition upper_hex :: "nat \<Rightarrow> char" where
  "upper_hex n = (if n < 10 then digit n else char_of (55 + n))"

definition path_escape_char :: "char \<Rightarrow> string" where
  "path_escape_char c =
     (let n = (of_char c :: nat) in
      if is_digit c \<or> 65 \<le> n \<and> n \<le> 90 \<or> 97 \<le> n \<and> n \<le> 122
        \<or> c \<in> set [CHR ''-'', CHR ''_'', CHR ''.'', CHR 0x7E, CHR ''$'', CHR ''&'', CHR ''+'', CHR '':'', CHR ''='', CHR ''@'']
      then [c]
      else [CHR ''%'', upper_hex (n div 16), upper_hex (n mod 16)])"

definition path_escape :: "string \<Rightarrow> string" where
  "path_escape s = concat (map path_escape_char s)"

text \<open>The addresses of the host are given in their 16-byte form.\<close>

definition networkPrefix :: "platform \<Rightarrow> string \<Rightarrow> int" where
  "networkPrefix pf ip =
     (case parse_ip ip of
        None \<Rightarrow> 24
      | Some target \<Rightarrow>
          (case find (\<lambda>(a, ones). a = target) (concat (interface_addrs pf)) of
             Some (a, ones) \<Rightarrow> ones
           | None \<Rightarrow> 24))"

definition device_information :: "server \<Rightarrow> string" where \<open>
  device_information s =
     ''<tds:GetDeviceInformationResponse><tds:Manufacturer>'' @ xmlEsc (Manufacturer (s_cfg s)) @
     ''</tds:Manufacturer><tds:Model>'' @ xmlEsc (Model (s_cfg s)) @
     ''</tds:Model><tds:FirmwareVersion>'' @ xmlEsc (FirmwareVersion (s_cfg s)) @
     ''</tds:FirmwareVersion><tds:SerialNumber>'' @ xmlEsc (SerialNumber (s_cfg s)) @
     ''</tds:SerialNumber><tds:HardwareId>desktop-screen</tds:HardwareId></tds:GetDeviceInfor'' @
     ''mationResponse>''\<close>

definition date_and_time :: "int \<times> int \<times> int \<times> int \<times> int \<times> int \<Rightarrow> string" where \<open>
  date_and_time t = (case t of (yy, mo, dd, hh, mi, ss) \<Rightarrow>
     ''<tds:GetSystemDateAndTimeResponse><tds:SystemDateAndTime><tt:DateTimeType>NTP</tt:Date'' @
     ''TimeType><tt:DaylightSavings>false</tt:DaylightSavings><tt:UTCDateTime><tt:Time><tt:Ho'' @
     ''ur>'' @ itoa hh @ ''</tt:Hour><tt:Minute>'' @ itoa mi @ ''</tt:Minute><tt:Second>'' @ itoa ss @
     ''</tt:Second></tt:Time><tt:Date><tt:Year>'' @ itoa yy @ ''</tt:Year><tt:Month>'' @ itoa mo @
     ''</tt:Month><tt:Day>'' @ itoa dd @
     ''</tt:Day></tt:Date></tt:UTCDateTime></tds:SystemDateAndTime></tds:GetSystemDateAndTime'' @
     ''Response>'')\<close>

definition capabilities :: "server \<Rightarrow> string" where \<open>
  capabilities s =
     ''<tds:GetCapabilitiesResponse><tds:Capabilities><tt:Device><tt:XAddr>'' @ DeviceURL s @
     ''</tt:XAddr></tt:Device><tt:Media><tt:XAddr>'' @ MediaURL s @
     ''</tt:XAddr><tt:StreamingCapabilities><tt:RTPMulticast>false</tt:RTPMulticast><tt:RTP_T'' @
     ''CP>true</tt:RTP_TCP><tt:RTP_RTSP_TCP>true</tt:RTP_RTSP_TCP></tt:StreamingCapabilities>'' @
     ''</tt:Media><tt:Events><tt:XAddr>'' @ EventURL s @
     ''</tt:XAddr><tt:WSSubscriptionPolicySupport>false</tt:WSSubscriptionPolicySupport><tt:W'' @
     ''SPullPointSupport>true</tt:WSPullPointSupport><tt:WSPausableSubscriptionManagerInterfa'' @
     ''ceSupport>false</tt:WSPausableSubscriptionManagerInterfaceSupport></tt:Events></tds:Ca'' @
     ''pabilities></tds:GetCapabilitiesResponse>''\<close>

definition services :: "server \<Rightarrow> string" where \<open>
  services s =
     ''<tds:GetServicesResponse><tds:Service><tds:Namespace>http://www.onvif.org/ver10/device'' @
     ''/wsdl</tds:Namespace><tds:XAddr>'' @ DeviceURL s @
     ''</tds:XAddr><tds:Version><tt:Major>2</tt:Major><tt:Minor>6</tt:Minor></tds:Version></t'' @
     ''ds:Service><tds:Service><tds:Namespace>http://www.onvif.org/ver10/media/wsdl</tds:Name'' @
     ''space><tds:XAddr>'' @ MediaURL s @
     ''</tds:XAddr><tds:Version><tt:Major>2</tt:Major><tt:Minor>6</tt:Minor></tds:Version></t'' @
     ''ds:Service><tds:Service><tds:Namespace>http://www.onvif.org/ver20/media/wsdl</tds:Name'' @
     ''space><tds:XAddr>'' @ Media2URL s @
     ''</tds:XAddr><tds:Version><tt:Major>2</tt:Major><tt:Minor>6</tt:Minor></tds:Version></t'' @
     ''ds:Service><tds:Service><tds:Namespace>http://www.onvif.org/ver10/events/wsdl</tds:Nam'' @
     ''espace><tds:XAddr>'' @ EventURL s @
     ''</tds:XAddr><tds:Version><tt:Major>2</tt:Major><tt:Minor>6</tt:Minor></tds:Version></t'' @
     ''ds:Service></tds:GetServicesResponse>''\<close>

definition scope_name :: "server \<Rightarrow> string" where
  "scope_name s = path_escape (replace_byte (DeviceName (s_cfg s)) CHR '' '' ''_'')"

definition scopes :: "server \<Rightarrow> string" where \<open>
  scopes s =
     ''<tds:GetScopesResponse><tds:Scopes><tt:ScopeDef>Fixed</tt:ScopeDef><tt:ScopeItem>onvif'' @
     ''://www.onvif.org/type/video_encoder</tt:ScopeItem></tds:Scopes><tds:Scopes><tt:ScopeDe'' @
     ''f>Fixed</tt:ScopeDef><tt:ScopeItem>onvif://www.onvif.org/Profile/Streaming</tt:ScopeIt'' @
     ''em></tds:Scopes><tds:Scopes><tt:ScopeDef>Configurable</tt:ScopeDef><tt:ScopeItem>onvif'' @
     ''://www.onvif.org/name/'' @ scope_name s @
     ''</tt:ScopeItem></tds:Scopes></tds:GetScopesResponse>''\<close>

definition hostname :: "server \<Rightarrow> string" where \<open>
  hostname s =
     ''<tds:GetHostnameResponse><tds:HostnameInformation><tt:FromDHCP>false</tt:FromDHCP><tt:'' @
     ''Name>'' @ xmlEsc (DeviceName (s_cfg s)) @
     ''</tt:Name></tds:HostnameInformation></tds:GetHostnameResponse>''\<close>

definition network_interfaces :: "platform \<Rightarrow> server \<Rightarrow> string" where \<open>
  network_interfaces pf s =
     ''<tds:GetNetworkInterfacesResponse><tds:NetworkInterfaces token="eth0"><tt:Enabled>true'' @
     ''</tt:Enabled><tt:Info><tt:Name>Cherry Desktop Network</tt:Name></tt:Info><tt:IPv4><tt:'' @
     ''Enabled>true</tt:Enabled><tt:Config><tt:Manual><tt:Address>'' @ xmlEsc (s_ip s) @
     ''</tt:Address><tt:PrefixLength>'' @ itoa (networkPrefix pf (s_ip s)) @
     ''</tt:PrefixLength></tt:Manual><tt:DHCP>false</tt:DHCP></tt:Config></tt:IPv4></tds:Netw'' @
     ''orkInterfaces></tds:GetNetworkInterfacesResponse>''\<close>

definition users :: "server \<Rightarrow> string" where \<open>
  users s =
     ''<tds:GetUsersResponse><tds:User><tt:Username>'' @ xmlEsc (ONVIFUsername (s_cfg s)) @
     ''</tt:Username><tt:UserLevel>Administrator</tt:UserLevel></tds:User></tds:GetUsersRespo'' @
     ''nse>''\<close>

definition device_capabilities :: "string" where \<open>
  device_capabilities =
     ''<tds:GetServiceCapabilitiesResponse><tds:Capabilities><tds:Network IPFilter="false" Ze'' @
     ''roConfiguration="false" IPVersion6="false" DynDNS="false" Dot11Configuration="false"/>'' @
     ''<tds:Security TLS1.0="false" TLS1.1="false" TLS1.2="false" OnboardKeyGeneration="false'' @
     ''" AccessPolicyConfig="false" X.509Token="false" SAMLToken="false" KerberosToken="false'' @
     ''" RELToken="false"/></tds:Capabilities></tds:GetServiceCapabilitiesResponse>''\<close>

definition device :: "platform \<Rightarrow> server \<Rightarrow> time \<Rightarrow> xtoken list \<Rightarrow> response" where
  "device pf s now body =
     (let action = soapAction body in
      if action = ''GetDeviceInformation'' then soap (device_information s)
      else if action = ''GetSystemDateAndTime'' then soap (date_and_time (civil pf now))
      else if action = ''GetCapabilities'' then soap (capabilities s)
      else if action = ''GetServices'' then soap (services s)
      else if action = ''GetScopes'' then soap (scopes s)
      else if action = ''GetHostname'' then soap (hostname s)
      else if action = ''GetNetworkInterfaces'' then soap (network_interfaces pf s)
      else if action = ''GetUsers'' then soap (users s)
      else if action = ''GetServiceCapabilities'' then soap device_capabilities
      else fault ''ter:ActionNotSupported'' (''Unsupported ONVIF device action: '' @ action))"

section \<open>Metadata configurations\<close>

definition metadataConfigurationToken :: string where
  "metadataConfigurationToken = ''screen_metadata''"

definition validMetadataRequest :: "server \<Rightarrow> xtoken list \<Rightarrow> bool" where
  "validMetadataRequest s body =
     (let configToken = elementText body ''ConfigurationToken'';
          profileToken = elementText body ''ProfileToken'' in
      if configToken \<noteq> [] \<and> configToken \<noteq> metadataConfigurationToken then False
      else if profileToken \<noteq> [] \<and> streamURLForProfile s profileToken = None then False
      else True)"

definition handleMedia1Metadata :: "server \<Rightarrow> string \<Rightarrow> xtoken list \<Rightarrow> response option" where
  "handleMedia1Metadata s action body =
     (if action = ''GetMetadataConfigurations'' then
        if \<not> MetadataEnabled (s_cfg s) then Some (soap ''<trt:GetMetadataConfigurationsResponse/>'')
        else Some (soap (''<trt:GetMetadataConfigurationsResponse>'' @
               metadataConfigurationXML s ''trt:Configurations'' @ ''</trt:GetMetadataConfigurationsResponse>''))
      else if action = ''GetMetadataConfiguration'' then
        if \<not> MetadataEnabled (s_cfg s) then Some (fault ''ter:NoConfig'' ''Metadata streaming is disabled'')
        else
          let token = elementText body ''ConfigurationToken'' in
          if token \<noteq> metadataConfigurationToken
          then Some (fault ''ter:NoConfig'' (''Unknown metadata configuration: '' @ token))
          else Some (soap (''<trt:GetMetadataConfigurationResponse>'' @
                 metadataConfigurationXML s ''trt:Configuration'' @ ''</trt:GetMetadataConfigurationResponse>''))
      else if action = ''GetMetadataConfigurationOptions'' then
        if \<not> MetadataEnabled (s_cfg s) then Some (fault ''ter:NoConfig'' ''Metadata streaming is disabled'')
        else if \<not> validMetadataRequest s body
          then Some (fault ''ter:NoConfig'' ''Unknown metadata configuration or profile'')
        else Some (soap (''<trt:GetMetadataConfigurationOptionsResponse>'' @
               metadataConfigurationOptionsXML ''trt:Options'' @ ''</trt:GetMetadataConfigurationOptionsResponse>''))
      else None)"

definition handleMedia2Metadata :: "server \<Rightarrow> string \<Rightarrow> xtoken list \<Rightarrow> response option" where
  "handleMedia2Metadata s action body =
     (if action = ''GetMetadataConfigurations'' then
        if \<not> MetadataEnabled (s_cfg s) then Some (soapMedia2 ''<tr2:GetMetadataConfigurationsResponse/>'')
        else if \<not> validMetadataRequest s body
          then Some (fault ''ter:NoConfig'' ''Unknown metadata configuration or profile'')
        else Some (soapMedia2 (''<tr2:GetMetadataConfigurationsResponse>'' @
               metadataConfigurationXML s ''tr2:Configurations'' @ ''</tr2:GetMetadataConfigurationsResponse>''))
      else if action = ''GetMetadataConfigurationOptions'' then
        if \<not> MetadataEnabled (s_cfg s) then Some (fault ''ter:NoConfig'' ''Metadata streaming is disabled'')
        else if \<not> validMetadataRequest s body
          then Some (fault ''ter:NoConfig'' ''Unknown metadata configuration or profile'')
        else Some (soapMedia2 (''<tr2:GetMetadataConfigurationOptionsResponse>'' @
               metadataConfigurationOptionsXML ''tr2:Options'' @ ''</tr2:GetMetadataConfigurationOptionsResponse>''))
      else None)"

section \<open>The media service\<close>

definition video_sources :: "config \<Rightarrow> string" where \<open>
  video_sources v =
     ''<trt:GetVideoSourcesResponse><trt:VideoSources token="desktop"><tt:Framerate>'' @ itoa (FPS v) @
     ''</tt:Framerate><tt:Resolution><tt:Width>'' @ itoa (Width v) @ ''</tt:Width><tt:Height>'' @
     itoa (Height v) @ ''</tt:Height></tt:Resolution></trt:VideoSources></trt:GetVideoSourcesResponse>''\<close>

definition video_source_configuration :: "server \<Rightarrow> config \<Rightarrow> string \<Rightarrow> string" where \<open>
  video_source_configuration s v cfgTag =
     ''<'' @ cfgTag @ '' token="screen_source"><tt:Name>Desktop</tt:Name><tt:UseCount>'' @
     itoa (profileCount s) @ ''</tt:UseCount><tt:SourceToken>desktop</tt:SourceToken><tt:Bounds x="'' @
     itoa (OffsetX v) @ ''" y="'' @ itoa (OffsetY v) @ ''" width="'' @ itoa (Width v) @
     ''" height="'' @ itoa (Height v) @ ''"/></'' @ cfgTag @ ''>''\<close>

definition encoder_options :: "int \<Rightarrow> int \<Rightarrow> int \<Rightarrow> string" where \<open>
  encoder_options width height fps =
     ''<trt:GetVideoEncoderConfigurationOptionsResponse><trt:Options><tt:QualityRange><tt:Min'' @
     ''>1</tt:Min><tt:Max>10</tt:Max></tt:QualityRange><tt:H264><tt:ResolutionsAvailable><tt:'' @
     ''Width>'' @ itoa width @ ''</tt:Width><tt:Height>'' @ itoa height @
     ''</tt:Height></tt:ResolutionsAvailable><tt:GovLengthRange><tt:Min>'' @ itoa fps @
     ''</tt:Min><tt:Max>'' @ itoa (wrap64 (fps * 10)) @
     ''</tt:Max></tt:GovLengthRange><tt:FrameRateRange><tt:Min>1</tt:Min><tt:Max>'' @ itoa fps @
     ''</tt:Max></tt:FrameRateRange><tt:EncodingIntervalRange><tt:Min>1</tt:Min><tt:Max>1</tt'' @
     '':Max></tt:EncodingIntervalRange><tt:H264ProfilesSupported>High</tt:H264ProfilesSupport'' @
     ''ed></tt:H264></trt:Options></trt:GetVideoEncoderConfigurationOptionsResponse>''\<close>

definition stream_uri :: "string \<Rightarrow> string" where \<open>
  stream_uri uri =
     ''<trt:GetStreamUriResponse><trt:MediaUri><tt:Uri>'' @ xmlEsc uri @
     ''</tt:Uri><tt:InvalidAfterConnect>false</tt:InvalidAfterConnect><tt:InvalidAfterReboot>'' @
     ''false</tt:InvalidAfterReboot><tt:Timeout>PT60S</tt:Timeout></trt:MediaUri></trt:GetStr'' @
     ''eamUriResponse>''\<close>

definition snapshot_uri :: "string \<Rightarrow> string" where \<open>
  snapshot_uri uri =
     ''<trt:GetSnapshotUriResponse><trt:MediaUri><tt:Uri>'' @ xmlEsc uri @
     ''</tt:Uri><tt:InvalidAfterConnect>false</tt:InvalidAfterConnect><tt:InvalidAfterReboot>'' @
     ''false</tt:InvalidAfterReboot><tt:Timeout>PT60S</tt:Timeout></trt:MediaUri></trt:GetSna'' @
     ''pshotUriResponse>''\<close>

definition guaranteed_instances :: "server \<Rightarrow> string" where \<open>
  guaranteed_instances s =
     ''<trt:GetGuaranteedNumberOfVideoEncoderInstancesResponse><trt:TotalNumber>'' @
     itoa (profileCount s) @ ''</trt:TotalNumber><trt:H264>'' @ itoa (profileCount s) @
     ''</trt:H264></trt:GetGuaranteedNumberOfVideoEncoderInstancesResponse>''\<close>

definition media_capabilities :: "string" where \<open>
  media_capabilities =
     ''<trt:GetServiceCapabilitiesResponse><trt:Capabilities SnapshotUri="true" Rotation="fal'' @
     ''se" VideoSourceMode="false" OSD="false" TemporaryOSDText="false" EXICompression="false'' @
     ''"/></trt:GetServiceCapabilitiesResponse>''\<close>

text \<open>The actions that only read; \<open>v\<close> is what \<open>videoConfig\<close> returns.\<close>

definition media_get :: "server \<Rightarrow> config \<Rightarrow> xtoken list \<Rightarrow> response" where
  "media_get s v body =
     (let action = soapAction body in
      if action = ''GetProfiles''
        then soap (''<trt:GetProfilesResponse>'' @ media1ProfilesXML s v @ ''</trt:GetProfilesResponse>'')
      else if action = ''GetProfile'' then
        (let token = elementText body ''ProfileToken'' in
         case media1ProfileByToken s v token of
           None \<Rightarrow> fault ''ter:NoProfile'' (''Unknown media profile: '' @ token)
         | Some p \<Rightarrow> soap (''<trt:GetProfileResponse>'' @ p @ ''</trt:GetProfileResponse>''))
      else if action = ''GetVideoSources'' then soap (video_sources v)
      else if action = ''GetVideoSourceConfigurations''
        then soap (''<trt:GetVideoSourceConfigurationsResponse>'' @ video_source_configuration s v ''trt:Configurations'' @
               ''</trt:GetVideoSourceConfigurationsResponse>'')
      else if action = ''GetVideoSourceConfiguration''
        then soap (''<trt:GetVideoSourceConfigurationResponse>'' @ video_source_configuration s v ''trt:Configuration'' @
               ''</trt:GetVideoSourceConfigurationResponse>'')
      else if action = ''GetVideoEncoderConfigurations''
        then soap (''<trt:GetVideoEncoderConfigurationsResponse>'' @ encoderXML v ''trt:Configurations'' @
               (if SubstreamEnabled (s_cfg s) then subEncoderXML v ''trt:Configurations'' else []) @
               ''</trt:GetVideoEncoderConfigurationsResponse>'')
      else if action = ''GetVideoEncoderConfiguration'' then
        (let token = elementText body ''ConfigurationToken'';
             answer = (\<lambda>inner. soap (''<trt:GetVideoEncoderConfigurationResponse>'' @ inner @
               ''</trt:GetVideoEncoderConfigurationResponse>'')) in
         if token = ''screen_encoder_sub'' \<and> SubstreamEnabled (s_cfg s) then answer (subEncoderXML v ''trt:Configuration'')
         else if token \<noteq> [] \<and> token \<noteq> ''screen_encoder''
           then fault ''ter:NoConfig'' (''Unknown video encoder configuration: '' @ token)
         else answer (encoderXML v ''trt:Configuration''))
      else if action = ''GetVideoEncoderConfigurationOptions'' then
        (if elementText body ''ConfigurationToken'' = ''screen_encoder_sub'' \<or> elementText body ''ProfileToken'' = ''screen_profile_sub''
         then
           if \<not> SubstreamEnabled (s_cfg s) then fault ''ter:NoConfig'' ''Substream is disabled''
           else soap (encoder_options (SubstreamWidth v) (SubstreamHeight v) (SubstreamFPS v))
         else soap (encoder_options (Width v) (Height v) (FPS v)))
      else if action = ''GetStreamUri'' then
        (case streamURLForProfile s (elementText body ''ProfileToken'') of
           None \<Rightarrow> fault ''ter:NoProfile'' ''Unknown media profile''
         | Some uri \<Rightarrow> soap (stream_uri uri))
      else if action = ''GetSnapshotUri'' then
        (case streamURLForProfile s (elementText body ''ProfileToken'') of
           None \<Rightarrow> fault ''ter:NoProfile'' ''Unknown media profile''
         | Some _ \<Rightarrow> soap (snapshot_uri (SnapshotURL s)))
      else if action = ''GetGuaranteedNumberOfVideoEncoderInstances'' then soap (guaranteed_instances s)
      else if action = ''GetServiceCapabilities'' then soap media_capabilities
      else
        (case handleMedia1Metadata s action body of
           Some r \<Rightarrow> r
         | None \<Rightarrow> fault ''ter:ActionNotSupported'' (''Unsupported ONVIF media action: '' @ action)))"

section \<open>The media2 service\<close>

definition media2_source_configurations :: "server \<Rightarrow> config \<Rightarrow> string" where \<open>
  media2_source_configurations s v =
     ''<tr2:GetVideoSourceConfigurationsResponse><tr2:Configurations token="screen_source"><t'' @
     ''t:Name>Desktop</tt:Name><tt:UseCount>'' @ itoa (profileCount s) @
     ''</tt:UseCount><tt:SourceToken>desktop</tt:SourceToken><tt:Bounds x="'' @ itoa (OffsetX v) @
     ''" y="'' @ itoa (OffsetY v) @ ''" width="'' @ itoa (Width v) @ ''" height="'' @ itoa (Height v) @
     ''"/></tr2:Configurations></tr2:GetVideoSourceConfigurationsResponse>''\<close>

definition encoder_instances :: "server \<Rightarrow> string" where \<open>
  encoder_instances s =
     ''<tr2:GetVideoEncoderInstancesResponse><tr2:Info><tr2:Codec><tr2:Encoding>H264</tr2:Enc'' @
     ''oding><tr2:Number>'' @ itoa (profileCount s) @ ''</tr2:Number></tr2:Codec><tr2:Total>'' @
     itoa (profileCount s) @ ''</tr2:Total></tr2:Info></tr2:GetVideoEncoderInstancesResponse>''\<close>

definition media2_capabilities :: "server \<Rightarrow> string" where \<open>
  media2_capabilities s =
     ''<tr2:GetServiceCapabilitiesResponse><tr2:Capabilities MaximumNumberOfProfiles="'' @
     itoa (profileCount s) @ ''" ConfigurationsSupported="'' @
     (if MetadataEnabled (s_cfg s) then ''VideoSource VideoEncoder Metadata'' else ''VideoSource VideoEncoder'') @
     ''" SnapshotUri="true" Rotation="false" VideoSourceMode="false" OSD="true" TemporaryOSDT'' @
     ''ext="false" Mask="false" RTSPStreaming="true" SecureRTSPStreaming="false" RTPMulticast'' @
     ''="false" RTP_RTSP_TCP="true" AutoStartMulticast="false" MultiTrackStreaming="'' @
     (if MetadataEnabled (s_cfg s) then ''true'' else ''false'') @
     ''"/></tr2:GetServiceCapabilitiesResponse>''\<close>

text \<open>The actions up to the metadata and OSD handlers; \<^const>\<open>None\<close>: not one of them.\<close>

definition media2_get :: "server \<Rightarrow> config \<Rightarrow> xtoken list \<Rightarrow> response option" where
  "media2_get s v body =
     (let action = soapAction body in
      if action = ''GetProfiles'' then
        (let token = elementText body ''Token''; includeConfig = (elementText body ''Type'' \<noteq> []);
             answer = (\<lambda>inner. soapMedia2 (''<tr2:GetProfilesResponse>'' @ inner @ ''</tr2:GetProfilesResponse>'')) in
         if token \<noteq> [] then
           (case media2ProfileByToken s v token includeConfig of
              None \<Rightarrow> Some (fault ''ter:NoProfile'' (''Unknown Media2 profile: '' @ token))
            | Some p \<Rightarrow> Some (answer p))
         else Some (answer (media2ProfileXML s v False includeConfig @
                (if SubstreamEnabled (s_cfg s) then media2ProfileXML s v True includeConfig else []))))
      else if action = ''GetStreamUri'' then
        (case streamURLForProfile s (elementText body ''ProfileToken'') of
           None \<Rightarrow> Some (fault ''ter:NoProfile'' ''Unknown Media2 profile'')
         | Some uri \<Rightarrow>
             let protocol = elementText body ''Protocol'' in
             if protocol \<noteq> [] \<and> protocol \<noteq> ''RTSP'' \<and> protocol \<noteq> ''RtspUnicast''
             then Some (fault ''ter:InvalidStreamSetup'' (''Unsupported Media2 protocol: '' @ protocol))
             else Some (soapMedia2 (''<tr2:GetStreamUriResponse><tr2:Uri>'' @ xmlEsc uri @ ''</tr2:Uri></tr2:GetStreamUriResponse>'')))
      else if action = ''GetSnapshotUri'' then
        (case streamURLForProfile s (elementText body ''ProfileToken'') of
           None \<Rightarrow> Some (fault ''ter:NoProfile'' ''Unknown Media2 profile'')
         | Some _ \<Rightarrow> Some (soapMedia2 (''<tr2:GetSnapshotUriResponse><tr2:Uri>'' @ xmlEsc (SnapshotURL s) @
             ''</tr2:Uri></tr2:GetSnapshotUriResponse>'')))
      else if action = ''GetVideoSourceConfigurations'' then
        (let configurationToken = elementText body ''ConfigurationToken''; profileToken = elementText body ''ProfileToken'' in
         if configurationToken \<noteq> [] \<and> configurationToken \<noteq> ''screen_source''
           then Some (fault ''ter:NoConfig'' (''Unknown video source configuration: '' @ configurationToken))
         else if profileToken \<noteq> [] \<and> streamURLForProfile s profileToken = None
           then Some (fault ''ter:NoProfile'' (''Unknown Media2 profile: '' @ profileToken))
         else Some (soapMedia2 (media2_source_configurations s v)))
      else if action = ''GetVideoEncoderConfigurations''
        then Some (soapMedia2 (''<tr2:GetVideoEncoderConfigurationsResponse>'' @ media2EncoderXML v False @
               (if SubstreamEnabled (s_cfg s) then media2EncoderXML v True else []) @
               ''</tr2:GetVideoEncoderConfigurationsResponse>''))
      else if action = ''GetVideoEncoderInstances'' then
        (let token = elementText body ''ConfigurationToken'' in
         if token \<noteq> [] \<and> token \<noteq> ''screen_source''
         then Some (fault ''ter:NoConfig'' (''Unknown video source configuration: '' @ token))
         else Some (soapMedia2 (encoder_instances s)))
      else if action = ''GetServiceCapabilities'' then Some (soapMedia2 (media2_capabilities s))
      else handleMedia2Metadata s action body)"

section \<open>The event service\<close>

definition event_capabilities :: "string" where \<open>
  event_capabilities =
     ''<tev:GetServiceCapabilitiesResponse><tev:Capabilities WSSubscriptionPolicySupport="fal'' @
     ''se" WSPullPointSupport="true" WSPausableSubscriptionManagerInterfaceSupport="false" Ma'' @
     ''xNotificationProducers="1" MaxPullPoints="'' @ itoa (int maxPullPoints) @
     ''" PersistentNotificationStorage="false"/></tev:GetServiceCapabilitiesResponse>''\<close>

definition event_properties :: "string" where \<open>
  event_properties =
     ''<tev:GetEventPropertiesResponse><tev:TopicNamespaceLocation>http://www.onvif.org/onvif'' @
     ''/ver10/topics/topicns.xml</tev:TopicNamespaceLocation><tev:FixedTopicSet>true</tev:Fix'' @
     ''edTopicSet><wstop:TopicSet><tns1:VideoSource><tns1:VideoLoss wstop:topic="true"><tt:Me'' @
     ''ssageDescription IsProperty="true"><tt:Source><tt:SimpleItemDescription Name="VideoSou'' @
     ''rceConfigurationToken" Type="tt:ReferenceToken"/></tt:Source><tt:Data><tt:SimpleItemDe'' @
     ''scription Name="State" Type="xs:boolean"/></tt:Data></tt:MessageDescription></tns1:Vid'' @
     ''eoLoss></tns1:VideoSource></wstop:TopicSet><tev:TopicExpressionDialect>http://docs.oas'' @
     ''is-open.org/wsn/t-1/TopicExpression/Concrete</tev:TopicExpressionDialect><tev:TopicExp'' @
     ''ressionDialect>http://www.onvif.org/ver10/tev/topicExpression/ConcreteSet</tev:TopicEx'' @
     ''pressionDialect><tev:MessageContentFilterDialect></tev:MessageContentFilterDialect><te'' @
     ''v:MessageContentSchemaLocation>http://www.onvif.org/onvif/ver10/schema/onvif.xsd</tev:'' @
     ''MessageContentSchemaLocation></tev:GetEventPropertiesResponse>''\<close>

definition subscription_created :: "platform \<Rightarrow> server \<Rightarrow> eventSubscription \<Rightarrow> time \<Rightarrow> string" where \<open>
  subscription_created pf s sub now =
     ''<tev:CreatePullPointSubscriptionResponse><tev:SubscriptionReference><wsa5:Address>'' @
     xmlEsc (pullPointURL s (sub_token sub)) @
     ''</wsa5:Address></tev:SubscriptionReference><wsnt:CurrentTime>'' @ format_time pf now @
     ''</wsnt:CurrentTime><wsnt:TerminationTime>'' @ format_time pf (sub_expires sub) @
     ''</wsnt:TerminationTime></tev:CreatePullPointSubscriptionResponse>''\<close>

definition notificationXML :: "platform \<Rightarrow> server \<Rightarrow> eventNotification \<Rightarrow> string" where \<open>
  notificationXML pf s event =
     ''<wsnt:NotificationMessage><wsnt:Topic Dialect="http://www.onvif.org/ver10/tev/topicExp'' @
     ''ression/ConcreteSet">tns1:VideoSource/VideoLoss</wsnt:Topic><wsnt:ProducerReference><w'' @
     ''sa5:Address>'' @ xmlEsc (EventURL s) @
     ''</wsa5:Address></wsnt:ProducerReference><wsnt:Message><tt:Message UtcTime="'' @
     format_time pf (evt_when event) @ ''" PropertyOperation="'' @ xmlEsc (evt_operation event) @
     ''"><tt:Source><tt:SimpleItem Name="VideoSourceConfigurationToken" Value="screen_source"'' @
     ''/></tt:Source><tt:Data><tt:SimpleItem Name="State" Value="'' @
     (if evt_videoLoss event then ''true'' else ''false'') @
     ''"/></tt:Data></tt:Message></wsnt:Message></wsnt:NotificationMessage>''\<close>

definition messages_pulled :: "platform \<Rightarrow> server \<Rightarrow> time \<Rightarrow> time \<Rightarrow> eventNotification list \<Rightarrow> string" where \<open>
  messages_pulled pf s now expires messages =
     ''<tev:PullMessagesResponse><tev:CurrentTime>'' @ format_time pf now @
     ''</tev:CurrentTime><tev:TerminationTime>'' @ format_time pf expires @
     ''</tev:TerminationTime>'' @ concat (map (notificationXML pf s) messages) @
     ''</tev:PullMessagesResponse>''\<close>

definition subscription_renewed :: "platform \<Rightarrow> time \<Rightarrow> time \<Rightarrow> string" where \<open>
  subscription_renewed pf expires now =
     ''<wsnt:RenewResponse><wsnt:TerminationTime>'' @ format_time pf expires @
     ''</wsnt:TerminationTime><wsnt:CurrentTime>'' @ format_time pf now @
     ''</wsnt:CurrentTime></wsnt:RenewResponse>''\<close>

fun create_error_text :: "create_error \<Rightarrow> string" where
  "create_error_text TooManyPullPoints = ''maximum pull-point subscriptions reached''"
| "create_error_text RandomFailed = ''crypto/rand: failed''"

text \<open>\<open>random\<close> are the bytes of a new token; \<open>now\<close> gives the clock readings of the handler.\<close>

definition eventsService ::
  "platform \<Rightarrow> server \<Rightarrow> string option \<Rightarrow> (nat \<Rightarrow> time) \<Rightarrow> xtoken list \<Rightarrow> eventBroker \<Rightarrow> response \<times> eventBroker"
where
  "eventsService pf s random now body b =
     (let action = soapAction body in
      if action = ''GetServiceCapabilities'' then (eventSOAP event_capabilities, b)
      else if action = ''GetEventProperties'' then (eventSOAP event_properties, b)
      else if action = ''CreatePullPointSubscription'' then
        (let ttl = parseTerminationDuration (float_out_of_range pf) (parse_rfc3339 pf) (now 0)
                     (elementText body ''InitialTerminationTime'') defaultEventTTL in
         case create_sub ttl random (now 1) b of
           (Inl e, b1) \<Rightarrow> (fault ''ter:Action'' (create_error_text e), b1)
         | (Inr sub, b1) \<Rightarrow> (eventSOAP (subscription_created pf s sub (now 2)), b1))
      else (fault ''ter:ActionNotSupported'' (''Unsupported ONVIF event action: '' @ action), b))"

text \<open>
  A pull whose first turn finds nothing waits; \<open>waited\<close> is what it then returns (a run of
  \<^const>\<open>pull_steps\<close>).
\<close>

definition pull ::
  "string \<Rightarrow> nat \<Rightarrow> time \<Rightarrow> (eventNotification list \<times> time) option \<Rightarrow> eventBroker
    \<Rightarrow> (eventNotification list \<times> time) option \<times> eventBroker"
where
  "pull token limit now waited b =
     (case pull_turn token limit now b of
        (PullGone, b1) \<Rightarrow> (None, b1)
      | (PullMessages out expires, b1) \<Rightarrow> (Some (out, expires), b1)
      | (PullWait expires, b1) \<Rightarrow> (waited, b1))"

definition no_subscription :: response where
  "no_subscription = fault ''ter:InvalidArgVal'' ''Pull-point subscription does not exist or expired''"

definition pullPointService ::
  "platform \<Rightarrow> server \<Rightarrow> bool \<Rightarrow> (eventNotification list \<times> time) option \<Rightarrow> (nat \<Rightarrow> time) \<Rightarrow> string \<Rightarrow> xtoken list
    \<Rightarrow> eventBroker \<Rightarrow> response \<times> eventBroker"
where
  "pullPointService pf s ready waited now path body b =
     (let token = trim_prefix path ''/onvif/pullpoint/'' in
      if token = [] \<or> contains token ''/''
      then (fault ''ter:InvalidArgVal'' ''Invalid pull-point subscription'', b)
      else
        let action = soapAction body in
        if action = ''PullMessages'' then
          (case pull token (nat (parseMessageLimit (elementText body ''MessageLimit''))) (now 0) waited b of
             (None, b1) \<Rightarrow> (no_subscription, b1)
           | (Some (messages, expires), b1) \<Rightarrow> (eventSOAP (messages_pulled pf s (now 1) expires messages), b1))
        else if action = ''SetSynchronizationPoint'' then
          (case synchronizationPoint token ready (now 0) (now 1) b of
             (False, b1) \<Rightarrow> (no_subscription, b1)
           | (True, b1) \<Rightarrow> (eventSOAP ''<tev:SetSynchronizationPointResponse/>'', b1))
        else if action = ''Renew'' then
          (let ttl = parseTerminationDuration (float_out_of_range pf) (parse_rfc3339 pf) (now 0)
                       (elementText body ''TerminationTime'') defaultEventTTL in
           case renew token ttl (now 1) (now 2) b of
             (None, b1) \<Rightarrow> (no_subscription, b1)
           | (Some expires, b1) \<Rightarrow> (eventSOAP (subscription_renewed pf expires (now 3)), b1))
        else if action = ''Unsubscribe'' then
          (case unsubscribe token b of
             (False, b1) \<Rightarrow> (no_subscription, b1)
           | (True, b1) \<Rightarrow> (eventSOAP ''<wsnt:UnsubscribeResponse/>'', b1))
        else (fault ''ter:ActionNotSupported'' (''Unsupported pull-point action: '' @ action), b))"

section \<open>The snapshot\<close>

text \<open>
  \<open>readJPEGFrame\<close> on the bytes the reader will deliver before it fails; it returns the frame
  and the rest. \<open>None\<close> is an error: the end of the input, or a frame above the limit.
\<close>

fun read_frame :: "nat \<Rightarrow> char \<Rightarrow> string \<Rightarrow> string \<Rightarrow> (string \<times> string) option" where
  "read_frame maxBytes prev frame [] = None"
| "read_frame maxBytes prev frame (b # bs) =
     (let frame = frame @ [b] in
      if length frame > maxBytes then None
      else if prev = CHR 0xFF \<and> b = CHR 0xD9 then Some (frame, bs)
      else read_frame maxBytes b frame bs)"

fun find_frame :: "nat \<Rightarrow> char \<Rightarrow> string \<Rightarrow> (string \<times> string) option" where
  "find_frame maxBytes prev [] = None"
| "find_frame maxBytes prev (b # bs) =
     (if prev = CHR 0xFF \<and> b = CHR 0xD8 then read_frame maxBytes b [CHR 0xFF, CHR 0xD8] bs
      else find_frame maxBytes b bs)"

definition readJPEGFrame :: "nat \<Rightarrow> string \<Rightarrow> (string \<times> string) option" where
  "readJPEGFrame maxBytes bs = find_frame maxBytes CHR 0x00 bs"

text \<open>The inner loop of \<open>snapshotLoop\<close> on one stream of bytes: the frames it caches, in order.\<close>

function cached_frames :: "nat \<Rightarrow> string \<Rightarrow> string list" where
  "cached_frames maxBytes bs =
     (case readJPEGFrame maxBytes bs of
        None \<Rightarrow> []
      | Some (frame, rest) \<Rightarrow> if length rest < length bs then frame # cached_frames maxBytes rest else [])"
  by pat_completeness auto
termination by (relation "measure (\<lambda>(m, bs). length bs)") auto

declare cached_frames.simps [simp del]

text \<open>\<open>snapshot\<close>; \<open>age\<close> is the text of the age header.\<close>

definition snapshot ::
  "golib \<Rightarrow> (duration \<Rightarrow> string) \<Rightarrow> http_request \<Rightarrow> (nat \<Rightarrow> time) \<Rightarrow> server_state \<Rightarrow> response \<times> server_state"
where
  "snapshot lib age r now st =
     (if Method r \<noteq> ''GET'' then (http_error ''method not allowed'' 405, st)
      else
        let answer = (if sv_snapshot st = [] then http_error ''snapshot warming up'' 503
                      else \<lparr>rs_status = 200,
                            rs_headers = [(''Content-Type'', ''image/jpeg''), (''Cache-Control'', ''no-store''),
                              (''X-Cherry-Snapshot-Age'', age (now 2 - sv_snapshotUpdated st))],
                            rs_body = sv_snapshot st\<rparr>) in
        case sv_auth st of
          None \<Rightarrow> (answer, st)
        | Some a \<Rightarrow>
            (case VerifyHTTP lib a r (now 0) (now 1) of
               ((ok, stale), a1) \<Rightarrow>
                 if \<not> ok then (challenge lib a1 stale (now 2), st\<lparr>sv_auth := Some a1\<rparr>)
                 else (answer, st\<lparr>sv_auth := Some a1\<rparr>)))"

section \<open>Dispatch\<close>

text \<open>
  What a request meets beside the server's state: the libraries, the clock, the random bytes,
  the state of the stream, and what a waiting pull returns.
\<close>

record surroundings =
  w_lib :: golib
  w_json :: jsonlib
  w_platform :: platform
  w_persist_text :: "persist_error \<Rightarrow> string"
  w_age :: "duration \<Rightarrow> string"
  w_now :: "nat \<Rightarrow> time"
  w_random :: "string option"
  w_ready :: bool
  w_readable :: bool
  w_waited :: "(eventNotification list \<times> time) option"

text \<open>
  The handlers of the two media services; they share the encoder handler. \<^const>\<open>None\<close>: the
  handler panicked and there is no answer.
\<close>

definition set_encoder :: "surroundings \<Rightarrow> bool \<Rightarrow> xtoken list \<Rightarrow> server_state \<Rightarrow> response option \<times> server_state" where
  "set_encoder w media2 body st =
     (case setVideoEncoderConfiguration CurrentConfig (UpdateConfig (w_json w) (w_persist_text w)) (sv_controller st)
             (xml_error (w_platform w) body) body media2 (sv_manager st) of
        (r, m) \<Rightarrow> (r, st\<lparr>sv_manager := m\<rparr>))"

definition media :: "surroundings \<Rightarrow> server \<Rightarrow> xtoken list \<Rightarrow> server_state \<Rightarrow> response option \<times> server_state" where
  "media w s body st =
     (if soapAction body = ''SetVideoEncoderConfiguration'' then set_encoder w False body st
      else (Some (media_get s (videoConfig s st) body), st))"

definition media2 :: "surroundings \<Rightarrow> server \<Rightarrow> xtoken list \<Rightarrow> server_state \<Rightarrow> response option \<times> server_state" where
  "media2 w s body st =
     (if soapAction body = ''SetVideoEncoderConfiguration'' then set_encoder w True body st
      else
        (case media2_get s (videoConfig s st) body of
           Some r \<Rightarrow> (Some r, st)
         | None \<Rightarrow>
             (case handleMedia2OSD (w_platform w) s (soapAction body) body (snd (sv_manager st)) of
                Some (r, d) \<Rightarrow> (Some r, st\<lparr>sv_manager := (fst (sv_manager st), d)\<rparr>)
              | None \<Rightarrow>
                  (Some (fault ''ter:ActionNotSupported'' (''Unsupported ONVIF Media2 action: '' @ soapAction body)), st))))"

definition plain_text :: "nat \<Rightarrow> string \<Rightarrow> response" where
  "plain_text status text =
     \<lparr>rs_status = status, rs_headers = [(''Content-Type'', ''text/plain; charset=utf-8'')], rs_body = text @ [CHR 0x0A]\<rparr>"

text \<open>
  An authorized SOAP service: the gate, then the handler on the tokens of the body. The
  handler's clock readings follow those of the gate.
\<close>

definition soap_service ::
  "surroundings \<Rightarrow> http_request \<Rightarrow> (xtoken list \<Rightarrow> (nat \<Rightarrow> time) \<Rightarrow> server_state \<Rightarrow> response option \<times> server_state)
    \<Rightarrow> server_state \<Rightarrow> response option \<times> server_state"
where
  "soap_service w r handler st =
     (case readAuthorizedSOAP (w_lib w) (w_readable w) r (w_now w) (sv_auth st) of
        (Inl resp, a) \<Rightarrow> (Some resp, st\<lparr>sv_auth := a\<rparr>)
      | (Inr body, a) \<Rightarrow>
          handler (fst (xml_tokens (w_lib w) body)) (\<lambda>i. w_now w (i + 4)) (st\<lparr>sv_auth := a\<rparr>))"

text \<open>The patterns of the multiplexer in \<open>Run\<close>; paths the multiplexer would clean first are taken as cleaned.\<close>

definition serve :: "surroundings \<Rightarrow> server \<Rightarrow> http_request \<Rightarrow> server_state \<Rightarrow> response option \<times> server_state" where
  "serve w s r st =
     (let path = URLPath r in
      if path = ''/onvif/device_service''
        then soap_service w r (\<lambda>body now st. (Some (device (w_platform w) s (now 0) body), st)) st
      else if path = ''/onvif/media_service'' then soap_service w r (\<lambda>body now. media w s body) st
      else if path = ''/onvif/media2_service'' then soap_service w r (\<lambda>body now. media2 w s body) st
      else if path = ''/onvif/events_service''
        then soap_service w r (\<lambda>body now st.
               case eventsService (w_platform w) s (w_random w) now body (sv_broker st) of
                 (resp, b) \<Rightarrow> (Some resp, st\<lparr>sv_broker := b\<rparr>)) st
      else if has_prefix path ''/onvif/pullpoint/''
        then soap_service w r (\<lambda>body now st.
               case pullPointService (w_platform w) s (w_ready w) (w_waited w) now path body (sv_broker st) of
                 (resp, b) \<Rightarrow> (Some resp, st\<lparr>sv_broker := b\<rparr>)) st
      else if path = ''/snapshot.jpg''
        then (case snapshot (w_lib w) (w_age w) r (w_now w) st of (resp, st1) \<Rightarrow> (Some resp, st1))
      else if path = ''/healthz'' then (Some (plain_text 200 ''ok''), st)
      else if path = ''/readyz''
        then (Some (if w_ready w then plain_text 200 ''ready'' else plain_text 503 ''stream offline''), st)
      else (Some (http_error ''404 page not found'' 404), st))"


section \<open>The gate\<close>

definition refuses :: "surroundings \<Rightarrow> http_request \<Rightarrow> authenticator \<Rightarrow> bool" where
  "refuses w r a \<longleftrightarrow>
     \<not> fst (fst (VerifyHTTP (w_lib w) a r (w_now w 0) (w_now w 1)))
     \<and> \<not> fst (VerifyWSSE (w_lib w) (snd (VerifyHTTP (w_lib w) a r (w_now w 0) (w_now w 1)))
           (fst (xml_tokens (w_lib w) (Body r))) (w_now w 2))"

lemma gate_closed:
  assumes "refuses w r a"
  shows "\<exists>resp a'. readAuthorizedSOAP (w_lib w) readable r (w_now w) (Some a) = (Inl resp, Some a')
    \<and> rs_status resp \<in> {400, 401, 405}"
  using assms
  by (auto simp: readAuthorizedSOAP_def refuses_def http_error_def challenge_def Let_def split: prod.splits)

lemma soap_service_closed:
  assumes "refuses w r a" "sv_auth st = Some a"
  shows "\<exists>resp a'. soap_service w r h st = (Some resp, st\<lparr>sv_auth := a'\<rparr>) \<and> rs_status resp \<in> {400, 401, 405}"
  using gate_closed [OF assms(1), of "w_readable w"] assms(2) by (auto simp: soap_service_def)

lemma snapshot_frame:
  "sv_broker (snd (snapshot lib age r now st)) = sv_broker st \<and> sv_manager (snd (snapshot lib age r now st)) = sv_manager st"
  by (auto simp: snapshot_def Let_def split: option.splits prod.splits)

definition soap_path :: "string \<Rightarrow> bool" where
  "soap_path path \<longleftrightarrow> path \<in> set [''/onvif/device_service'', ''/onvif/media_service'', ''/onvif/media2_service'',
     ''/onvif/events_service''] \<or> has_prefix path ''/onvif/pullpoint/''"

text \<open>How \<open>serve\<close> treats a path: a SOAP service behind the gate, or something else.\<close>

lemma serve_soap:
  assumes "soap_path (URLPath r)"
  shows "\<exists>h. serve w s r st = soap_service w r h st"
  using assms by (auto simp: serve_def soap_path_def Let_def)

lemma serve_other:
  assumes "\<not> soap_path (URLPath r)" "serve w s r st = (resp, st')"
  shows "sv_broker st' = sv_broker st \<and> sv_manager st' = sv_manager st"
  using assms snapshot_frame [of "w_lib w" "w_age w" r "w_now w" st]
  by (auto simp: serve_def soap_path_def Let_def split: if_splits prod.splits)

section \<open>Frames\<close>

lemma read_frame_spec:
  assumes "read_frame m prev frame bs = Some (f, rest)" "frame \<noteq> []" "last frame = prev"
  shows "\<exists>tail. f = frame @ tail \<and> bs = tail @ rest \<and> length f \<le> m
    \<and> tail \<noteq> [] \<and> last f = CHR 0xD9 \<and> last (butlast f) = CHR 0xFF"
  using assms
proof (induction m prev frame bs rule: read_frame.induct)
  case (2 m prev frame b bs)
  show ?case
  proof (cases "prev = CHR 0xFF \<and> b = CHR 0xD9")
    case True
    then show ?thesis using 2(2-4) by (auto simp: Let_def split: if_splits)
  next
    case False
    have "read_frame m b (frame @ [b]) bs = Some (f, rest)" "\<not> length (frame @ [b]) > m"
      using 2(2) False by (auto simp: Let_def split: if_splits)
    with 2(1) [OF refl this(2) False] obtain tail where
      "f = (frame @ [b]) @ tail" "bs = tail @ rest" "length f \<le> m" "last f = CHR 0xD9" "last (butlast f) = CHR 0xFF"
      by auto
    then show ?thesis by (intro exI [of _ "b # tail"]) simp
  qed
qed simp

lemma find_frame_spec:
  assumes "find_frame m prev bs = Some (f, rest)"
  shows "\<exists>gap tail. prev # bs = gap @ f @ rest \<and> f = [CHR 0xFF, CHR 0xD8] @ tail \<and> tail \<noteq> [] \<and> length f \<le> m
    \<and> last f = CHR 0xD9 \<and> last (butlast f) = CHR 0xFF"
  using assms
proof (induction m prev bs rule: find_frame.induct)
  case (2 m prev b bs)
  show ?case
  proof (cases "prev = CHR 0xFF \<and> b = CHR 0xD8")
    case True
    then have "read_frame m b [CHR 0xFF, CHR 0xD8] bs = Some (f, rest)" using 2(2) by simp
    then obtain tail where "f = [CHR 0xFF, CHR 0xD8] @ tail" "bs = tail @ rest" "length f \<le> m" "tail \<noteq> []"
      "last f = CHR 0xD9" "last (butlast f) = CHR 0xFF"
      using read_frame_spec [of m b "[CHR 0xFF, CHR 0xD8]" bs f rest] True by auto
    with True show ?thesis by (intro exI [of _ "[]"] exI [of _ tail]) simp
  next
    case False
    then have "find_frame m b bs = Some (f, rest)" using 2(2) by (simp split: if_splits)
    with 2(1) [OF False] obtain gap tail where "b # bs = gap @ f @ rest" "f = [CHR 0xFF, CHR 0xD8] @ tail"
      "tail \<noteq> []" "length f \<le> m" "last f = CHR 0xD9" "last (butlast f) = CHR 0xFF"
      by blast
    then show ?thesis by (intro exI [of _ "prev # gap"] exI [of _ tail]) simp
  qed
qed simp

lemma jpeg_frame_spec:
  assumes "readJPEGFrame m bs = Some (f, rest)"
  shows "\<exists>gap. bs = gap @ f @ rest" "take 2 f = [CHR 0xFF, CHR 0xD8]" "last f = CHR 0xD9"
    "last (butlast f) = CHR 0xFF" "length f \<le> m" "3 \<le> length f"
proof -
  obtain gap tail where g: "CHR 0x00 # bs = gap @ f @ rest" "f = [CHR 0xFF, CHR 0xD8] @ tail" "tail \<noteq> []"
    and f: "length f \<le> m" "last f = CHR 0xD9" "last (butlast f) = CHR 0xFF"
    using assms find_frame_spec unfolding readJPEGFrame_def by blast
  show "take 2 f = [CHR 0xFF, CHR 0xD8]" "last f = CHR 0xD9" "last (butlast f) = CHR 0xFF" "length f \<le> m"
    "3 \<le> length f"
    using g(2,3) f by (simp_all add: Suc_le_eq)
  have "gap \<noteq> []" using g(1,2) by (cases gap) auto
  then show "\<exists>gap. bs = gap @ f @ rest" using g(1) by (cases gap) auto
qed

lemma cached_frames_subseq: "subseq (concat (cached_frames m bs)) bs"
proof (induction m bs rule: cached_frames.induct)
  case (1 m bs)
  show ?case
  proof (cases "readJPEGFrame m bs")
    case None
    then show ?thesis by (subst cached_frames.simps) simp
  next
    case (Some fr)
    obtain f rest where fr: "fr = (f, rest)" by (cases fr)
    obtain gap where gap: "bs = gap @ f @ rest" and f: "3 \<le> length f"
      using jpeg_frame_spec [of m bs f rest] Some fr by auto
    then have less: "length rest < length bs" by (cases f) auto
    have "subseq (concat (cached_frames m rest)) rest"
      by (rule 1 [OF Some fr [symmetric] less])
    then have "subseq (f @ concat (cached_frames m rest)) (f @ rest)" by (simp add: subseq_append')
    then have "subseq (f @ concat (cached_frames m rest)) bs"
      unfolding gap by (rule list_emb_append2)
    with less show ?thesis using Some fr by (subst cached_frames.simps) simp
  qed
qed


section \<open>Pull-point addresses\<close>

lemma hex_no_slash: "\<not> contains (hex_encode raw) ''/''"
proof -
  have "\<not> is_hex_digit CHR ''/''" by (simp add: is_hex_digit_def)
  then have "CHR ''/'' \<notin> set (hex_encode raw)" using hex_encode_digits by blast
  then show ?thesis by (auto simp: contains_iff)
qed

lemma created_lookup:
  assumes "broker_ok b" "create_sub ttl (Some raw) now b = (Inr sub, b1)"
  shows "lookup b1 (sub_token sub) = Some sub" "sub_token sub = hex_encode raw" "sub_expires sub = now + ttl" "broker_ok b1"
proof -
  show "lookup b1 (sub_token sub) = Some sub" "sub_token sub = hex_encode raw" "sub_expires sub = now + ttl"
    using assms(2)
    by (auto simp: create_sub_def randomEventToken_def lookup_def update_conv' Let_def split: if_splits)
  show "broker_ok b1" using broker_ok_step [OF assms(1), of "Create ttl (Some raw) now"] assms(2) by simp
qed

lemma live_turn:
  assumes "lookup (cleanupLocked now b) token = Some sub"
  shows "fst (pull_turn token n now b) \<noteq> PullGone"
  using assms by (simp add: pull_turn_def lookup_def Let_def)

lemma live_pull:
  assumes "waited \<noteq> None" "fst (pull_turn token n now b) \<noteq> PullGone"
  shows "\<exists>p b2. pull token n now waited b = (Some p, b2)"
  using assms by (auto simp: pull_def split: prod.splits pull_result.splits)

lemma contains_append_left: "contains x sub \<Longrightarrow> contains (x @ b) sub"
  by (metis append_assoc contains_iff)

lemma contains_event_envelope: "contains inner sub \<Longrightarrow> contains (event_envelope inner) sub"
  unfolding event_envelope_def
  by (rule contains_append_right, rule contains_append_right, rule contains_append_right, rule contains_append_right,
      rule contains_append_right, rule contains_append_right, rule contains_append_left)

text \<open>The answer to \<open>CreatePullPointSubscription\<close> holds the address of the subscription.\<close>

definition address_element :: "string \<Rightarrow> string" where
  "address_element url = ''<wsa5:Address>'' @ xmlEsc url @ ''</wsa5:Address>''"

lemma created_address:
  "contains (rs_body (eventSOAP (subscription_created pf s sub t))) (address_element (pullPointURL s (sub_token sub)))"
proof -
  have "subscription_created pf s sub t =
      ''<tev:CreatePullPointSubscriptionResponse><tev:SubscriptionReference>'' @
      address_element (pullPointURL s (sub_token sub)) @
      (''</tev:SubscriptionReference><wsnt:CurrentTime>'' @ format_time pf t @
       ''</wsnt:CurrentTime><wsnt:TerminationTime>'' @ format_time pf (sub_expires sub) @
       ''</wsnt:TerminationTime></tev:CreatePullPointSubscriptionResponse>'')"
    by (simp add: subscription_created_def address_element_def)
  then have "contains (subscription_created pf s sub t) (address_element (pullPointURL s (sub_token sub)))"
    by (simp only: contains_mid)
  then show ?thesis unfolding eventSOAP_def response.simps by (rule contains_event_envelope)
qed

lemma created_answer:
  assumes "eventsService pf s random now body b = (resp, b1)" "soapAction body = ''CreatePullPointSubscription''"
    "rs_status resp = 200"
  shows "\<exists>sub ttl. create_sub ttl random (now 1) b = (Inr sub, b1) \<and> resp = eventSOAP (subscription_created pf s sub (now 2))"
  using assms by (auto simp: eventsService_def Let_def split: prod.splits sum.splits)

text \<open>The handler takes the token out of the path of that address.\<close>

lemma pull_point_token:
  assumes "token = hex_encode raw" "raw \<noteq> []"
  shows "trim_prefix (''/onvif/pullpoint/'' @ token) ''/onvif/pullpoint/'' = token" "token \<noteq> []" "\<not> contains token ''/''"
proof -
  show "trim_prefix (''/onvif/pullpoint/'' @ token) ''/onvif/pullpoint/'' = token" by (rule trim_prefix_append)
  have "length token \<noteq> 0" unfolding assms(1) length_hex_encode using assms(2) by simp
  then show "token \<noteq> []" by auto
  show "\<not> contains token ''/''" unfolding assms(1) by (rule hex_no_slash)
qed

lemma pull_at:
  assumes "token = hex_encode raw" "raw \<noteq> []" "lookup (cleanupLocked (now 0) b) token = Some sub"
    "soapAction body = ''PullMessages''"
  shows "\<exists>messages expires b2.
      pull token (nat (parseMessageLimit (elementText body ''MessageLimit''))) (now 0) (Some answer) b = (Some (messages, expires), b2)
      \<and> pullPointService pf s ready (Some answer) now (''/onvif/pullpoint/'' @ token) body b
          = (eventSOAP (messages_pulled pf s (now 1) expires messages), b2)"
proof -
  note token = pull_point_token [OF assms(1,2)]
  have "fst (pull_turn token n (now 0) b) \<noteq> PullGone" for n using assms(3) by (rule live_turn)
  then obtain p b2 where p:
    "pull token (nat (parseMessageLimit (elementText body ''MessageLimit''))) (now 0) (Some answer) b = (Some p, b2)"
    using live_pull [of "Some answer"] by blast
  obtain messages expires where "p = (messages, expires)" by (cases p)
  with p show ?thesis
    unfolding pullPointService_def token(1) Let_def assms(4) using token(2,3) by simp
qed

lemma unsubscribe_at:
  assumes "token = hex_encode raw" "raw \<noteq> []" "lookup b token = Some sub" "soapAction body = ''Unsubscribe''"
  shows "\<exists>b2. pullPointService pf s ready waited now (''/onvif/pullpoint/'' @ token) body b
      = (eventSOAP ''<wsnt:UnsubscribeResponse/>'', b2) \<and> lookup b2 = (lookup b)(token := None)"
proof -
  note token = pull_point_token [OF assms(1,2)]
  have "unsubscribe token b = (True, b\<lparr>subs := AList.delete token (subs b)\<rparr>)"
    using assms(3) by (simp add: unsubscribe_def lookup_def)
  moreover have "lookup (b\<lparr>subs := AList.delete token (subs b)\<rparr>) = (lookup b)(token := None)"
    by (rule ext) simp
  ultimately show ?thesis
    unfolding pullPointService_def token(1) Let_def assms(4) using token(2,3) by simp
qed

section \<open>Scopes\<close>

lemma upper_hex_code:
  "n < 16 \<Longrightarrow> (let k = of_char (upper_hex n) :: nat in 48 \<le> k \<and> k \<le> 57 \<or> 65 \<le> k \<and> k \<le> 70)"
  by (auto simp: upper_hex_def digit_def Let_def)

lemma upper_hex_plain: "n < 16 \<Longrightarrow> upper_hex n \<noteq> CHR '';'' \<and> upper_hex n \<noteq> CHR ''<'' \<and> upper_hex n \<noteq> CHR ''&''"
  using upper_hex_code [of n] by (auto simp: Let_def)

lemma path_escape_char_plain:
  assumes "c' \<in> set (path_escape_char c)"
  shows "c' \<noteq> CHR '';'' \<and> c' \<noteq> CHR ''<'' \<and> (c' = CHR ''&'' \<longrightarrow> c = CHR ''&'')"
proof -
  have hex: "upper_hex (of_char c div 16) \<notin> {CHR '';'', CHR ''<'', CHR ''&''}"
    "upper_hex (of_char c mod 16) \<notin> {CHR '';'', CHR ''<'', CHR ''&''}"
    using upper_hex_plain by simp_all
  consider "path_escape_char c = [c]" "c \<noteq> CHR '';''" "c \<noteq> CHR ''<''"
    | "path_escape_char c = [CHR ''%'', upper_hex (of_char c div 16), upper_hex (of_char c mod 16)]"
  proof (cases "c = CHR '';'' \<or> c = CHR ''<''")
    case True
    then have "path_escape_char c = [CHR ''%'', upper_hex (of_char c div 16), upper_hex (of_char c mod 16)]"
      by (auto simp: path_escape_char_def is_digit_def Let_def)
    then show ?thesis by (rule that(2))
  next
    case False
    moreover have "path_escape_char c = [c] \<or>
        path_escape_char c = [CHR ''%'', upper_hex (of_char c div 16), upper_hex (of_char c mod 16)]"
      unfolding path_escape_char_def Let_def by presburger
    ultimately show ?thesis using that by blast
  qed
  then show ?thesis
  proof cases
    case 1
    then show ?thesis using assms by simp
  next
    case 2
    then show ?thesis using assms hex by auto
  qed
qed

lemma path_escape_char_amp: "path_escape_char CHR ''&'' = ''&''"
  by (simp add: path_escape_char_def)

lemma unescape_plain: "CHR ''&'' \<notin> set s \<Longrightarrow> xml_unescape s = Some s"
  by (induction s) auto

lemma unescape_bare: "CHR ''&'' \<in> set s \<Longrightarrow> CHR '';'' \<notin> set s \<Longrightarrow> xml_unescape s = None"
proof (induction s)
  case (Cons c s)
  have "\<not> has_prefix s p" if "CHR '';'' \<in> set p" for p
    using Cons.prems(2) that by (metis Un_iff has_prefixD list.set_intros(2) set_append)
  then show ?case using Cons by auto
qed simp

lemma amp_in_replace: "CHR ''&'' \<in> set (replace_byte s CHR '' '' ''_'') \<longleftrightarrow> CHR ''&'' \<in> set s"
  by (induction s) auto

lemma amp_in_escape: "CHR ''&'' \<in> set (path_escape s) \<longleftrightarrow> CHR ''&'' \<in> set s"
proof
  show "CHR ''&'' \<in> set (path_escape s) \<Longrightarrow> CHR ''&'' \<in> set s"
    unfolding path_escape_def by (auto dest: path_escape_char_plain)
  assume "CHR ''&'' \<in> set s"
  then show "CHR ''&'' \<in> set (path_escape s)"
    unfolding path_escape_def by (force simp: path_escape_char_amp)
qed

lemma scope_name_reads: "xml_unescape (scope_name s) \<noteq> None \<longleftrightarrow> CHR ''&'' \<notin> set (DeviceName (s_cfg s))"
proof -
  have "CHR '';'' \<notin> set (scope_name s)"
    unfolding scope_name_def path_escape_def by (auto dest: path_escape_char_plain)
  moreover have "CHR ''&'' \<in> set (scope_name s) \<longleftrightarrow> CHR ''&'' \<in> set (DeviceName (s_cfg s))"
    unfolding scope_name_def amp_in_escape amp_in_replace ..
  ultimately show ?thesis using unescape_plain unescape_bare by (cases "CHR ''&'' \<in> set (scope_name s)") auto
qed

section \<open>Properties\<close>

text \<open>
  Property C9: no request changes the server unless it is authorized. When authentication is
  on and neither the Digest header nor the UsernameToken of a request is accepted, the event
  broker, the video configuration and every file stay as they are, and a SOAP service answers
  with an HTTP error.
\<close>

theorem unauthorized_changes_nothing:
  assumes "sv_auth st = Some a" "refuses w r a" "serve w s r st = (resp, st')"
  shows "sv_broker st' = sv_broker st \<and> sv_manager st' = sv_manager st
    \<and> (soap_path (URLPath r) \<longrightarrow> resp \<noteq> None \<and> rs_status (the resp) \<in> {400, 401, 405})"
proof (cases "soap_path (URLPath r)")
  case True
  then obtain h where "serve w s r st = soap_service w r h st" using serve_soap by blast
  with soap_service_closed [OF assms(2,1), of h] assms(3) show ?thesis by auto
next
  case False
  with serve_other [OF False assms(3)] show ?thesis by simp
qed

text \<open>
  Property C31: a frame that \<open>readJPEGFrame\<close> returns is a contiguous piece of the stream that
  begins with the JPEG start marker, ends with the end marker and keeps the size limit; what
  comes before it is skipped and what follows is left for the next frame. The frames that the
  snapshot worker caches one after the other do not overlap.
\<close>

theorem jpeg_frames_delimited:
  "(case readJPEGFrame m bs of
      None \<Rightarrow> True
    | Some (f, rest) \<Rightarrow> (\<exists>gap. bs = gap @ f @ rest) \<and> take 2 f = [CHR 0xFF, CHR 0xD8]
        \<and> last (butlast f) = CHR 0xFF \<and> last f = CHR 0xD9 \<and> length f \<le> m)
   \<and> subseq (concat (cached_frames m bs)) bs"
  using jpeg_frame_spec [of m bs] cached_frames_subseq [of m bs] by (auto split: option.splits)


text \<open>
  \<open>GetScopes\<close> builds the name scope with \<open>url.PathEscape\<close>, which keeps the ampersand,
  and does not escape it for XML: the scope is readable for an XML parser exactly when the
  device name has no ampersand, while \<open>GetHostname\<close> gives every name back.
\<close>

theorem scope_name_not_escaped:
  "(xml_unescape (scope_name s) \<noteq> None \<longleftrightarrow> CHR ''&'' \<notin> set (DeviceName (s_cfg s)))
   \<and> xml_unescape (xmlEsc (DeviceName (s_cfg s))) = Some (DeviceName (s_cfg s))
   \<and> validate (apply_env example_env (Default\<lparr>DeviceName := ''A&B''\<rparr>)) = None"
  by (intro conjI, rule scope_name_reads, rule xml_unescape_xmlEsc, code_simp)

section \<open>Witnesses\<close>

definition example_bare_request :: http_request where
  "example_bare_request = example_request\<lparr>Authorization := [], Body := ''<x/>''\<rparr>"

definition example_world :: surroundings where
  "example_world = \<lparr>w_lib = example_lib, w_json = example_json, w_platform = example_platform,
     w_persist_text = (\<lambda>e. []), w_age = (\<lambda>d. []), w_now = int, w_random = Some ''y'', w_ready = True,
     w_readable = True, w_waited = Some ([], 0)\<rparr>"

definition example_state :: server_state where
  "example_state = \<lparr>sv_auth = Some example_auth, sv_broker = example_broker, sv_controller = True,
     sv_manager = example_manager_with ''4000k'', sv_snapshot = [], sv_snapshotUpdated = 0\<rparr>"

lemma no_digest_header: "trim_space (Authorization r) = [] \<Longrightarrow> VerifyHTTP lib a r now1 now2 = ((False, False), a)"
  by (simp add: VerifyHTTP_def has_prefix_def)

lemma example_refused: "refuses example_world example_bare_request example_auth"
  by (simp add: refuses_def no_digest_header example_bare_request_def trim_space_graphic)
    (simp add: example_world_def example_lib_def VerifyWSSE_def parseUsernameToken_def)

theorem unauthorized_changes_nothing_witness:
  "sv_broker (snd (serve example_world example_server example_bare_request example_state)) = example_broker"
  using unauthorized_changes_nothing [OF _ example_refused prod.collapse [symmetric], of example_state example_server]
  by (simp add: example_state_def)

definition example_action :: "string \<Rightarrow> xtoken list" where
  "example_action action = [StartElement ''Body'' [], StartElement action [], EndElement action, EndElement ''Body'']"

lemma example_create:
  "\<exists>sub. eventsService example_platform example_server (Some ''x'') (\<lambda>i. 0) (example_action ''CreatePullPointSubscription'') (newEventBroker True)
     = (eventSOAP (subscription_created example_platform example_server sub 0), example_broker) \<and> sub = snd (hd (subs example_broker))"
proof -
  have "parseTerminationDuration out rfc 0 [] defaultEventTTL = minute" for out rfc
    by (simp add: parseTerminationDuration_def defaultEventTTL_def)
  then show ?thesis
    by (simp add: eventsService_def example_action_def soapAction_def example_broker_eq create_sub_def
        cleanupLocked_def newEventBroker_def maxPullPoints_def randomEventToken_def example_token_text_def duration_defs Let_def)
qed


end
