(* ===== verification/Discovery.thy ===== *)
theory Discovery
  imports Soap Auth
begin

unbundle bit_operations_syntax

text \<open>
  WS-Discovery (\<open>internal/onvif/discovery.go\<close>): the message id that \<open>messageIDPattern\<close> finds in
  a datagram, the choice between \<open>ProbeMatches\<close>, \<open>ResolveMatches\<close> and no answer, the numbering of
  the answers, and the UUID made from the serial number. A datagram is a byte string; the socket
  is the sequence of datagrams that arrive. The message counter keeps its 64 bits.
\<close>

section \<open>The message id\<close>

text \<open>
  \<open><[^>]*MessageID[^>]*>([^<]+)</[^>]*MessageID>\<close>. The classes make a match after a given \<open><\<close>
  unique: the first tag ends at the next \<open>>\<close>, the group is everything up to the next \<open><\<close>, and
  the closing tag ends at the \<open>>\<close> after that. \<open>id_after\<close> takes the text after the \<open><\<close>.
\<close>

definition until_byte :: "char \<Rightarrow> string \<Rightarrow> (string \<times> string) option" where
  "until_byte b s =
     (case dropWhile (\<lambda>c. c \<noteq> b) s of
        [] \<Rightarrow> None
      | _ # rest \<Rightarrow> Some (takeWhile (\<lambda>c. c \<noteq> b) s, rest))"

definition id_after :: "string \<Rightarrow> string option" where
  "id_after s =
     (case until_byte CHR ''>'' s of
        None \<Rightarrow> None
      | Some (opening, s1) \<Rightarrow>
          if \<not> contains opening ''MessageID'' then None
          else
            (case until_byte CHR ''<'' s1 of
               None \<Rightarrow> None
             | Some (ident, s2) \<Rightarrow>
                 if ident = [] \<or> \<not> has_prefix s2 ''/'' then None
                 else
                   (case until_byte CHR ''>'' (drop 1 s2) of
                      None \<Rightarrow> None
                    | Some (closing, _) \<Rightarrow> if has_suffix closing ''MessageID'' then Some ident else None)))"

text \<open>The leftmost match.\<close>

fun messageIDPattern :: "string \<Rightarrow> string option" where
  "messageIDPattern [] = None"
| "messageIDPattern (c # s) =
     (case (if c = CHR ''<'' then id_after s else None) of
        Some ident \<Rightarrow> Some ident
      | None \<Rightarrow> messageIDPattern s)"

section \<open>Answers\<close>

text \<open>\<open>seq\<close> holds the counter \<open>sequence\<close>, \<open>instanceID\<close> the start time in seconds.\<close>

record discoveryState =
  instanceID :: "64 word"
  sequence_no :: "64 word"

definition start_discovery :: "time \<Rightarrow> discoveryState" where
  "start_discovery now = \<lparr>instanceID = word_of_int (unix_seconds now), sequence_no = 0\<rparr>"

definition uint64_text :: "64 word \<Rightarrow> string" where "uint64_text w = dec_nat (unat w)"

definition discoveryMatch :: "server \<Rightarrow> string" where \<open>
  discoveryMatch s =
     ''<a:EndpointReference><a:Address>urn:uuid:'' @ s_uuid s @
     ''</a:Address></a:EndpointReference><d:Types>dn:NetworkVideoTransmitter</d:Types><d:Scop'' @
     ''es>onvif://www.onvif.org/type/video_encoder onvif://www.onvif.org/Profile/Streaming on'' @
     ''vif://www.onvif.org/name/'' @ xmlEsc (replace_byte (DeviceName (s_cfg s)) CHR '' '' ''_'') @
     ''</d:Scopes><d:XAddrs>'' @ xmlEsc (DeviceURL s) @
     ''</d:XAddrs><d:MetadataVersion>1</d:MetadataVersion>''\<close>

definition relates_to :: "string \<Rightarrow> string" where
  "relates_to relatesTo =
     (if relatesTo \<noteq> [] then ''<a:RelatesTo>'' @ xmlEsc relatesTo @ ''</a:RelatesTo>'' else [])"

definition discoveryEnvelope :: "server \<Rightarrow> string \<Rightarrow> string \<Rightarrow> 64 word \<Rightarrow> 64 word \<Rightarrow> string \<Rightarrow> string" where \<open>
  discoveryEnvelope s action relatesTo inst messageNumber body =
     ''<?xml version="1.0" encoding="UTF-8"?><e:Envelope xmlns:e="http://www.w3.org/2003/05/s'' @
     ''oap-envelope" xmlns:a="http://www.w3.org/2005/08/addressing" xmlns:d="http://schemas.x'' @
     ''mlsoap.org/ws/2005/04/discovery" xmlns:dn="http://www.onvif.org/ver10/network/wsdl"><e'' @
     '':Header><a:Action>http://schemas.xmlsoap.org/ws/2005/04/discovery/'' @ action @
     ''</a:Action><a:MessageID>'' @ ''urn:uuid:'' @ s_uuid s @ ''-'' @ uint64_text messageNumber @
     ''</a:MessageID>'' @ relates_to relatesTo @
     ''<a:To>http://www.w3.org/2005/08/addressing/anonymous</a:To><d:AppSequence InstanceId="'' @
     uint64_text inst @ ''" MessageNumber="'' @ uint64_text messageNumber @
     ''"/></e:Header><e:Body>'' @ body @ ''</e:Body></e:Envelope>''\<close>

definition probeMatches :: "server \<Rightarrow> string \<Rightarrow> 64 word \<Rightarrow> 64 word \<Rightarrow> string" where
  "probeMatches s relatesTo inst messageNumber =
     discoveryEnvelope s ''ProbeMatches'' relatesTo inst messageNumber
       (''<d:ProbeMatches><d:ProbeMatch>'' @ discoveryMatch s @ ''</d:ProbeMatch></d:ProbeMatches>'')"

definition resolveMatches :: "server \<Rightarrow> string \<Rightarrow> 64 word \<Rightarrow> 64 word \<Rightarrow> string" where
  "resolveMatches s relatesTo inst messageNumber =
     discoveryEnvelope s ''ResolveMatches'' relatesTo inst messageNumber
       (''<d:ResolveMatches><d:ResolveMatch>'' @ discoveryMatch s @ ''</d:ResolveMatch></d:ResolveMatches>'')"

section \<open>The loop\<close>

text \<open>One round of \<open>RunDiscovery\<close>: the answer to a datagram, if there is one.\<close>

definition discovery_round :: "server \<Rightarrow> string \<Rightarrow> discoveryState \<Rightarrow> string option \<times> discoveryState" where
  "discovery_round s msg st =
     (let relatesTo = (case messageIDPattern msg of Some m \<Rightarrow> m | None \<Rightarrow> []);
          st1 = st\<lparr>sequence_no := sequence_no st + 1\<rparr> in
      if contains msg ''Probe'' then (Some (probeMatches s relatesTo (instanceID st) (sequence_no st1)), st1)
      else if contains msg ''Resolve'' \<and> contains msg (s_uuid s)
        then (Some (resolveMatches s relatesTo (instanceID st) (sequence_no st1)), st1)
      else (None, st))"

text \<open>The answers to a sequence of datagrams, in their order.\<close>

fun RunDiscovery :: "server \<Rightarrow> string list \<Rightarrow> discoveryState \<Rightarrow> string list \<times> discoveryState" where
  "RunDiscovery s [] st = ([], st)"
| "RunDiscovery s (msg # msgs) st =
     (case discovery_round s msg st of
        (answer, st1) \<Rightarrow>
          (case RunDiscovery s msgs st1 of
             (answers, st2) \<Rightarrow> ((case answer of None \<Rightarrow> [] | Some a \<Rightarrow> [a]) @ answers, st2)))"

section \<open>The UUID of the device\<close>

definition uuid_bytes :: "golib \<Rightarrow> string \<Rightarrow> 8 word list" where
  "uuid_bytes lib seed =
     (let b = map (\<lambda>c. word_of_nat (of_char c)) (take 16 (sha256 lib (''cherry-desktop-cctv:'' @ seed)));
          b6 = b[6 := (b ! 6 AND 0x0F) OR 0x50]
      in b6[8 := (b6 ! 8 AND 0x3F) OR 0x80])"

definition byte_text :: "8 word \<Rightarrow> string" where
  "byte_text w = hex_encode [char_of (unat w)]"

definition bytes_text :: "8 word list \<Rightarrow> string" where
  "bytes_text ws = concat (map byte_text ws)"

definition slice :: "'a list \<Rightarrow> nat \<Rightarrow> nat \<Rightarrow> 'a list" where
  "slice xs i j = take (j - i) (drop i xs)"

definition uuid_text :: "8 word list \<Rightarrow> string" where
  "uuid_text b =
     bytes_text (slice b 0 4) @ ''-'' @ bytes_text (slice b 4 6) @ ''-'' @ bytes_text (slice b 6 8) @ ''-'' @
     bytes_text (slice b 8 10) @ ''-'' @ bytes_text (slice b 10 16)"

definition stableUUID :: "golib \<Rightarrow> string \<Rightarrow> string" where
  "stableUUID lib seed = uuid_text (uuid_bytes lib seed)"

section \<open>The interface to listen on\<close>

record net_interface =
  if_name :: string
  if_up :: bool
  if_loopback :: bool
  if_addrs :: "ip list"

definition interfaceForIP :: "net_interface list \<Rightarrow> string \<Rightarrow> net_interface option" where
  "interfaceForIP ifaces ip =
     (case parse_ip ip of
        None \<Rightarrow> None
      | Some target \<Rightarrow> find (\<lambda>i. target \<in> set (if_addrs i)) ifaces)"

definition interfaceName :: "net_interface option \<Rightarrow> string" where
  "interfaceName iface = (case iface of None \<Rightarrow> ''auto'' | Some i \<Rightarrow> if_name i)"

section \<open>Finding the message id\<close>

lemma until_byte_append [simp]: "b \<notin> set t \<Longrightarrow> until_byte b (t @ b # r) = Some (t, r)"
  by (induction t) (auto simp: until_byte_def split: list.splits)

text \<open>A tag and the text after it.\<close>

definition tag_text :: "string \<times> string \<Rightarrow> string" where
  "tag_text p = ''<'' @ fst p @ ''>'' @ snd p"

definition quiet_tag :: "string \<times> string \<Rightarrow> bool" where
  "quiet_tag p \<longleftrightarrow> CHR ''<'' \<notin> set (fst p) \<and> CHR ''>'' \<notin> set (fst p) \<and> \<not> contains (fst p) ''MessageID''
     \<and> CHR ''<'' \<notin> set (snd p)"

lemma pattern_skips_text: "CHR ''<'' \<notin> set t \<Longrightarrow> messageIDPattern (t @ s) = messageIDPattern s"
  by (induction t) auto

lemma pattern_skips_tag: "quiet_tag p \<Longrightarrow> messageIDPattern (tag_text p @ s) = messageIDPattern s"
proof -
  assume q: "quiet_tag p"
  obtain t x where p: "p = (t, x)" by (cases p)
  have "id_after (t @ CHR ''>'' # x @ s) = None" using q p by (simp add: id_after_def quiet_tag_def)
  then have "messageIDPattern (tag_text p @ s) = messageIDPattern ((t @ ''>'' @ x) @ s)"
    by (simp add: tag_text_def p)
  also have "\<dots> = messageIDPattern s"
    by (rule pattern_skips_text) (use q p in \<open>simp add: quiet_tag_def\<close>)
  finally show ?thesis .
qed

lemma pattern_skips_tags: "list_all quiet_tag tags \<Longrightarrow> messageIDPattern (concat (map tag_text tags) @ s) = messageIDPattern s"
  by (induction tags) (simp_all add: pattern_skips_tag)

text \<open>The element with the message id: opening tag, text, closing tag.\<close>

definition id_element :: "string \<Rightarrow> string \<Rightarrow> string \<Rightarrow> string" where
  "id_element opening m closing = ''<'' @ opening @ ''>'' @ m @ ''</'' @ closing @ ''>''"

definition id_tags :: "string \<Rightarrow> string \<Rightarrow> bool" where
  "id_tags opening closing \<longleftrightarrow> CHR ''>'' \<notin> set opening \<and> contains opening ''MessageID''
     \<and> CHR ''>'' \<notin> set closing \<and> has_suffix closing ''MessageID''"

lemma pattern_finds:
  assumes "id_tags opening closing" "m \<noteq> []" "CHR ''<'' \<notin> set m"
  shows "messageIDPattern (id_element opening m closing @ post) = Some m"
proof -
  have "id_after (opening @ CHR ''>'' # m @ CHR ''<'' # CHR ''/'' # closing @ CHR ''>'' # post) = Some m"
    using assms by (simp add: id_after_def id_tags_def has_prefix_def)
  then show ?thesis by (simp add: id_element_def)
qed

lemma esc_char_long: "c = CHR ''&'' \<or> markup_char c \<Longrightarrow> 1 < length (esc_char c)"
  by (auto simp: esc_char_def markup_char_def)

lemma length_xmlEsc_ge: "length s \<le> length (xmlEsc s)"
proof (induction s)
  case (Cons c s)
  have "1 \<le> length (esc_char c)" by (auto simp: esc_char_def)
  with Cons show ?case by simp
qed simp

lemma xmlEsc_id_iff: "xmlEsc s = s \<longleftrightarrow> list_all (\<lambda>c. c \<noteq> CHR ''&'' \<and> \<not> markup_char c) s"
proof
  assume eq: "xmlEsc s = s"
  have "length (xmlEsc s) = length s \<Longrightarrow> list_all (\<lambda>c. c \<noteq> CHR ''&'' \<and> \<not> markup_char c) s"
  proof (induction s)
    case (Cons c s)
    have "\<not> 1 < length (esc_char c)"
      using Cons.prems length_xmlEsc_ge [of s] by simp
    then have "c \<noteq> CHR ''&'' \<and> \<not> markup_char c" using esc_char_long by blast
    with Cons show ?case by (simp add: esc_char_plain)
  qed simp
  with eq show "list_all (\<lambda>c. c \<noteq> CHR ''&'' \<and> \<not> markup_char c) s" by simp
qed (simp add: list_all_iff xmlEsc_plain)

section \<open>Answers\<close>

lemma probe_answer_contains_probe: "contains (probeMatches s r i n) ''Probe''"
proof -
  have "contains (discoveryEnvelope s (''Probe'' @ ''Matches'') r i n body) ''Probe''" for body
    unfolding discoveryEnvelope_def append_assoc
    by (rule contains_append_right, rule contains_append_right, rule contains_append_right, rule contains_append_right)
      (rule contains_prefix, rule has_prefix_append)
  then show ?thesis by (simp add: probeMatches_def)
qed

definition answered :: "server \<Rightarrow> string \<Rightarrow> bool" where
  "answered s msg \<longleftrightarrow> contains msg ''Probe'' \<or> contains msg ''Resolve'' \<and> contains msg (s_uuid s)"

definition answer_to :: "server \<Rightarrow> string \<Rightarrow> 64 word \<Rightarrow> 64 word \<Rightarrow> string" where
  "answer_to s msg inst n =
     (let relatesTo = (case messageIDPattern msg of Some m \<Rightarrow> m | None \<Rightarrow> []) in
      if contains msg ''Probe'' then probeMatches s relatesTo inst n else resolveMatches s relatesTo inst n)"

lemma discovery_round_eq:
  "discovery_round s msg st =
     (if answered s msg
      then (Some (answer_to s msg (instanceID st) (sequence_no st + 1)), st\<lparr>sequence_no := sequence_no st + 1\<rparr>)
      else (None, st))"
  by (auto simp: discovery_round_def answered_def answer_to_def Let_def)

lemma RunDiscovery_answers:
  "RunDiscovery s msgs st =
     (let ms = filter (answered s) msgs in
      (map (\<lambda>(i, m). answer_to s m (instanceID st) (sequence_no st + word_of_nat (Suc i))) (enumerate 0 ms),
       st\<lparr>sequence_no := sequence_no st + word_of_nat (length ms)\<rparr>))"
proof (induction msgs arbitrary: st)
  case (Cons m msgs)
  show ?case
  proof (cases "answered s m")
    case True
    have shift: "enumerate (Suc 0) ms = map (\<lambda>(i, m). (Suc i, m)) (enumerate 0 ms)" for ms :: "string list"
      by (rule nth_equalityI) (simp_all add: nth_enumerate_eq)
    from True show ?thesis
      by (simp add: discovery_round_eq Cons.IH Let_def shift case_prod_beta ac_simps)
  qed (simp add: discovery_round_eq Cons.IH)
qed simp

lemma dec_nat_inj: "dec_nat m = dec_nat n \<longleftrightarrow> m = n"
  using digits_val_dec_nat by metis

lemma numbers_distinct:
  assumes "i < j" "j < 2 ^ 64"
  shows "uint64_text (n + word_of_nat i) \<noteq> uint64_text (n + word_of_nat j)"
proof -
  have "(word_of_nat i :: 64 word) \<noteq> word_of_nat j"
    using assms by (simp add: word_of_nat_eq_iff take_bit_nat_eq_self)
  then show ?thesis by (simp add: uint64_text_def dec_nat_inj word_eq_iff_unsigned [symmetric])
qed

section \<open>The bytes of the UUID\<close>

lemma byte_text_digits: "byte_text w = [hex_digit (unat w div 16), hex_digit (unat w mod 16)]"
proof -
  have "unat w < 256" using unsigned_less [of w] by simp
  then show ?thesis by (simp add: byte_text_def)
qed

lemma version_nibble: "unat ((x AND 0x0F) OR 0x50 :: 8 word) div 16 = 5"
proof -
  have "drop_bit 4 ((x AND 0x0F) OR 0x50) = (5 :: 8 word)" by simp
  then have "unat (drop_bit 4 ((x AND 0x0F) OR 0x50 :: 8 word)) = 5" by simp
  then show ?thesis by (simp add: drop_bit_eq_div unat_div)
qed

lemma variant_nibble: "unat ((x AND 0x3F) OR 0x80 :: 8 word) div 16 \<in> {8, 9, 10, 11}"
proof -
  have "drop_bit 4 ((x AND 0x3F) OR 0x80) = (drop_bit 4 x AND 3) OR (8 :: 8 word)" by simp
  moreover have "(drop_bit 4 x AND 3 :: 8 word) \<in> {0, 1, 2, 3}"
  proof -
    have "unat (drop_bit 4 x AND 3 :: 8 word) \<le> 3"
      using word_and_le1 [of "drop_bit 4 x" 3] by (simp add: word_le_nat_alt)
    then have "unat (drop_bit 4 x AND 3 :: 8 word) \<in> {unat (0 :: 8 word), unat (1 :: 8 word), unat (2 :: 8 word), unat (3 :: 8 word)}"
      by auto
    then show ?thesis by (simp only: insert_iff empty_iff word_eq_iff_unsigned [symmetric])
  qed
  ultimately have "unat (drop_bit 4 ((x AND 0x3F) OR 0x80 :: 8 word)) \<in> {8, 9, 10, 11}" by auto
  then show ?thesis by (simp add: drop_bit_eq_div unat_div)
qed

lemma list_of_16:
  assumes "length (xs :: 'a list) = 16"
  shows "\<exists>a b c d e f g h i j k l m n p q. xs = [a, b, c, d, e, f, g, h, i, j, k, l, m, n, p, q]"
  using assms by (auto simp: numeral_eq_Suc length_Suc_conv)

lemma bytes_text_dash: "CHR ''-'' \<notin> set (bytes_text ws)"
proof -
  have "hex_digit n \<noteq> CHR ''-''" if "n < 16" for n
    using is_hex_digit_hex_digit [OF that] by (auto simp: is_hex_digit_def Let_def)
  moreover have "unat w div 16 < 16" for w :: "8 word"
  proof -
    have "unat w < 256" using unsigned_less [of w] by simp
    then show ?thesis by simp
  qed
  ultimately have "CHR ''-'' \<notin> set (byte_text w)" for w
    unfolding byte_text_digits by (metis empty_iff insert_iff list.set mod_less_divisor zero_less_numeral)
  then show ?thesis by (simp add: bytes_text_def)
qed

lemma length_bytes_text: "length (bytes_text ws) = 2 * length ws"
  by (induction ws) (simp_all add: bytes_text_def byte_text_digits)

lemma uuid_groups:
  "split_byte (uuid_text b) CHR ''-'' = [bytes_text (slice b 0 4), bytes_text (slice b 4 6), bytes_text (slice b 6 8),
     bytes_text (slice b 8 10), bytes_text (slice b 10 16)]"
  by (simp add: uuid_text_def split_byte_append split_byte_none bytes_text_dash)

lemma uuid_chars:
  assumes "length b = 16"
  shows "length (uuid_text b) = 36" "uuid_text b ! 14 = hex_digit (unat (b ! 6) div 16)"
    "uuid_text b ! 19 = hex_digit (unat (b ! 8) div 16)"
proof -
  show "length (uuid_text b) = 36" using assms by (simp add: uuid_text_def slice_def length_bytes_text)
  obtain b0 b1 b2 b3 b4 b5 b6 b7 b8 b9 b10 b11 b12 b13 b14 b15
    where b: "b = [b0, b1, b2, b3, b4, b5, b6, b7, b8, b9, b10, b11, b12, b13, b14, b15]"
    using list_of_16 [OF assms] by blast
  show "uuid_text b ! 14 = hex_digit (unat (b ! 6) div 16)" "uuid_text b ! 19 = hex_digit (unat (b ! 8) div 16)"
    by (simp_all add: b uuid_text_def slice_def bytes_text_def byte_text_digits)
qed

section \<open>Properties\<close>

text \<open>
  Property C25: the UUID of the device has the form of a version 5 UUID: five groups of
  hexadecimal digits, of 36 characters in all, with the version and variant digits that RFC 4122
  asks for, whatever the serial number is.
\<close>

theorem stable_uuid_form:
  assumes "\<And>x. length (sha256 lib x) = 32"
  shows "length (stableUUID lib seed) = 36 \<and> stableUUID lib seed ! 14 = CHR ''5''
    \<and> stableUUID lib seed ! 19 \<in> set ''89ab''
    \<and> map length (split_byte (stableUUID lib seed) CHR ''-'') = [8, 4, 4, 4, 12]"
proof -
  have b: "length (uuid_bytes lib seed) = 16" "unat (uuid_bytes lib seed ! 6) div 16 = 5"
    "unat (uuid_bytes lib seed ! 8) div 16 \<in> {8, 9, 10, 11}"
    using version_nibble variant_nibble assms by (simp_all add: uuid_bytes_def Let_def)
  have "hex_digit 5 = CHR ''5''" "hex_digit ` {8, 9, 10, 11} = set ''89ab''"
    by code_simp+
  then have "uuid_text (uuid_bytes lib seed) ! 14 = CHR ''5''" "uuid_text (uuid_bytes lib seed) ! 19 \<in> set ''89ab''"
    unfolding uuid_chars(2,3) [OF b(1)] b(2) using b(3) by blast+
  moreover have "map length (split_byte (uuid_text (uuid_bytes lib seed)) CHR ''-'') = [8, 4, 4, 4, 12]"
    unfolding uuid_groups using b(1) by (simp add: length_bytes_text slice_def)
  ultimately show ?thesis unfolding stableUUID_def using uuid_chars(1) [OF b(1)] by blast
qed

theorem stable_uuid_form_witness:
  "length (stableUUID example_lib ''CHERRY-0001'') = 36"
proof -
  have "length (sha256 example_lib x) = 32" for x by (simp add: example_lib_def)
  from stable_uuid_form [OF this] show ?thesis by blast
qed

text \<open>
  Property C15: for every sequence of datagrams, the answers are those to the Probes and to the
  Resolves that name this device, in order, and they are numbered one by one without a gap; the
  numbers of different answers differ, as do the message ids made from them.
\<close>

theorem discovery_answers_numbered:
  assumes "RunDiscovery s msgs st = (answers, st')"
  shows "length answers = length (filter (answered s) msgs)
    \<and> (\<forall>i < length answers. answers ! i = answer_to s (filter (answered s) msgs ! i) (instanceID st) (sequence_no st + word_of_nat (Suc i)))
    \<and> (\<forall>j < length answers. \<forall>i < j. length answers < 2 ^ 64 \<longrightarrow>
         uint64_text (sequence_no st + word_of_nat (Suc i)) \<noteq> uint64_text (sequence_no st + word_of_nat (Suc j)))"
proof -
  have a: "answers = map (\<lambda>(i, m). answer_to s m (instanceID st) (sequence_no st + word_of_nat (Suc i)))
      (enumerate 0 (filter (answered s) msgs))"
    using assms by (simp add: RunDiscovery_answers Let_def)
  have "uint64_text (sequence_no st + word_of_nat (Suc i)) \<noteq> uint64_text (sequence_no st + word_of_nat (Suc j))"
    if "j < length answers" "i < j" "length answers < 2 ^ 64" for i j
    by (rule numbers_distinct) (use that in simp_all)
  then show ?thesis by (simp add: a nth_enumerate_eq del: of_nat_Suc)
qed

definition example_device :: server where
  "example_device = \<lparr>s_cfg = Default, s_ip = ''10.0.0.5'', s_uuid = ''u''\<rparr>"

theorem discovery_answers_numbered_witness:
  "length (fst (RunDiscovery example_device [''<d:Probe/>'', ''<d:Hello/>'', ''<d:Resolve/>u''] (start_discovery 0))) = 2"
proof -
  have "filter (answered example_device) [''<d:Probe/>'', ''<d:Hello/>'', ''<d:Resolve/>u''] = [''<d:Probe/>'', ''<d:Resolve/>u'']"
    by code_simp
  then show ?thesis
    using discovery_answers_numbered [OF prod.collapse [symmetric],
        of example_device "[''<d:Probe/>'', ''<d:Hello/>'', ''<d:Resolve/>u'']" "start_discovery 0"] by simp
qed

text \<open>
  Property C40: the id of a request in the usual form comes back as the text of the answer's
  \<open>RelatesTo\<close>, but escaped once more: the pattern reads it out of the XML text, where it is escaped
  already. The requester reads its own id back exactly when the id needs no escaping.
\<close>

theorem relates_to_escaped_twice:
  assumes "list_all quiet_tag tags" "id_tags opening closing" "x \<noteq> []"
    and "msg = concat (map tag_text tags) @ id_element opening (xmlEsc x) closing @ post" "contains msg ''Probe''"
  shows "fst (discovery_round s msg st) = Some (probeMatches s (xmlEsc x) (instanceID st) (sequence_no st + 1))
    \<and> relates_to (xmlEsc x) = ''<a:RelatesTo>'' @ xmlEsc (xmlEsc x) @ ''</a:RelatesTo>''
    \<and> (xml_unescape (xmlEsc (xmlEsc x)) = Some x \<longleftrightarrow> list_all (\<lambda>c. c \<noteq> CHR ''&'' \<and> \<not> markup_char c) x)"
proof -
  have nonempty: "xmlEsc x \<noteq> []" using length_xmlEsc_ge [of x] assms(3) by auto
  have "CHR ''<'' \<notin> set (xmlEsc x)" using xmlEsc_no_markup by (auto simp: markup_char_def)
  then have "messageIDPattern msg = Some (xmlEsc x)"
    unfolding assms(4) pattern_skips_tags [OF assms(1)] using assms(2) nonempty by (simp add: pattern_finds)
  then show ?thesis
    using assms(5) nonempty by (simp add: discovery_round_eq answered_def answer_to_def relates_to_def xml_unescape_xmlEsc xmlEsc_id_iff)
qed

definition example_probe :: string where
  "example_probe = concat (map tag_text [(''e:Envelope'', []), (''e:Header'', [])]) @
     id_element ''a:MessageID'' (xmlEsc ''urn:a&b'') ''a:MessageID'' @ ''</e:Header><e:Body><d:Probe/></e:Body></e:Envelope>''"

theorem relates_to_escaped_twice_witness:
  "xml_unescape (xmlEsc (xmlEsc ''urn:a&b'')) \<noteq> Some ''urn:a&b''"
proof -
  have "contains example_probe ''Probe''" by code_simp
  moreover have "list_all quiet_tag [(''e:Envelope'', []), (''e:Header'', [])]" "id_tags ''a:MessageID'' ''a:MessageID''"
    by code_simp+
  ultimately show ?thesis
    using relates_to_escaped_twice [OF _ _ _ example_probe_def] by simp
qed

section \<open>Two servers\<close>

text \<open>
  The datagrams that go back and forth when two of these servers receive each other's answers:
  \<open>n\<close> rounds, the first at the server in front.
\<close>

fun exchange :: "nat \<Rightarrow> server \<times> discoveryState \<Rightarrow> server \<times> discoveryState \<Rightarrow> string \<Rightarrow> string list" where
  "exchange 0 a b msg = []"
| "exchange (Suc n) a b msg =
     (case discovery_round (fst a) msg (snd a) of
        (None, _) \<Rightarrow> []
      | (Some answer, st) \<Rightarrow> answer # exchange n b (fst a, st) answer)"

text \<open>
  An answer to a Probe contains the word Probe itself, and the server takes every
  datagram that does for a Probe. Two servers that get each other's answers, because a Probe
  came from the discovery port of one of them, answer each other without end.
\<close>

theorem probe_answers_never_end:
  assumes "contains msg ''Probe''"
  shows "length (exchange n a b msg) = n"
  using assms
proof (induction n arbitrary: a b msg)
  case (Suc n)
  then show ?case by (simp add: discovery_round_eq answered_def answer_to_def probe_answer_contains_probe)
qed simp

theorem probe_answers_never_end_witness:
  "length (exchange 1000000 (example_device, start_discovery 0) (example_device, start_discovery 0) ''<d:Probe/>'') = 1000000"
proof -
  have "contains ''<d:Probe/>'' ''Probe''" by code_simp
  then show ?thesis by (rule probe_answers_never_end)
qed

end
