(* ===== verification/Relay.thy ===== *)
theory Relay
  imports Soap "HOL-Library.Sublist"
begin

text \<open>
  The metadata relay (\<open>internal/capture/metadata_relay.go\<close>): it reads the raw stream of FFmpeg,
  publishes it again under the public path and adds a track of ONVIF metadata documents. The RTP
  state keeps its 16 and 32 bits, the clock its 64 bits. The RTSP client library is a parameter:
  the result of each of its calls. A run is the setup, which may fail at each call, and then the
  events that its loop and the packet callback see, in the order in which they happen.
\<close>

section \<open>RTP packets\<close>

record metadataRTPState =
  ssrc :: "32 word"
  rtp_sequence :: "16 word"

fun big_endian :: "8 word list \<Rightarrow> nat" where
  "big_endian ws = foldl (\<lambda>n w. 256 * n + unat w) 0 ws"

text \<open>The six random bytes, or \<^const>\<open>None\<close> when the system has none.\<close>

definition newMetadataRTPState :: "8 word list option \<Rightarrow> metadataRTPState option" where
  "newMetadataRTPState raw =
     map_option (\<lambda>b. \<lparr>ssrc = word_of_nat (big_endian (take 4 b)), rtp_sequence = word_of_nat (big_endian (drop 4 b))\<rparr>) raw"

record rtp_packet =
  Version :: nat
  PayloadType :: "8 word"
  SequenceNumber :: "16 word"
  Timestamp :: "32 word"
  SSRC :: "32 word"
  Marker :: bool
  Payload :: string

definition metadataClockRate :: nat where "metadataClockRate = 90000"

text \<open>The time stamp: the product wraps at 64 bits, the quotient is cut to 32.\<close>

definition rtp_timestamp :: "time \<Rightarrow> 32 word" where
  "rtp_timestamp now =
     ucast ((word_of_int now * word_of_nat metadataClockRate :: 64 word) div word_of_int second)"

definition packet :: "8 word \<Rightarrow> time \<Rightarrow> string \<Rightarrow> metadataRTPState \<Rightarrow> rtp_packet \<times> metadataRTPState" where
  "packet payloadType now payload s =
     (let s1 = s\<lparr>rtp_sequence := rtp_sequence s + 1\<rparr> in
      (\<lparr>Version = 2, PayloadType = payloadType, SequenceNumber = rtp_sequence s1, Timestamp = rtp_timestamp now,
        SSRC = ssrc s1, Marker = True, Payload = payload\<rparr>, s1))"

section \<open>The document\<close>

definition xmlEscapeMetadata :: "string \<Rightarrow> string" where
  "xmlEscapeMetadata v = concat (map esc_char v)"

definition empty_document :: "string" where \<open>
  empty_document =
     ''<?xml version="1.0" encoding="UTF-8"?><tt:MetaDataStream xmlns:tt="http://www.onvif.or'' @
     ''g/ver10/schema"/>''\<close>

definition event_document :: "string \<Rightarrow> string \<Rightarrow> string \<Rightarrow> string \<Rightarrow> string" where \<open>
  event_document producer utc operation state =
     ''<?xml version="1.0" encoding="UTF-8"?><tt:MetaDataStream xmlns:tt="http://www.onvif.or'' @
     ''g/ver10/schema" xmlns:wsnt="http://docs.oasis-open.org/wsn/b-2" xmlns:tns1="http://www'' @
     ''.onvif.org/ver10/topics" xmlns:wsa5="http://www.w3.org/2005/08/addressing"><tt:Event><'' @
     ''wsnt:NotificationMessage><wsnt:Topic Dialect="http://www.onvif.org/ver10/tev/topicExpr'' @
     ''ession/ConcreteSet">tns1:VideoSource/VideoLoss</wsnt:Topic><wsnt:ProducerReference><ws'' @
     ''a5:Address>'' @ producer @
     ''</wsa5:Address></wsnt:ProducerReference><wsnt:Message><tt:Message UtcTime="'' @ utc @
     ''" PropertyOperation="'' @ xmlEscapeMetadata operation @
     ''"><tt:Source><tt:SimpleItem Name="VideoSourceConfigurationToken" Value="screen_source"'' @
     ''/></tt:Source><tt:Data><tt:SimpleItem Name="State" Value="'' @ state @
     ''"/></tt:Data></tt:Message></wsnt:Message></wsnt:NotificationMessage></tt:Event></tt:Me'' @
     ''taDataStream>''\<close>

definition metadataDocument :: "platform \<Rightarrow> time \<Rightarrow> bool \<Rightarrow> string \<Rightarrow> string \<Rightarrow> string" where
  "metadataDocument pf now videoLoss operation serial =
     (if operation = [] then empty_document
      else event_document (''urn:cherry-desktop-cctv:'' @ xmlEscapeMetadata serial) (format_time pf now) operation
             (if videoLoss then ''true'' else ''false''))"

section \<open>The setup\<close>

record media_format =
  fmt_payload_type :: "8 word"
  fmt_rtpmap :: string
  fmt_clock_rate :: nat

record media_description =
  md_type :: string
  md_control :: string
  md_formats :: "media_format list"

definition newMetadataMedia :: "8 word \<Rightarrow> string \<Rightarrow> media_description" where
  "newMetadataMedia payloadType control =
     \<lparr>md_type = ''application'', md_control = control,
      md_formats = [\<lparr>fmt_payload_type = payloadType, fmt_rtpmap = ''vnd.onvif.metadata/90000'',
                     fmt_clock_rate = metadataClockRate\<rparr>]\<rparr>"

text \<open>What the calls of the RTSP library return: an error text, or nothing.\<close>

record rtsp_calls =
  url_error :: "string \<Rightarrow> string option"
  reader_start :: "string option"
  reader_describe :: "(string, media_description list) result"
  reader_setup :: "string option"
  publisher_start :: "string option"
  publisher_announce :: "media_description list \<Rightarrow> string option"
  publisher_setup :: "string option"
  publisher_record :: "string option"
  reader_play :: "string option"

definition relay_url :: "config \<Rightarrow> string \<Rightarrow> string" where
  "relay_url c path = ''rtsp://127.0.0.1:'' @ itoa (RTSPPort c) @ ''/'' @ path"

definition metadata_payload_type :: "config \<Rightarrow> 8 word" where
  "metadata_payload_type c = word_of_int (MetadataPayloadType c)"

definition payload_conflict :: "8 word \<Rightarrow> media_description list \<Rightarrow> bool" where
  "payload_conflict pt medias \<longleftrightarrow> list_ex (\<lambda>m. list_ex (\<lambda>f. fmt_payload_type f = pt) (md_formats m)) medias"

text \<open>The tracks to publish: those of the source under new control names, and the metadata.\<close>

definition relay_tracks :: "config \<Rightarrow> media_description list \<Rightarrow> media_description list" where
  "relay_tracks c medias =
     map (\<lambda>(i, m). m\<lparr>md_control := ''trackID='' @ dec_nat i\<rparr>) (enumerate 0 medias) @
     [newMetadataMedia (metadata_payload_type c) (''trackID='' @ dec_nat (length medias))]"

definition call :: "string option \<Rightarrow> string \<Rightarrow> (string, 'a) result \<Rightarrow> (string, 'a) result" where
  "call err label continue = (case err of Some e \<Rightarrow> Inl (label @ e) | None \<Rightarrow> continue)"

text \<open>\<open>runMetadataRelay\<close> up to \<open>Play\<close>: the published tracks, or the error.\<close>

definition relay_setup :: "rtsp_calls \<Rightarrow> config \<Rightarrow> string \<Rightarrow> string \<Rightarrow> (string, media_description list) result" where
  "relay_setup lib c sourcePath destinationPath =
     call (url_error lib (relay_url c sourcePath)) []
    (call (url_error lib (relay_url c destinationPath)) []
    (call (reader_start lib) ''source connect: ''
       (case reader_describe lib of
          Inl e \<Rightarrow> Inl (''source describe: '' @ e)
        | Inr medias \<Rightarrow>
            if medias = [] then Inl ''source has no media''
            else call (reader_setup lib) ''source setup: ''
              (if payload_conflict (metadata_payload_type c) medias
               then Inl (''metadata payload type '' @ dec_nat (unat (metadata_payload_type c)) @ '' conflicts with source format'')
               else
                 call (publisher_start lib) ''destination connect: ''
                (call (publisher_announce lib (relay_tracks c medias)) ''destination announce: ''
                (call (publisher_setup lib) ''destination setup: ''
                (call (publisher_record lib) ''destination record: ''
                (call (reader_play lib) ''source play: ''
                (Inr (relay_tracks c medias))))))))))"

section \<open>The loop\<close>

text \<open>
  What is handed to the publisher, in the order of the lock \<open>writeMu\<close>: packets of the source, by
  the number of their track, and packets of the metadata track.
\<close>

datatype sent_packet = FromSource nat rtp_packet | OfMetadata rtp_packet

text \<open>
  \<open>ry_errCh\<close> is the channel of two places; \<open>ry_outcome\<close> is what \<open>runMetadataRelay\<close> has returned
  (inside: nil or the error), or \<^const>\<open>None\<close> while it runs.
\<close>

record relay =
  ry_rtp :: metadataRTPState
  ry_first :: bool
  ry_lastVideoLoss :: bool
  ry_errCh :: "string option list"
  ry_sent :: "sent_packet list"
  ry_outcome :: "string option option"

definition send_packet :: "platform \<Rightarrow> config \<Rightarrow> time \<Rightarrow> string \<Rightarrow> relay \<Rightarrow> relay" where
  "send_packet pf c now payload r =
     (case packet (metadata_payload_type c) now payload (ry_rtp r) of
        (p, s) \<Rightarrow> r\<lparr>ry_rtp := s, ry_sent := ry_sent r @ [OfMetadata p]\<rparr>)"

definition too_large :: "string \<Rightarrow> string" where
  "too_large payload = ''metadata XML document too large for single RTP packet: '' @ dec_nat (length payload) @ '' bytes''"

text \<open>\<open>sendMetadata\<close>; \<open>werr\<close> is what \<open>WritePacketRTP\<close> returns.\<close>

definition sendMetadata :: "platform \<Rightarrow> config \<Rightarrow> time \<Rightarrow> bool \<Rightarrow> string option \<Rightarrow> relay \<Rightarrow> string option \<times> relay" where
  "sendMetadata pf c now sourceReady werr r =
     (let videoLoss = \<not> sourceReady;
          operation = (if ry_first r then ''Initialized'' else if videoLoss \<noteq> ry_lastVideoLoss r then ''Changed'' else []);
          r1 = r\<lparr>ry_first := False, ry_lastVideoLoss := videoLoss\<rparr>;
          payload = metadataDocument pf now videoLoss operation (SerialNumber c) in
      if length payload > 1200 then (Some (too_large payload), r1)
      else (werr, send_packet pf c now payload r1))"

definition offer_error :: "string option \<Rightarrow> relay \<Rightarrow> relay" where
  "offer_error e r = (if length (ry_errCh r) < 2 then r\<lparr>ry_errCh := ry_errCh r @ [e]\<rparr> else r)"

text \<open>
  From \<open>Play\<close> to the loop: the random state, then the first document. \<open>ready0\<close> is \<open>sourceReady\<close>
  when \<open>lastVideoLoss\<close> is set, \<open>ready1\<close> when the document is made.
\<close>

definition relay_start ::
  "platform \<Rightarrow> config \<Rightarrow> 8 word list option \<Rightarrow> bool \<Rightarrow> time \<Rightarrow> bool \<Rightarrow> string option \<Rightarrow> (string, relay) result"
where
  "relay_start pf c raw ready0 now ready1 werr =
     (case newMetadataRTPState raw of
        None \<Rightarrow> Inl ''metadata RTP state: crypto/rand: failed''
      | Some s \<Rightarrow>
          (case sendMetadata pf c now ready1 werr
                  \<lparr>ry_rtp = s, ry_first = True, ry_lastVideoLoss = (\<not> ready0), ry_errCh = [], ry_sent = [], ry_outcome = None\<rparr> of
             (Some e, r) \<Rightarrow> Inl (''initial metadata packet: '' @ e)
           | (None, r) \<Rightarrow> Inr r))"

text \<open>
  The packet callback hands on a packet and reports a failed write without waiting; the reader's
  end is reported by its own goroutine, which waits when the channel is full; the loop returns
  with the first error it takes, so what it would send later is never seen. The loop takes one of
  its three cases.
\<close>

datatype relay_event =
    SourcePacket nat rtp_packet "string option"
  | ReaderDone "string option"
  | ContextDone
  | TakeError time
  | Tick time bool "string option"

fun relay_step :: "platform \<Rightarrow> config \<Rightarrow> relay_event \<Rightarrow> relay \<Rightarrow> relay" where
  "relay_step pf c (SourcePacket i p werr) r =
     (let r1 = r\<lparr>ry_sent := ry_sent r @ [FromSource i p]\<rparr> in
      if werr = None then r1 else offer_error werr r1)"
| "relay_step pf c (ReaderDone e) r = offer_error e r"
| "relay_step pf c ContextDone r = r\<lparr>ry_outcome := Some None\<rparr>"
| "relay_step pf c (TakeError now) r =
     (case ry_errCh r of
        [] \<Rightarrow> r
      | e # es \<Rightarrow>
          (send_packet pf c now (metadataDocument pf now True ''Changed'' (SerialNumber c)) (r\<lparr>ry_errCh := es\<rparr>))
            \<lparr>ry_outcome := Some (Some (case e of None \<Rightarrow> ''RTSP relay stopped'' | Some t \<Rightarrow> t))\<rparr>)"
| "relay_step pf c (Tick now sourceReady werr) r =
     (case sendMetadata pf c now sourceReady werr r of
        (None, r1) \<Rightarrow> r1
      | (Some e, r1) \<Rightarrow> r1\<lparr>ry_outcome := Some (Some (''metadata packet: '' @ e))\<rparr>)"

text \<open>A run stops at the event that makes the function return.\<close>

fun relay_run :: "platform \<Rightarrow> config \<Rightarrow> relay_event list \<Rightarrow> relay \<Rightarrow> relay" where
  "relay_run pf c [] r = r"
| "relay_run pf c (e # es) r = (if ry_outcome r \<noteq> None then r else relay_run pf c es (relay_step pf c e r))"

section \<open>The clock\<close>

lemma unat_word64: "unat (word_of_nat m :: 64 word) = m mod 2 ^ 64"
  by (simp add: unsigned_of_nat take_bit_eq_mod)

lemma unat_rtp_timestamp: "unat (rtp_timestamp (int n)) = (n * 90000) mod 2 ^ 64 div 10 ^ 9 mod 2 ^ 32"
proof -
  have product: "(word_of_int (int n) * word_of_nat metadataClockRate :: 64 word) = word_of_nat (n * 90000)"
    by (simp add: metadataClockRate_def)
  have "unat (word_of_int second :: 64 word) = 10 ^ 9" by (simp add: second_def)
  then show ?thesis
    unfolding rtp_timestamp_def product unsigned_ucast_eq unat_div unat_word64 by (simp add: take_bit_eq_mod)
qed

lemma rtp_timestamp_eq: "unat (rtp_timestamp t) = m \<Longrightarrow> rtp_timestamp t = word_of_nat m"
  by auto

lemma word_of_nat_mod32: "(word_of_nat (m mod 2 ^ 32) :: 32 word) = word_of_nat m"
  by (simp add: word_of_nat_eq_iff take_bit_eq_mod)

lemma wrap_instant:
  fixes n :: nat
  defines "t \<equiv> ((n * 90000 div 2 ^ 64 + 1) * 2 ^ 64 - 1) div 90000"
  shows "n \<le> t" "t \<le> n + 2 ^ 64 div 90000 + 1" "(t * 90000) mod 2 ^ 64 \<ge> 2 ^ 64 - 90000" "((t + 1) * 90000) mod 2 ^ 64 < 90000"
proof -
  define q where "q = n * 90000 div 2 ^ 64"
  have q: "q * 2 ^ 64 \<le> n * 90000" "n * 90000 < (q + 1) * 2 ^ 64"
    by (simp_all add: q_def)
  have t: "t * 90000 \<le> (q + 1) * 2 ^ 64 - 1" "(q + 1) * 2 ^ 64 - 1 < (t + 1) * 90000"
    unfolding t_def q_def [symmetric] by (simp_all add: dividend_less_div_times)
  show "n \<le> t" using q t by simp
  show "t \<le> n + 2 ^ 64 div 90000 + 1" using q t by simp
  have "t * 90000 = (t * 90000 - q * 2 ^ 64) + q * 2 ^ 64" "t * 90000 - q * 2 ^ 64 < 2 ^ 64" "t * 90000 - q * 2 ^ 64 \<ge> 2 ^ 64 - 90000"
    using q t by simp_all
  then show "(t * 90000) mod 2 ^ 64 \<ge> 2 ^ 64 - 90000" by (metis mod_less mod_mult_self1)
  define r where "r = (t + 1) * 90000 - (q + 1) * 2 ^ 64"
  have r: "(t + 1) * 90000 = r + (q + 1) * 2 ^ 64" "r < 90000"
    using q t by (simp_all add: r_def)
  have "(r + (q + 1) * 2 ^ 64) mod 2 ^ 64 = r mod 2 ^ 64" by (rule mod_mult_self1)
  also have "\<dots> = r" using r(2) by simp
  finally show "((t + 1) * 90000) mod 2 ^ 64 < 90000" unfolding r(1) using r(2) by simp
qed

lemma clock_ticks: "(m + k * (9 * 10 ^ 9)) div 10 ^ 9 = m div 10 ^ 9 + 9 * (k :: nat)"
proof -
  have "m + k * (9 * 10 ^ 9) = m + 10 ^ 9 * (9 * k)" by simp
  then show ?thesis by (simp only: div_mult_self2 zero_neq_numeral power_not_zero not_False_eq_True add.commute)
qed

lemma clock_exact:
  assumes "(n * 90000) mod 2 ^ 64 + k * (9 * 10 ^ 9) < 2 ^ 64"
  shows "rtp_timestamp (int (n + k * 100000)) = rtp_timestamp (int n) + word_of_nat (9 * k)"
proof -
  have "(n + k * 100000) * 90000 = n * 90000 + k * (9 * 10 ^ 9)" by simp
  then have "((n + k * 100000) * 90000) mod 2 ^ 64 = ((n * 90000) mod 2 ^ 64 + k * (9 * 10 ^ 9)) mod 2 ^ 64"
    by (simp only: mod_add_left_eq)
  also have "\<dots> = (n * 90000) mod 2 ^ 64 + k * (9 * 10 ^ 9)" by (rule mod_less) (rule assms)
  finally have "unat (rtp_timestamp (int (n + k * 100000))) = ((n * 90000) mod 2 ^ 64 div 10 ^ 9 + 9 * k) mod 2 ^ 32"
    unfolding unat_rtp_timestamp by (simp only: clock_ticks)
  then have "rtp_timestamp (int (n + k * 100000)) = word_of_nat (((n * 90000) mod 2 ^ 64 div 10 ^ 9 + 9 * k) mod 2 ^ 32)"
    by (rule rtp_timestamp_eq)
  also have "\<dots> = word_of_nat ((n * 90000) mod 2 ^ 64 div 10 ^ 9) + word_of_nat (9 * k)"
    unfolding of_nat_add [symmetric] by (simp only: word_of_nat_mod32)
  also have "word_of_nat ((n * 90000) mod 2 ^ 64 div 10 ^ 9) = rtp_timestamp (int n)"
    using rtp_timestamp_eq [OF unat_rtp_timestamp [of n]] by (simp only: word_of_nat_mod32)
  finally show ?thesis .
qed

lemma clock_jump:
  "\<exists>t. n \<le> t \<and> t \<le> n + 2 ^ 64 div 90000 + 1 \<and> rtp_timestamp (int t) = 1266874889 \<and> rtp_timestamp (int (t + 1)) = 0"
proof -
  define t where "t = ((n * 90000 div 2 ^ 64 + 1) * 2 ^ 64 - 1) div 90000"
  note w = wrap_instant [of n, folded t_def]
  have "(t * 90000) mod 2 ^ 64 < 2 ^ 64" by simp
  with w(3) have "(t * 90000) mod 2 ^ 64 div 10 ^ 9 = 18446744073" by simp
  then have "rtp_timestamp (int t) = 1266874889"
    using rtp_timestamp_eq [OF unat_rtp_timestamp [of t]] by simp
  moreover have "((t + 1) * 90000) mod 2 ^ 64 div 10 ^ 9 = 0" using w(4) by simp
  then have "rtp_timestamp (int (t + 1)) = 0"
    using rtp_timestamp_eq [OF unat_rtp_timestamp [of "t + 1"]] by simp
  ultimately show ?thesis using w(1,2) by blast
qed

section \<open>What the metadata track says\<close>

type_synonym doc = "time \<times> bool \<times> string"

fun metadata_packets :: "sent_packet list \<Rightarrow> rtp_packet list" where
  "metadata_packets [] = []"
| "metadata_packets (OfMetadata p # ps) = p # metadata_packets ps"
| "metadata_packets (FromSource i p # ps) = metadata_packets ps"

fun source_packets :: "sent_packet list \<Rightarrow> (nat \<times> rtp_packet) list" where
  "source_packets [] = []"
| "source_packets (OfMetadata p # ps) = source_packets ps"
| "source_packets (FromSource i p # ps) = (i, p) # source_packets ps"

lemma packets_append [simp]:
  "metadata_packets (xs @ ys) = metadata_packets xs @ metadata_packets ys"
  "source_packets (xs @ ys) = source_packets xs @ source_packets ys"
  by (induction xs rule: metadata_packets.induct) simp_all

text \<open>
  The protocol of the documents: the first says \<open>Initialized\<close>, a later one \<open>Changed\<close> exactly when
  the state differs from the document before, and otherwise nothing.
\<close>

fun expected_operation :: "bool option \<Rightarrow> bool \<Rightarrow> string" where
  "expected_operation None loss = ''Initialized''"
| "expected_operation (Some l) loss = (if loss \<noteq> l then ''Changed'' else [])"

fun follows :: "bool option \<Rightarrow> doc list \<Rightarrow> bool" where
  "follows known [] = True"
| "follows known ((t, loss, op) # ds) \<longleftrightarrow> op = expected_operation known loss \<and> follows (Some loss) ds"

text \<open>What a viewer knows that only looks at documents with an event.\<close>

fun viewer :: "bool option \<Rightarrow> doc list \<Rightarrow> bool option" where
  "viewer known [] = known"
| "viewer known ((t, loss, op) # ds) = viewer (if op = [] then known else Some loss) ds"

lemma viewer_append [simp]: "viewer k (ds @ es) = viewer (viewer k ds) es"
  by (induction k ds rule: viewer.induct) simp_all

lemma follows_snoc:
  "follows k (ds @ [(t, loss, op)]) \<longleftrightarrow> follows k ds \<and> op = expected_operation (viewer k ds) loss"
proof (induction k ds rule: follows.induct)
  case (2 known t' loss' op' ds)
  have "op' = expected_operation known loss' \<Longrightarrow> (if op' = [] then known else Some loss') = Some loss'"
    by (cases known) (auto split: if_splits)
  with 2 show ?case by auto
qed simp

text \<open>A viewer who follows the protocol knows the state of the last document.\<close>

lemma viewer_last: "follows k ds \<Longrightarrow> ds \<noteq> [] \<Longrightarrow> viewer k ds = Some (fst (snd (last ds)))"
proof (induction ds rule: rev_induct)
  case (snoc d ds)
  obtain t loss op where d: "d = (t, loss, op)" by (cases d)
  then have "op = expected_operation (viewer k ds) loss" using snoc.prems(1) by (simp add: follows_snoc)
  then show ?case by (cases "viewer k ds") (auto simp: d split: if_splits)
qed simp

text \<open>
  What the relay is to report: at each tick, the time and whether the source is then lost.
\<close>

fun observed :: "relay_event \<Rightarrow> (time \<times> bool) list" where
  "observed (Tick now sourceReady werr) = [(now, \<not> sourceReady)]"
| "observed _ = []"

definition doc_states :: "doc list \<Rightarrow> (time \<times> bool) list" where
  "doc_states ds = map (\<lambda>(t, loss, op). (t, loss)) ds"

lemma doc_states_simps [simp]:
  "doc_states [] = []" "doc_states (ds @ es) = doc_states ds @ doc_states es" "doc_states [(t, loss, op)] = [(t, loss)]"
  by (simp_all add: doc_states_def)

definition doc_text :: "platform \<Rightarrow> config \<Rightarrow> doc \<Rightarrow> string" where
  "doc_text pf c d = metadataDocument pf (fst d) (fst (snd d)) (snd (snd d)) (SerialNumber c)"

definition numbered_from :: "metadataRTPState \<Rightarrow> rtp_packet list \<Rightarrow> bool" where
  "numbered_from s ps \<longleftrightarrow>
     map SequenceNumber ps = map (\<lambda>i. rtp_sequence s + word_of_nat (Suc i)) [0..<length ps] \<and> (\<forall>p \<in> set ps. SSRC p = ssrc s)"

text \<open>The state of a running relay whose metadata track holds the documents \<open>ds\<close>.\<close>

definition relay_ok :: "platform \<Rightarrow> config \<Rightarrow> metadataRTPState \<Rightarrow> relay \<Rightarrow> doc list \<Rightarrow> bool" where
  "relay_ok pf c s r ds \<longleftrightarrow>
     map Payload (metadata_packets (ry_sent r)) = map (doc_text pf c) ds
     \<and> numbered_from s (metadata_packets (ry_sent r))
     \<and> ssrc (ry_rtp r) = ssrc s \<and> rtp_sequence (ry_rtp r) = rtp_sequence s + word_of_nat (length ds)"

definition relay_live :: "relay \<Rightarrow> doc list \<Rightarrow> bool" where
  "relay_live r ds \<longleftrightarrow> follows None ds \<and> viewer None ds = (if ry_first r then None else Some (ry_lastVideoLoss r))"

lemma send_packet_ok:
  assumes "relay_ok pf c s r ds"
  shows "relay_ok pf c s (send_packet pf c now (doc_text pf c d) r) (ds @ [d])"
proof -
  have "length (metadata_packets (ry_sent r)) = length ds"
    using assms unfolding relay_ok_def by (metis length_map)
  then show ?thesis using assms
    by (auto simp: relay_ok_def numbered_from_def send_packet_def packet_def Let_def ac_simps)
qed

lemma send_packet_frame [simp]:
  "ry_first (send_packet pf c now p r) = ry_first r" "ry_lastVideoLoss (send_packet pf c now p r) = ry_lastVideoLoss r"
  "ry_errCh (send_packet pf c now p r) = ry_errCh r" "ry_outcome (send_packet pf c now p r) = ry_outcome r"
  "source_packets (ry_sent (send_packet pf c now p r)) = source_packets (ry_sent r)"
  by (simp_all add: send_packet_def packet_def Let_def)

lemma relay_ok_update [simp]:
  "relay_ok pf c s (r\<lparr>ry_first := f\<rparr>) ds = relay_ok pf c s r ds"
  "relay_ok pf c s (r\<lparr>ry_lastVideoLoss := l\<rparr>) ds = relay_ok pf c s r ds"
  "relay_ok pf c s (r\<lparr>ry_errCh := e\<rparr>) ds = relay_ok pf c s r ds"
  "relay_ok pf c s (r\<lparr>ry_outcome := out\<rparr>) ds = relay_ok pf c s r ds"
  "relay_ok pf c s (r\<lparr>ry_sent := ry_sent r @ [FromSource i p]\<rparr>) ds = relay_ok pf c s r ds"
  by (simp_all add: relay_ok_def)

lemma sendMetadata_ok:
  assumes "relay_ok pf c s r ds" "relay_live r ds" "sendMetadata pf c now ready werr r = (err, r')"
  shows "\<exists>more. relay_ok pf c s r' (ds @ more) \<and> follows None (ds @ more)
    \<and> prefix (doc_states more) [(now, \<not> ready)]
    \<and> (err = None \<longrightarrow> relay_live r' (ds @ more) \<and> \<not> ry_first r' \<and> doc_states more = [(now, \<not> ready)])
    \<and> ry_outcome r' = ry_outcome r \<and> source_packets (ry_sent r') = source_packets (ry_sent r)"
proof -
  define operation where "operation = (if ry_first r then ''Initialized'' else if (\<not> ready) \<noteq> ry_lastVideoLoss r then ''Changed'' else [])"
  define d where "d = (now, \<not> ready, operation)"
  define r1 where "r1 = r\<lparr>ry_first := False, ry_lastVideoLoss := \<not> ready\<rparr>"
  have op: "operation = expected_operation (viewer None ds) (\<not> ready)"
    using assms(2) by (simp add: operation_def relay_live_def)
  have follows: "follows None (ds @ [d])" using assms(2) op by (simp add: d_def follows_snoc relay_live_def)
  have viewer: "viewer None (ds @ [d]) = Some (\<not> ready)"
    using assms(2) by (auto simp: d_def operation_def relay_live_def split: if_splits)
  have eq: "sendMetadata pf c now ready werr r =
      (if length (doc_text pf c d) > 1200 then (Some (too_large (doc_text pf c d)), r1)
       else (werr, send_packet pf c now (doc_text pf c d) r1))"
    unfolding sendMetadata_def Let_def operation_def [symmetric] r1_def doc_text_def d_def fst_conv snd_conv ..
  have ok1: "relay_ok pf c s r1 ds" using assms(1) by (simp add: r1_def)
  show ?thesis
  proof (cases "length (doc_text pf c d) > 1200")
    case True
    then have "err \<noteq> None" "r' = r1" using assms(3) eq by auto
    then show ?thesis using ok1 assms(2) by (intro exI [of _ "[]"]) (auto simp: r1_def relay_live_def)
  next
    case False
    then have r': "r' = send_packet pf c now (doc_text pf c d) r1" using assms(3) eq by auto
    show ?thesis
      using send_packet_ok [OF ok1, of now d] follows viewer
      by (intro exI [of _ "[d]"]) (simp add: r' r1_def relay_live_def d_def)
  qed
qed

text \<open>
  After any events: the documents follow the protocol, except that one last \<open>Changed\<close> to lost video
  is added when the relay ends with an error; they report what was observed, and while the relay
  runs all of it.
\<close>

definition relay_inv :: "platform \<Rightarrow> config \<Rightarrow> metadataRTPState \<Rightarrow> relay \<Rightarrow> (time \<times> bool) list \<Rightarrow> bool" where
  "relay_inv pf c s r obs \<longleftrightarrow>
     (\<exists>ds extra. relay_ok pf c s r (ds @ extra) \<and> follows None ds \<and> (extra = [] \<or> (\<exists>t. extra = [(t, True, ''Changed'')]))
        \<and> prefix (doc_states ds) obs
        \<and> (ry_outcome r = None \<longrightarrow> extra = [] \<and> relay_live r ds \<and> \<not> ry_first r \<and> doc_states ds = obs))"

lemma relay_live_update [simp]:
  "relay_live (r\<lparr>ry_errCh := e\<rparr>) ds = relay_live r ds" "relay_live (r\<lparr>ry_sent := ps\<rparr>) ds = relay_live r ds"
  "relay_live (r\<lparr>ry_outcome := out\<rparr>) ds = relay_live r ds"
  by (simp_all add: relay_live_def)

lemma offer_error_frame [simp]:
  "relay_ok pf c s (offer_error e r) ds = relay_ok pf c s r ds" "relay_live (offer_error e r) ds = relay_live r ds"
  "ry_first (offer_error e r) = ry_first r" "ry_outcome (offer_error e r) = ry_outcome r"
  "ry_sent (offer_error e r) = ry_sent r"
  by (simp_all add: offer_error_def)

lemma relay_invI:
  assumes "relay_ok pf c s r ds" "follows None ds" "prefix (doc_states ds) obs"
    "ry_outcome r = None \<longrightarrow> relay_live r ds \<and> \<not> ry_first r \<and> doc_states ds = obs"
  shows "relay_inv pf c s r obs"
  unfolding relay_inv_def by (rule exI [of _ ds], rule exI [of _ "[]"]) (use assms in simp)

lemma relay_inv_more:
  assumes "relay_inv pf c s r obs" "ry_outcome r \<noteq> None"
  shows "relay_inv pf c s r (obs @ obs2)"
proof -
  obtain ds extra where "relay_ok pf c s r (ds @ extra)" "follows None ds" "extra = [] \<or> (\<exists>t. extra = [(t, True, ''Changed'')])"
    "prefix (doc_states ds) obs"
    using assms(1) unfolding relay_inv_def by blast
  then show ?thesis
    using assms(2) unfolding relay_inv_def by - (rule exI [of _ ds], rule exI [of _ extra], auto intro: prefix_prefix)
qed

lemma relay_inv_step:
  assumes "relay_inv pf c s r obs" "ry_outcome r = None"
  shows "relay_inv pf c s (relay_step pf c e r) (obs @ observed e)"
proof -
  obtain ds where ds: "relay_ok pf c s r ds" "relay_live r ds" "\<not> ry_first r" "doc_states ds = obs"
    using assms by (auto simp: relay_inv_def)
  have follows: "follows None ds" using ds(2) by (simp add: relay_live_def)
  show ?thesis
  proof (cases e)
    case (TakeError now)
    show ?thesis
    proof (cases "ry_errCh r")
      case Nil
      then show ?thesis using assms by (simp add: TakeError)
    next
      case (Cons x xs)
      have "relay_ok pf c s (send_packet pf c now (doc_text pf c (now, True, ''Changed'')) (r\<lparr>ry_errCh := xs\<rparr>))
          (ds @ [(now, True, ''Changed'')])"
        by (rule send_packet_ok) (use ds in simp)
      then show ?thesis using follows ds(4)
        unfolding relay_inv_def by (intro exI [of _ ds] exI [of _ "[(now, True, ''Changed'')]"]) (simp add: TakeError Cons doc_text_def)
    qed
  next
    case (Tick now ready werr)
    obtain err r1 where send: "sendMetadata pf c now ready werr r = (err, r1)" by (cases "sendMetadata pf c now ready werr r")
    obtain more where more: "relay_ok pf c s r1 (ds @ more)" "follows None (ds @ more)" "prefix (doc_states more) [(now, \<not> ready)]"
      "err = None \<longrightarrow> relay_live r1 (ds @ more) \<and> \<not> ry_first r1 \<and> doc_states more = [(now, \<not> ready)]"
      using sendMetadata_ok [OF ds(1,2) send] by blast
    have seen: "prefix (doc_states (ds @ more)) (obs @ [(now, \<not> ready)])" 
      unfolding doc_states_simps ds(4) same_prefix_prefix by (rule more(3))
    show ?thesis
    proof (cases err)
      case None
      then show ?thesis using more(1,2,4) seen ds(4) by (intro relay_invI [of _ _ _ _ "ds @ more"]) (simp_all add: Tick send)
    next
      case (Some m)
      then show ?thesis using more(1,2) seen by (intro relay_invI [of _ _ _ _ "ds @ more"]) (simp_all add: Tick send)
    qed
  next
    case (SourcePacket i p werr)
    then show ?thesis using ds follows by (intro relay_invI [of _ _ _ _ ds]) (simp_all add: Let_def)
  qed (use ds follows in \<open>auto intro: relay_invI\<close>)
qed

lemma relay_inv_run:
  "relay_inv pf c s r obs \<Longrightarrow> relay_inv pf c s (relay_run pf c es r) (obs @ concat (map observed es))"
proof (induction es arbitrary: r obs)
  case (Cons e es)
  show ?case
  proof (cases "ry_outcome r = None")
    case True
    then show ?thesis using Cons.IH [OF relay_inv_step [OF Cons.prems, of e]] by simp
  next
    case False
    then show ?thesis using relay_inv_more [OF Cons.prems] by simp
  qed
qed simp

lemma relay_inv_start:
  assumes "newMetadataRTPState raw = Some s" "relay_start pf c raw ready0 now ready1 werr = Inr r"
  shows "relay_inv pf c s r [(now, \<not> ready1)] \<and> source_packets (ry_sent r) = [] \<and> ry_outcome r = None"
proof -
  define r0 where "r0 = \<lparr>ry_rtp = s, ry_first = True, ry_lastVideoLoss = (\<not> ready0), ry_errCh = [], ry_sent = [], ry_outcome = None\<rparr>"
  have send: "sendMetadata pf c now ready1 werr r0 = (None, r)"
    using assms by (auto simp: relay_start_def r0_def split: prod.splits option.splits)
  have "relay_ok pf c s r0 []" "relay_live r0 []"
    by (simp_all add: r0_def relay_ok_def relay_live_def numbered_from_def)
  from sendMetadata_ok [OF this send] obtain more where
    "relay_ok pf c s r more" "relay_live r more" "\<not> ry_first r" "follows None more" "ry_outcome r = ry_outcome r0"
    "source_packets (ry_sent r) = source_packets (ry_sent r0)" "doc_states more = [(now, \<not> ready1)]" by auto
  then show ?thesis by (auto simp: r0_def intro: relay_invI)
qed

section \<open>The relayed packets\<close>

fun event_packet :: "relay_event \<Rightarrow> (nat \<times> rtp_packet) list" where
  "event_packet (SourcePacket i p werr) = [(i, p)]"
| "event_packet _ = []"

lemma relay_step_source: "source_packets (ry_sent (relay_step pf c e r)) = source_packets (ry_sent r) @ event_packet e"
proof (cases e)
  case (Tick now ready werr)
  have "source_packets (ry_sent (snd (sendMetadata pf c now ready werr r))) = source_packets (ry_sent r)"
    by (simp add: sendMetadata_def Let_def)
  then show ?thesis by (auto simp: Tick split: prod.splits option.splits)
qed (auto simp: Let_def split: list.splits)

lemma relay_run_source:
  "\<exists>n. source_packets (ry_sent (relay_run pf c es r)) = source_packets (ry_sent r) @ concat (map event_packet (take n es))
     \<and> (ry_outcome (relay_run pf c es r) = None \<longrightarrow> length es \<le> n)"
proof (induction es arbitrary: r)
  case (Cons e es)
  show ?case
  proof (cases "ry_outcome r = None")
    case True
    obtain n where "source_packets (ry_sent (relay_run pf c es (relay_step pf c e r)))
        = source_packets (ry_sent (relay_step pf c e r)) @ concat (map event_packet (take n es))"
      "ry_outcome (relay_run pf c es (relay_step pf c e r)) = None \<longrightarrow> length es \<le> n"
      using Cons.IH by blast
    then show ?thesis using True by (intro exI [of _ "Suc n"]) (simp add: relay_step_source)
  qed (auto intro: exI [of _ 0])
qed simp

section \<open>The size of a document\<close>

lemma length_xmlEscapeMetadata: "length v \<le> length (xmlEscapeMetadata v)"
proof (induction v)
  case (Cons c v)
  have "1 \<le> length (esc_char c)" by (auto simp: esc_char_def)
  with Cons show ?case by (simp add: xmlEscapeMetadata_def)
qed simp

lemma long_document: "op \<noteq> [] \<Longrightarrow> length serial + 808 \<le> length (metadataDocument pf t loss op serial)"
  using length_xmlEscapeMetadata [of serial] by (simp add: metadataDocument_def event_document_def)

lemma long_serial_start:
  assumes "392 < length (SerialNumber c)" "newMetadataRTPState raw \<noteq> None"
  shows "\<exists>payload. relay_start pf c raw ready0 now ready1 werr = Inl (''initial metadata packet: '' @ too_large payload)"
proof -
  obtain s where s: "newMetadataRTPState raw = Some s" using assms(2) by auto
  have "length (metadataDocument pf now (\<not> ready1) ''Initialized'' (SerialNumber c)) > 1200"
    using long_document [of "''Initialized''" "SerialNumber c" pf now "\<not> ready1"] assms(1) by simp
  then show ?thesis
    unfolding relay_start_def s by (simp add: sendMetadata_def Let_def) blast
qed

section \<open>Properties\<close>


text \<open>
  The relay hands every packet of the source on, once and in order, until the event
  that ends it.
\<close>

theorem relay_forwards_in_order:
  assumes "relay_start pf c raw ready0 now ready1 werr = Inr r0"
  shows "\<exists>n. source_packets (ry_sent (relay_run pf c es r0)) = concat (map event_packet (take n es))
    \<and> (ry_outcome (relay_run pf c es r0) = None \<longrightarrow> length es \<le> n)"
proof -
  obtain s where "newMetadataRTPState raw = Some s"
    using assms by (cases "newMetadataRTPState raw") (simp_all add: relay_start_def)
  then have "source_packets (ry_sent r0) = []" using relay_inv_start assms by blast
  then show ?thesis using relay_run_source [of pf c es r0] by simp
qed

text \<open>
  A serial number of more than 392 characters passes \<open>Validate\<close>, but the first document
  is then larger than the 1200 bytes of a packet: every run of the relay ends with that error before
  its loop, and a stream with metadata is never ready for longer than a moment.
\<close>

theorem long_serial_stops_relay:
  "validate (apply_env example_env (Default\<lparr>SerialNumber := replicate 393 CHR ''7''\<rparr>)) = None
   \<and> (\<exists>payload. relay_start pf (Default\<lparr>SerialNumber := replicate 393 CHR ''7''\<rparr>) (Some raw) ready0 now ready1 werr =
        Inl (''initial metadata packet: '' @ too_large payload))"
proof
  show "validate (apply_env example_env (Default\<lparr>SerialNumber := replicate 393 CHR ''7''\<rparr>)) = None" by code_simp
qed (rule long_serial_start, simp_all add: newMetadataRTPState_def)

text \<open>
  Property C39: the clock of the metadata track runs at 90 kHz only between two wraps of the 64-bit
  product. At least once in every 57 hours the time stamp falls back, from 1266874889 to 0 within a
  nanosecond, which is not the wrap of a 32-bit clock.
\<close>

theorem rtp_clock_falls_back:
  "((n * 90000) mod 2 ^ 64 + k * (9 * 10 ^ 9) < 2 ^ 64 \<longrightarrow>
      rtp_timestamp (int (n + k * 100000)) = rtp_timestamp (int n) + word_of_nat (9 * k))
   \<and> (\<exists>t. n \<le> t \<and> t \<le> n + 2 ^ 64 div 90000 + 1 \<and> rtp_timestamp (int t) = 1266874889 \<and> rtp_timestamp (int (t + 1)) = 0)"
  using clock_exact clock_jump by blast

theorem rtp_clock_falls_back_witness:
  "rtp_timestamp 1000000000 = rtp_timestamp 0 + 90000"
  using rtp_clock_falls_back [of 0 10000] by simp

definition example_stamps :: platform where
  "example_stamps = \<lparr>filepath_Abs = Some, filepath_Dir = (\<lambda>p. p), xml_error = (\<lambda>b. []), format_time = (\<lambda>t. ''T''),
     parse_rfc3339 = (\<lambda>s. None), civil = (\<lambda>t. (0, 0, 0, 0, 0, 0)), interface_addrs = [],
     float_out_of_range = int64_min\<rparr>"

definition example_random :: "8 word list option" where "example_random = Some [1, 2, 3, 4, 255, 255]"

lemma example_relay:
  "newMetadataRTPState example_random = Some \<lparr>ssrc = 16909060, rtp_sequence = - 1\<rparr>"
  "\<exists>r. relay_start example_stamps Default example_random True 0 True None = Inr r"
  by (simp_all add: newMetadataRTPState_def example_random_def relay_start_def sendMetadata_def
      metadataDocument_def event_document_def example_stamps_def Default_def xmlEscapeMetadata_def esc_char_def)


theorem relay_forwards_in_order_witness:
  "\<exists>r0. relay_start example_stamps Default example_random True 0 True None = Inr r0
    \<and> (\<exists>n. source_packets (ry_sent (relay_run example_stamps Default [ContextDone] r0)) = concat (map event_packet (take n [ContextDone])))"
proof -
  obtain r where r: "relay_start example_stamps Default example_random True 0 True None = Inr r"
    using example_relay(2) by blast
  from relay_forwards_in_order [OF r] r show ?thesis by blast
qed

end
