(* ===== verification/Pipeline.thy ===== *)
theory Pipeline
  imports Relay
begin

text \<open>
  What the capture manager (\<open>internal/capture/capture.go\<close>) starts and with what: the arguments of
  FFmpeg, the choice of the encoder, the environment of MediaMTX with its paths and permissions,
  and the checks before the start. Running a program, \<open>filepath.Join\<close> and \<open>filepath.Abs\<close> are
  parameters. \<open>c\<close> is the manager's configuration from the start, \<open>cfg\<close> the running one.
\<close>

section \<open>Paths\<close>

definition rawPath :: "string \<Rightarrow> string" where "rawPath publicPath = publicPath @ ''_raw''"

definition publishPath :: "config \<Rightarrow> string \<Rightarrow> string" where
  "publishPath c publicPath = (if \<not> MetadataEnabled c then publicPath else rawPath publicPath)"

definition pathEnvKey :: "string \<Rightarrow> string" where "pathEnvKey path = to_upper path"

text \<open>\<open>filepath.ToSlash\<close> on Windows, the only system the capture supports.\<close>

definition to_slash :: "string \<Rightarrow> string" where "to_slash path = replace_byte path CHR 0x5C ''/''"

definition ffmpegFilterPath :: "string \<Rightarrow> string" where
  "ffmpegFilterPath path =
     (let path = to_slash path;
          path = replace_byte path CHR 0x5C ''/'';
          path = replace_byte path CHR '':'' [CHR 0x5C, CHR '':''];
          path = replace_byte path CHR 0x27 [CHR 0x5C, CHR 0x27]
      in path)"

section \<open>FFmpeg\<close>

definition drawtextFilter :: "(string \<Rightarrow> string option) \<Rightarrow> config \<Rightarrow> string" where
  "drawtextFilter abs_path c =
     ''drawtext=fontfile='' @ [CHR 0x27] @ ffmpegFilterPath (OSDFontFile c) @ [CHR 0x27] @ '':textfile='' @ [CHR 0x27] @
     ffmpegFilterPath (OSDTextAbsPath abs_path c) @ [CHR 0x27] @ '':reload=1:fontsize='' @ itoa (OSDFontSize c) @
     '':fontcolor=white:box=1:boxcolor=black@0.55:boxborderw=6:x=16:y=16''"

definition encoderArgs :: "string \<Rightarrow> string \<Rightarrow> string list" where
  "encoderArgs encoder bitrate =
     (if encoder = ''h264_nvenc'' then
        [''-c:v'', encoder, ''-preset'', ''p4'', ''-tune'', ''ll'', ''-rc'', ''cbr'', ''-b:v'', bitrate, ''-maxrate'', bitrate]
      else if encoder = ''h264_qsv'' then
        [''-c:v'', encoder, ''-preset'', ''veryfast'', ''-b:v'', bitrate, ''-maxrate'', bitrate]
      else if encoder = ''h264_amf'' then
        [''-c:v'', encoder, ''-usage'', ''lowlatency'', ''-quality'', ''balanced'', ''-b:v'', bitrate, ''-maxrate'', bitrate]
      else
        [''-c:v'', ''libx264'', ''-preset'', ''veryfast'', ''-tune'', ''zerolatency'', ''-b:v'', bitrate, ''-maxrate'', bitrate])"

definition loopback_url :: "config \<Rightarrow> string \<Rightarrow> string" where
  "loopback_url cfg path = ''rtsp://127.0.0.1:'' @ itoa (RTSPPort cfg) @ ''/'' @ path"

definition rtsp_output :: "string \<Rightarrow> string \<Rightarrow> string list" where
  "rtsp_output gop url =
     [''-pix_fmt'', ''yuv420p'', ''-g'', gop, ''-keyint_min'', gop, ''-rtsp_transport'', ''tcp'', ''-f'', ''rtsp'', url]"

definition capture_input :: "config \<Rightarrow> string list" where
  "capture_input cfg =
     [''-hide_banner'', ''-loglevel'', ''warning'', ''-nostdin'',
      ''-f'', ''gdigrab'', ''-draw_mouse'', ''1'', ''-framerate'', itoa (FPS cfg),
      ''-offset_x'', itoa (OffsetX cfg), ''-offset_y'', itoa (OffsetY cfg),
      ''-video_size'', itoa (Width cfg) @ ''x'' @ itoa (Height cfg), ''-i'', ''desktop'']"

definition split_filter :: "string \<Rightarrow> config \<Rightarrow> string" where
  "split_filter osd cfg =
     ''[0:v]'' @ osd @ ''[osd];[osd]split=2[main][sub];[sub]scale='' @ itoa (SubstreamWidth cfg) @ '':'' @
     itoa (SubstreamHeight cfg) @ '':flags=bicubic[subout]''"

definition ffmpegArgsWithConfig :: "(string \<Rightarrow> string option) \<Rightarrow> config \<Rightarrow> config \<Rightarrow> string \<Rightarrow> string list" where
  "ffmpegArgsWithConfig abs_path c cfg encoder =
     (let mainURL = loopback_url cfg (publishPath c (RTSPPath cfg));
          args = capture_input cfg;
          mainGOP = itoa (wrap64 (FPS cfg * GOPSeconds cfg));
          osd = drawtextFilter abs_path c in
      if \<not> SubstreamEnabled cfg then
        args @ [''-vf'', osd, ''-map'', ''0:v:0'', ''-an''] @ encoderArgs encoder (VideoBitrate cfg) @ rtsp_output mainGOP mainURL
      else
        let subURL = loopback_url cfg (publishPath c (SubstreamPath cfg));
            subGOP = itoa (wrap64 (SubstreamFPS cfg * GOPSeconds cfg)) in
        args @ [''-filter_complex'', split_filter osd cfg] @
        [''-map'', ''[main]'', ''-an''] @ encoderArgs encoder (VideoBitrate cfg) @ rtsp_output mainGOP mainURL @
        [''-map'', ''[subout]'', ''-an'', ''-r'', itoa (SubstreamFPS cfg)] @ encoderArgs encoder (SubstreamBitrate cfg) @
        rtsp_output subGOP subURL)"

definition ffmpegArgs :: "(string \<Rightarrow> string option) \<Rightarrow> manager \<times> disk \<Rightarrow> string \<Rightarrow> string list" where
  "ffmpegArgs abs_path st encoder = ffmpegArgsWithConfig abs_path (m_cfg (fst st)) (CurrentConfig st) encoder"

text \<open>\<open>run args\<close> is the error of running FFmpeg with these arguments, if it has one.\<close>

definition probeEncoder :: "(string list \<Rightarrow> string option) \<Rightarrow> string \<Rightarrow> string option" where
  "probeEncoder run encoder =
     run ([''-hide_banner'', ''-loglevel'', ''error'', ''-f'', ''lavfi'', ''-i'', ''color=c=black:s=128x72:r=1'',
           ''-frames:v'', ''1''] @ encoderArgs encoder ''500k'' @ [''-f'', ''null'', ''-''])"

definition encoder_candidates :: "string list" where
  "encoder_candidates = [''h264_nvenc'', ''h264_qsv'', ''h264_amf'', ''libx264'']"

definition selectEncoder :: "(string list \<Rightarrow> string option) \<Rightarrow> config \<Rightarrow> (string, string) result" where
  "selectEncoder run c =
     (if Encoder c \<noteq> ''auto'' then
        (case probeEncoder run (Encoder c) of
           Some e \<Rightarrow> Inl (''configured encoder '' @ Encoder c @ '' is unavailable: '' @ e)
         | None \<Rightarrow> Inr (Encoder c))
      else
        (case find (\<lambda>enc. probeEncoder run enc = None) encoder_candidates of
           Some enc \<Rightarrow> Inr enc
         | None \<Rightarrow> Inl ''no usable H.264 encoder found''))"

section \<open>The environment of MediaMTX\<close>

definition permission_prefix :: "nat \<Rightarrow> nat \<Rightarrow> string" where
  "permission_prefix userIndex permissionIndex =
     ''MTX_AUTHINTERNALUSERS_'' @ dec_nat userIndex @ ''_PERMISSIONS_'' @ dec_nat permissionIndex @ ''_''"

definition appendPermission :: "string list \<Rightarrow> nat \<Rightarrow> nat \<Rightarrow> string \<Rightarrow> string \<Rightarrow> string list" where
  "appendPermission env userIndex permissionIndex action path =
     env @ [permission_prefix userIndex permissionIndex @ ''ACTION='' @ action,
            permission_prefix userIndex permissionIndex @ ''PATH='' @ path]"

definition path_setting :: "string \<Rightarrow> string \<Rightarrow> string" where
  "path_setting path setting = ''MTX_PATHS_'' @ pathEnvKey path @ ''_'' @ setting"

text \<open>The environment under construction, with the two counters of permissions.\<close>

record env_builder =
  be_env :: "string list"
  be_internal :: nat
  be_external :: nat

definition addInternal :: "string \<Rightarrow> string \<Rightarrow> env_builder \<Rightarrow> env_builder" where
  "addInternal action path b =
     b\<lparr>be_env := appendPermission (be_env b) 0 (be_internal b) action path, be_internal := be_internal b + 1\<rparr>"

definition addExternalRead :: "string \<Rightarrow> env_builder \<Rightarrow> env_builder" where
  "addExternalRead path b =
     b\<lparr>be_env := appendPermission (be_env b) 1 (be_external b) ''read'' path, be_external := be_external b + 1\<rparr>"

definition publicPaths :: "config \<Rightarrow> string list" where
  "publicPaths c = RTSPPath c # (if SubstreamEnabled c then [SubstreamPath c] else [])"

definition add_path :: "config \<Rightarrow> string \<Rightarrow> env_builder \<Rightarrow> env_builder" where
  "add_path c publicPath b =
     (let sourcePath = publishPath c publicPath;
          b1 = addInternal ''read'' sourcePath (addInternal ''publish'' sourcePath b);
          b2 = (if MetadataEnabled c then addInternal ''read'' publicPath (addInternal ''publish'' publicPath b1) else b1);
          b3 = addExternalRead publicPath b2 in
      b3\<lparr>be_env := be_env b3 @ [path_setting sourcePath ''SOURCE=publisher''] @
           (if MetadataEnabled c then [path_setting publicPath ''SOURCE=publisher'', path_setting publicPath ''RECORD=false'']
            else [])\<rparr>)"

definition base_env :: "config \<Rightarrow> string list" where
  "base_env c =
     [''MTX_RTSPADDRESS=:'' @ itoa (RTSPPort c), ''MTX_RTSPTRANSPORTS=tcp,udp'', ''MTX_RTSPAUTHMETHODS=digest'',
      ''MTX_AUTHINTERNALUSERS_0_USER=any'', ''MTX_AUTHINTERNALUSERS_0_PASS='', ''MTX_AUTHINTERNALUSERS_0_IPS=127.0.0.1,::1'',
      ''MTX_AUTHINTERNALUSERS_1_USER='' @ RTSPUsername c, ''MTX_AUTHINTERNALUSERS_1_PASS='' @ RTSPPassword c]"

definition path_env :: "config \<Rightarrow> string list" where
  "path_env c = be_env (fold (add_path c) (publicPaths c) \<lparr>be_env = base_env c, be_internal = 0, be_external = 0\<rparr>)"

definition record_env :: "(string list \<Rightarrow> string) \<Rightarrow> (string \<Rightarrow> string option) \<Rightarrow> config \<Rightarrow> string list" where
  "record_env join abs_path c =
     (let p = publishPath c (RTSPPath c) in
      if RecordingEnabled c then
        [path_setting p ''RECORD=true'',
         path_setting p ''RECORDPATH='' @ join [RecordingAbsPath abs_path c, RTSPPath c, ''%Y-%m-%d_%H-%M-%S-%f''],
         path_setting p ''RECORDFORMAT=fmp4'',
         path_setting p ''RECORDPARTDURATION=1s'',
         path_setting p ''RECORDSEGMENTDURATION='' @ itoa (SegmentSeconds c) @ ''s'',
         path_setting p ''RECORDDELETEAFTER='' @ itoa (wrap64 (RetentionDays c * 24)) @ ''h'']
      else [path_setting p ''RECORD=false''])"

definition mediaMTXEnv :: "(string list \<Rightarrow> string) \<Rightarrow> (string \<Rightarrow> string option) \<Rightarrow> config \<Rightarrow> string list" where
  "mediaMTXEnv join abs_path c =
     path_env c @
     (if InsecureNoAuth c then [''MTX_AUTHINTERNALUSERS_1_USER=any'', ''MTX_AUTHINTERNALUSERS_1_PASS=''] else []) @
     record_env join abs_path c @
     (if SubstreamEnabled c then [path_setting (publishPath c (SubstreamPath c)) ''RECORD=false''] else [])"

section \<open>The checks before the start\<close>

datatype osd_error = OSDDirectory | OSDStat | OSDCreate | OSDFont

text \<open>\<open>prepareOSD\<close>\<close>

definition prepareOSD ::
  "(string \<Rightarrow> string option) \<Rightarrow> (string \<Rightarrow> string) \<Rightarrow> config \<Rightarrow> disk \<Rightarrow> osd_error option \<times> disk"
where
  "prepareOSD abs_path dir c d =
     (let textPath = OSDTextAbsPath abs_path c;
          font = (\<lambda>d. (if os_Stat d (OSDFontFile c) then None else Some OSDFont, d)) in
      case os_MkdirAll (dir textPath) d of
        (False, d1) \<Rightarrow> (Some OSDDirectory, d1)
      | (True, d1) \<Rightarrow>
          if os_Stat d1 textPath then font d1
          else if refused d1 OpStat textPath then (Some OSDStat, d1)
          else
            (case os_WriteFile textPath [] d1 of
               (False, d2) \<Rightarrow> (Some OSDCreate, d2)
             | (True, d2) \<Rightarrow> font d2))"

text \<open>\<open>run path args\<close>: the combined output, and the error if the command fails.\<close>

type_synonym command_runner = "string \<Rightarrow> string list \<Rightarrow> string \<times> string option"

definition last_bytes :: "nat \<Rightarrow> string \<Rightarrow> string" where
  "last_bytes n s = (if length s > n then drop (length s - n) s else s)"

definition commandCheck :: "command_runner \<Rightarrow> string \<Rightarrow> string \<Rightarrow> string option" where
  "commandCheck run path arg =
     (case run path [arg] of
        (out, None) \<Rightarrow> None
      | (out, Some e) \<Rightarrow> Some (path @ '' '' @ arg @ '' failed: '' @ e @ '': '' @ last_bytes 500 (trim_space out)))"

definition ffmpegFilterCheck :: "command_runner \<Rightarrow> string \<Rightarrow> string \<Rightarrow> string option" where
  "ffmpegFilterCheck run path filter_name =
     (case run path [''-hide_banner'', ''-filters''] of
        (out, Some e) \<Rightarrow> Some (path @ '' -filters failed: '' @ e)
      | (out, None) \<Rightarrow>
          if \<not> contains out ('' '' @ filter_name @ '' '')
          then Some (''required FFmpeg filter '' @ go_quote filter_name @ '' is unavailable'') else None)"

datatype preflight_error =
    NotWindows
  | RecordingDirectory
  | PrepareOSD osd_error
  | FFmpegPreflight string
  | FFmpegOSDPreflight string
  | MediaMTXPreflight string
  | MediaMTXConfigValidation string

definition Preflight ::
  "bool \<Rightarrow> command_runner \<Rightarrow> (string \<Rightarrow> string option) \<Rightarrow> (string \<Rightarrow> string) \<Rightarrow> config \<Rightarrow> disk
    \<Rightarrow> preflight_error option \<times> disk"
where
  "Preflight windows run abs_path dir c d =
     (if \<not> windows then (Some NotWindows, d)
      else
        (case os_MkdirAll (RecordingAbsPath abs_path c) d of
           (False, d1) \<Rightarrow> (Some RecordingDirectory, d1)
         | (True, d1) \<Rightarrow>
             (case prepareOSD abs_path dir c d1 of
                (Some e, d2) \<Rightarrow> (Some (PrepareOSD e), d2)
              | (None, d2) \<Rightarrow>
                  (case commandCheck run (FFmpegPath c) ''-version'' of
                     Some e \<Rightarrow> (Some (FFmpegPreflight e), d2)
                   | None \<Rightarrow>
                       (case ffmpegFilterCheck run (FFmpegPath c) ''drawtext'' of
                          Some e \<Rightarrow> (Some (FFmpegOSDPreflight e), d2)
                        | None \<Rightarrow>
                            (case commandCheck run (MediaMTXPath c) ''--version'' of
                               Some e \<Rightarrow> (Some (MediaMTXPreflight e), d2)
                             | None \<Rightarrow>
                                 (case commandCheck run (MediaMTXPath c) (''--validate-conf='' @ MediaMTXConfig c) of
                                    Some e \<Rightarrow> (Some (MediaMTXConfigValidation e), d2)
                                  | None \<Rightarrow> (None, d2))))))))"

section \<open>Reading the environment\<close>

text \<open>
  The value of a variable in a list of settings, as \<open>exec.Cmd\<close> hands it over: the last setting of
  the name counts.
\<close>

definition env_get :: "string list \<Rightarrow> string \<Rightarrow> string option" where
  "env_get env k = map_option (drop (length k + 1)) (find (\<lambda>e. has_prefix e (k @ ''='')) (rev env))"

definition render :: "string \<times> string \<Rightarrow> string" where "render e = fst e @ ''='' @ snd e"

lemma separated_eq: "c \<notin> set x \<Longrightarrow> c \<notin> set y \<Longrightarrow> x @ c # s = y @ c # t \<longleftrightarrow> x = y \<and> s = t"
proof (induction x arbitrary: y)
  case Nil
  then show ?case by (cases y) auto
next
  case (Cons d x)
  then show ?case by (cases y) auto
qed

lemma render_prefix:
  assumes "CHR ''='' \<notin> set k" "CHR ''='' \<notin> set (fst e)"
  shows "has_prefix (render e) (k @ ''='') \<longleftrightarrow> fst e = k"
proof
  assume "has_prefix (render e) (k @ ''='')"
  then have "fst e @ CHR ''='' # snd e = k @ CHR ''='' # drop (length (k @ ''='')) (render e)"
    unfolding render_def by (metis append_Cons append_Nil append_assoc has_prefixD)
  then show "fst e = k" using assms by (simp add: separated_eq)
qed (auto simp: render_def has_prefix_def)

lemma env_get_render:
  assumes "CHR ''='' \<notin> set k" "list_all (\<lambda>e. CHR ''='' \<notin> set (fst e)) es"
  shows "env_get (map render es) k = map_of (rev es) k"
proof -
  have "map_option (drop (length k + 1)) (find (\<lambda>e. has_prefix e (k @ ''='')) (map render es)) = map_of es k"
    if "list_all (\<lambda>e. CHR ''='' \<notin> set (fst e)) es" for es
    using that
  proof (induction es)
    case (Cons e es)
    have "drop (length k + 1) (render (k, v)) = v" for v by (simp add: render_def)
    with Cons show ?case by (cases e) (auto simp: render_prefix [OF assms(1)])
  qed simp
  from this [of "rev es"] show ?thesis
    using assms(2) by (simp add: env_get_def rev_map list_all_iff)
qed

definition perm_key :: "nat \<Rightarrow> nat \<Rightarrow> string \<Rightarrow> string" where
  "perm_key u i field = permission_prefix u i @ field"

definition setting_key :: "string \<Rightarrow> string \<Rightarrow> string" where
  "setting_key path setting = ''MTX_PATHS_'' @ pathEnvKey path @ ''_'' @ setting"

definition perm_entries :: "nat \<Rightarrow> nat \<Rightarrow> string \<Rightarrow> string \<Rightarrow> (string \<times> string) list" where
  "perm_entries u i action path = [(perm_key u i ''ACTION'', action), (perm_key u i ''PATH'', path)]"

definition path_entries :: "config \<Rightarrow> nat \<Rightarrow> nat \<Rightarrow> string \<Rightarrow> (string \<times> string) list" where
  "path_entries c i j p =
     perm_entries 0 i ''publish'' (publishPath c p) @ perm_entries 0 (i + 1) ''read'' (publishPath c p) @
     (if MetadataEnabled c then perm_entries 0 (i + 2) ''publish'' p @ perm_entries 0 (i + 3) ''read'' p else []) @
     perm_entries 1 j ''read'' p @ [(setting_key (publishPath c p) ''SOURCE'', ''publisher'')] @
     (if MetadataEnabled c then [(setting_key p ''SOURCE'', ''publisher''), (setting_key p ''RECORD'', ''false'')] else [])"

definition base_entries :: "config \<Rightarrow> (string \<times> string) list" where
  "base_entries c =
     [(''MTX_RTSPADDRESS'', '':'' @ itoa (RTSPPort c)), (''MTX_RTSPTRANSPORTS'', ''tcp,udp''), (''MTX_RTSPAUTHMETHODS'', ''digest''),
      (''MTX_AUTHINTERNALUSERS_0_USER'', ''any''), (''MTX_AUTHINTERNALUSERS_0_PASS'', []),
      (''MTX_AUTHINTERNALUSERS_0_IPS'', ''127.0.0.1,::1''),
      (''MTX_AUTHINTERNALUSERS_1_USER'', RTSPUsername c), (''MTX_AUTHINTERNALUSERS_1_PASS'', RTSPPassword c)]"

definition record_entries :: "(string list \<Rightarrow> string) \<Rightarrow> (string \<Rightarrow> string option) \<Rightarrow> config \<Rightarrow> (string \<times> string) list" where
  "record_entries join abs_path c =
     (let p = publishPath c (RTSPPath c) in
      if RecordingEnabled c then
        [(setting_key p ''RECORD'', ''true''),
         (setting_key p ''RECORDPATH'', join [RecordingAbsPath abs_path c, RTSPPath c, ''%Y-%m-%d_%H-%M-%S-%f'']),
         (setting_key p ''RECORDFORMAT'', ''fmp4''), (setting_key p ''RECORDPARTDURATION'', ''1s''),
         (setting_key p ''RECORDSEGMENTDURATION'', itoa (SegmentSeconds c) @ ''s''),
         (setting_key p ''RECORDDELETEAFTER'', itoa (wrap64 (RetentionDays c * 24)) @ ''h'')]
      else [(setting_key p ''RECORD'', ''false'')])"

definition env_entries :: "(string list \<Rightarrow> string) \<Rightarrow> (string \<Rightarrow> string option) \<Rightarrow> config \<Rightarrow> (string \<times> string) list" where
  "env_entries join abs_path c =
     base_entries c @ path_entries c 0 0 (RTSPPath c) @
     (if SubstreamEnabled c then path_entries c (if MetadataEnabled c then 4 else 2) 1 (SubstreamPath c) else []) @
     (if InsecureNoAuth c then [(''MTX_AUTHINTERNALUSERS_1_USER'', ''any''), (''MTX_AUTHINTERNALUSERS_1_PASS'', [])] else []) @
     record_entries join abs_path c @
     (if SubstreamEnabled c then [(setting_key (publishPath c (SubstreamPath c)) ''RECORD'', ''false'')] else [])"

lemma add_path_eq:
  "add_path c p b = b\<lparr>be_env := be_env b @ map render (path_entries c (be_internal b) (be_external b) p),
     be_internal := be_internal b + (if MetadataEnabled c then 4 else 2), be_external := be_external b + 1\<rparr>"
  by (simp add: add_path_def addInternal_def addExternalRead_def appendPermission_def path_entries_def perm_entries_def
      perm_key_def setting_key_def path_setting_def render_def Let_def numeral_eq_Suc)

lemma mediaMTXEnv_entries: "mediaMTXEnv join abs_path c = map render (env_entries join abs_path c)"
proof -
  have "path_env c = map render (base_entries c @ path_entries c 0 0 (RTSPPath c) @
     (if SubstreamEnabled c then path_entries c (if MetadataEnabled c then 4 else 2) 1 (SubstreamPath c) else []))"
    by (simp add: path_env_def publicPaths_def add_path_eq base_env_def base_entries_def render_def)
  moreover have "record_env join abs_path c = map render (record_entries join abs_path c)"
    by (simp add: record_env_def record_entries_def path_setting_def setting_key_def render_def Let_def)
  ultimately show ?thesis
    by (simp add: mediaMTXEnv_def env_entries_def path_setting_def setting_key_def render_def)
qed

section \<open>Keys\<close>

lemma underscore_not_digit: "CHR ''_'' \<notin> set (dec_nat n)" "CHR ''='' \<notin> set (dec_nat n)"
  using dec_nat_digits [of n] by (auto simp: is_digit_def)

lemma dec_nat_eq_iff: "dec_nat m = dec_nat n \<longleftrightarrow> m = n"
  using digits_val_dec_nat by metis

lemma perm_key_eq [simp]: "perm_key u i f = perm_key v j g \<longleftrightarrow> u = v \<and> i = j \<and> f = g"
  by (simp add: perm_key_def permission_prefix_def separated_eq underscore_not_digit dec_nat_eq_iff)

lemma perm_key_setting [simp]: "perm_key u i f \<noteq> setting_key p g" "setting_key p g \<noteq> perm_key u i f"
  by (simp_all add: perm_key_def permission_prefix_def setting_key_def)

lemma dec_nat_1: "dec_nat (Suc 0) = ''1''" "dec_nat 0 = ''0''"
  by (simp_all add: dec_nat.simps digit_chars [unfolded One_nat_def])

text \<open>The variables with a fixed name are neither permissions nor settings of a path.\<close>

definition fixed_keys :: "string list" where
  "fixed_keys = [''MTX_RTSPADDRESS'', ''MTX_RTSPTRANSPORTS'', ''MTX_RTSPAUTHMETHODS'', ''MTX_AUTHINTERNALUSERS_0_USER'',
     ''MTX_AUTHINTERNALUSERS_0_PASS'', ''MTX_AUTHINTERNALUSERS_0_IPS'', ''MTX_AUTHINTERNALUSERS_1_USER'',
     ''MTX_AUTHINTERNALUSERS_1_PASS'']"

lemma user_field: "c \<noteq> CHR ''_'' \<Longrightarrow> dec_nat u @ CHR ''_'' # x = c # CHR ''_'' # y \<Longrightarrow> x = y"
  using separated_eq [of "CHR ''_''" "dec_nat u" "[c]" x y] by (simp add: underscore_not_digit)

lemma perm_key_fixed: "k \<in> set fixed_keys \<Longrightarrow> perm_key u i f \<noteq> k"
  by (auto simp: perm_key_def permission_prefix_def fixed_keys_def dest!: user_field [rotated])

lemma setting_key_fixed: "k \<in> set fixed_keys \<Longrightarrow> setting_key p f \<noteq> k"
  by (auto simp: setting_key_def fixed_keys_def)

lemma base_keys: "map fst (base_entries c) = fixed_keys"
  by (simp add: base_entries_def fixed_keys_def)

lemma map_of_base [simp]:
  "map_of (rev (base_entries c)) (perm_key u i f) = None"
  "map_of (rev (base_entries c)) (setting_key p f) = None"
proof -
  have "fst ` set (base_entries c) = set fixed_keys" using base_keys by (metis image_set)
  then show "map_of (rev (base_entries c)) (perm_key u i f) = None"
    "map_of (rev (base_entries c)) (setting_key p f) = None"
    using perm_key_fixed [of "perm_key u i f" u i f] setting_key_fixed [of "setting_key p f" p f]
    by (auto simp: map_of_eq_None_iff)
qed

definition path_name :: "string \<Rightarrow> bool" where "path_name p \<longleftrightarrow> CHR ''='' \<notin> set (pathEnvKey p)"

lemma key_plain:
  "CHR ''='' \<notin> set f \<Longrightarrow> CHR ''='' \<notin> set (perm_key u i f)"
  "CHR ''='' \<notin> set f \<Longrightarrow> path_name p \<Longrightarrow> CHR ''='' \<notin> set (setting_key p f)"
  by (simp_all add: perm_key_def permission_prefix_def setting_key_def path_name_def underscore_not_digit)

lemma path_name_raw: "path_name p \<Longrightarrow> path_name (publishPath c p)"
proof -
  have "CHR ''='' \<notin> set (map to_upper_char ''_raw'')" by code_simp
  then show "path_name p \<Longrightarrow> path_name (publishPath c p)"
    by (simp add: path_name_def publishPath_def rawPath_def pathEnvKey_def to_upper_def)
qed

lemma rtspPath_name: "rtspPathRE p \<Longrightarrow> path_name p"
proof -
  have "path_char x \<Longrightarrow> CHR ''='' \<noteq> to_upper_char x" for x
  proof -
    have "n - 32 \<noteq> 61" "n - 32 < 256" if "97 \<le> n" "n \<le> 122" for n :: nat using that by simp_all
    moreover have "char_of k = CHR ''='' \<Longrightarrow> k < 256 \<Longrightarrow> k = 61" for k :: nat
      by (drule arg_cong [of _ _ "of_char :: char \<Rightarrow> nat"]) simp
    moreover assume "path_char x"
    ultimately show ?thesis by (auto simp: path_char_def to_upper_char_def Let_def)
  qed
  then show "rtspPathRE p \<Longrightarrow> path_name p"
    by (auto simp: rtspPathRE_def path_name_def pathEnvKey_def to_upper_def list_all_iff)
qed

lemma valid_paths:
  assumes "validate c = None"
  shows "path_name (RTSPPath c)" "SubstreamEnabled c \<Longrightarrow> path_name (SubstreamPath c)"
    "SubstreamEnabled c \<Longrightarrow> SubstreamPath c \<noteq> RTSPPath c"
  using assms rtspPath_name by (auto simp: validate_None_iff valid_config_def valid_streams_def valid_substream_def)

lemma fixed_keys_plain: "\<forall>k \<in> set fixed_keys. CHR ''='' \<notin> set k"
  by code_simp

lemma base_entries_plain: "list_all (\<lambda>e. CHR ''='' \<notin> set (fst e)) (base_entries c)"
proof -
  have "list_all (\<lambda>k. CHR ''='' \<notin> set k) (map fst (base_entries c))"
    unfolding base_keys using fixed_keys_plain by (simp add: list_all_iff)
  then show ?thesis by (simp add: list_all_iff)
qed

lemma path_entries_plain: "path_name p \<Longrightarrow> list_all (\<lambda>e. CHR ''='' \<notin> set (fst e)) (path_entries c i j p)"
  by (simp add: path_entries_def perm_entries_def key_plain path_name_raw)

lemma env_entries_plain:
  assumes "path_name (RTSPPath c)" "SubstreamEnabled c \<Longrightarrow> path_name (SubstreamPath c)"
  shows "list_all (\<lambda>e. CHR ''='' \<notin> set (fst e)) (env_entries join abs_path c)"
  using assms by (simp add: env_entries_def base_entries_plain path_entries_plain record_entries_def key_plain path_name_raw Let_def)

lemma perm_key_users [simp]:
  "perm_key u i f \<noteq> ''MTX_AUTHINTERNALUSERS_1_USER''" "perm_key u i f \<noteq> ''MTX_AUTHINTERNALUSERS_1_PASS''"
  "setting_key p f \<noteq> ''MTX_AUTHINTERNALUSERS_1_USER''" "setting_key p f \<noteq> ''MTX_AUTHINTERNALUSERS_1_PASS''"
  using perm_key_fixed setting_key_fixed by (auto simp: fixed_keys_def)

text \<open>A permission: the action and the path of an index of a user.\<close>

definition permission :: "string list \<Rightarrow> nat \<Rightarrow> nat \<Rightarrow> (string \<times> string) option" where
  "permission env u i =
     (case (env_get env (perm_key u i ''ACTION''), env_get env (perm_key u i ''PATH'')) of
        (Some a, Some p) \<Rightarrow> Some (a, p)
      | _ \<Rightarrow> None)"

definition permits :: "string list \<Rightarrow> nat \<Rightarrow> string \<Rightarrow> string \<Rightarrow> bool" where
  "permits env u a p \<longleftrightarrow> (\<exists>i. permission env u i = Some (a, p))"

lemma env_get_perm:
  assumes "path_name (RTSPPath c)" "SubstreamEnabled c \<Longrightarrow> path_name (SubstreamPath c)" "CHR ''='' \<notin> set f"
  shows "env_get (mediaMTXEnv join abs_path c) (perm_key u i f) = map_of (rev (env_entries join abs_path c)) (perm_key u i f)"
  unfolding mediaMTXEnv_entries by (rule env_get_render) (use assms in \<open>simp_all add: env_entries_plain key_plain\<close>)

lemma env_get_setting:
  assumes "path_name (RTSPPath c)" "SubstreamEnabled c \<Longrightarrow> path_name (SubstreamPath c)" "path_name p" "CHR ''='' \<notin> set f"
  shows "env_get (mediaMTXEnv join abs_path c) (setting_key p f) = map_of (rev (env_entries join abs_path c)) (setting_key p f)"
  unfolding mediaMTXEnv_entries by (rule env_get_render) (use assms in \<open>simp_all add: env_entries_plain key_plain\<close>)

lemma external_permission:
  assumes "path_name (RTSPPath c)" "SubstreamEnabled c \<Longrightarrow> path_name (SubstreamPath c)"
  shows "permission (mediaMTXEnv join abs_path c) 1 i =
     (if i < length (publicPaths c) then Some (''read'', publicPaths c ! i) else None)"
  using assms
  by (simp add: permission_def env_get_perm env_entries_def path_entries_def perm_entries_def record_entries_def
      publicPaths_def less_Suc_eq Let_def)

text \<open>The permissions of the first user, in the order of their indices.\<close>

definition internal_table :: "config \<Rightarrow> (string \<times> string) list" where
  "internal_table c =
     concat (map (\<lambda>p. [(''publish'', publishPath c p), (''read'', publishPath c p)] @
                      (if MetadataEnabled c then [(''publish'', p), (''read'', p)] else [])) (publicPaths c))"

lemma internal_permission:
  assumes "path_name (RTSPPath c)" "SubstreamEnabled c \<Longrightarrow> path_name (SubstreamPath c)"
  shows "permission (mediaMTXEnv join abs_path c) 0 i =
     (if i < length (internal_table c) then Some (internal_table c ! i) else None)"
  using assms
  by (simp add: permission_def env_get_perm env_entries_def path_entries_def perm_entries_def record_entries_def
      publicPaths_def internal_table_def less_Suc_eq numeral_eq_Suc Let_def)

lemma no_other_user:
  assumes "path_name (RTSPPath c)" "SubstreamEnabled c \<Longrightarrow> path_name (SubstreamPath c)"
  shows "permission (mediaMTXEnv join abs_path c) (Suc (Suc u)) i = None"
  using assms
  by (simp add: permission_def env_get_perm env_entries_def path_entries_def perm_entries_def record_entries_def Let_def)

lemma permits_table:
  assumes "\<And>i. permission env u i = (if i < length xs then Some (xs ! i) else None)"
  shows "permits env u a p \<longleftrightarrow> (a, p) \<in> set xs"
  by (auto simp: permits_def assms in_set_conv_nth split: if_splits)

lemma internal_permits:
  assumes "path_name (RTSPPath c)" "SubstreamEnabled c \<Longrightarrow> path_name (SubstreamPath c)"
  shows "permits (mediaMTXEnv join abs_path c) 0 a q \<longleftrightarrow>
     (a = ''publish'' \<or> a = ''read'') \<and> (\<exists>p \<in> set (publicPaths c). q = publishPath c p \<or> MetadataEnabled c \<and> q = p)"
proof -
  have "permits (mediaMTXEnv join abs_path c) 0 a q \<longleftrightarrow> (a, q) \<in> set (internal_table c)"
    by (rule permits_table) (use assms in \<open>simp add: internal_permission\<close>)
  then show ?thesis by (auto simp: internal_table_def)
qed

text \<open>The settings with a fixed name; the later ones of a configuration without authentication win.\<close>

lemma env_get_fixed:
  assumes "path_name (RTSPPath c)" "SubstreamEnabled c \<Longrightarrow> path_name (SubstreamPath c)"
  shows "env_get (mediaMTXEnv join abs_path c) ''MTX_RTSPADDRESS'' = Some ('':'' @ itoa (RTSPPort c))"
    "env_get (mediaMTXEnv join abs_path c) ''MTX_RTSPAUTHMETHODS'' = Some ''digest''"
    "env_get (mediaMTXEnv join abs_path c) ''MTX_AUTHINTERNALUSERS_0_IPS'' = Some ''127.0.0.1,::1''"
    "env_get (mediaMTXEnv join abs_path c) ''MTX_AUTHINTERNALUSERS_1_USER'' =
       Some (if InsecureNoAuth c then ''any'' else RTSPUsername c)"
    "env_get (mediaMTXEnv join abs_path c) ''MTX_AUTHINTERNALUSERS_1_PASS'' =
       Some (if InsecureNoAuth c then [] else RTSPPassword c)"
proof -
  have get: "env_get (mediaMTXEnv join abs_path c) k = map_of (rev (env_entries join abs_path c)) k" if "k \<in> set fixed_keys" for k
    unfolding mediaMTXEnv_entries by (rule env_get_render) (use assms that fixed_keys_plain in \<open>auto simp: env_entries_plain\<close>)
  have fixed [simp]: "perm_key u i f \<noteq> k" "setting_key p f \<noteq> k" "k \<noteq> perm_key u i f" "k \<noteq> setting_key p f"
    if "k \<in> set fixed_keys" for k u i f p
    using that perm_key_fixed setting_key_fixed by blast+
  note defs = env_entries_def base_entries_def path_entries_def perm_entries_def record_entries_def Let_def
  have keys: "''MTX_RTSPADDRESS'' \<in> set fixed_keys" "''MTX_RTSPAUTHMETHODS'' \<in> set fixed_keys"
    "''MTX_AUTHINTERNALUSERS_0_IPS'' \<in> set fixed_keys" "''MTX_AUTHINTERNALUSERS_1_USER'' \<in> set fixed_keys"
    "''MTX_AUTHINTERNALUSERS_1_PASS'' \<in> set fixed_keys"
    by (simp_all add: fixed_keys_def)
  show "env_get (mediaMTXEnv join abs_path c) ''MTX_RTSPADDRESS'' = Some ('':'' @ itoa (RTSPPort c))"
    using keys(1) by (simp add: get defs)
  show "env_get (mediaMTXEnv join abs_path c) ''MTX_RTSPAUTHMETHODS'' = Some ''digest''"
    using keys(2) by (simp add: get defs)
  show "env_get (mediaMTXEnv join abs_path c) ''MTX_AUTHINTERNALUSERS_0_IPS'' = Some ''127.0.0.1,::1''"
    using keys(3) by (simp add: get defs)
  show "env_get (mediaMTXEnv join abs_path c) ''MTX_AUTHINTERNALUSERS_1_USER'' =
       Some (if InsecureNoAuth c then ''any'' else RTSPUsername c)"
    using keys(4) by (simp add: get defs)
  show "env_get (mediaMTXEnv join abs_path c) ''MTX_AUTHINTERNALUSERS_1_PASS'' =
       Some (if InsecureNoAuth c then [] else RTSPPassword c)"
    using keys(5) by (simp add: get defs)
qed

section \<open>The arguments of FFmpeg\<close>

text \<open>The targets of the RTSP outputs: what follows \<open>-f rtsp\<close>.\<close>

fun rtsp_targets :: "string list \<Rightarrow> string list" where
  "rtsp_targets (a # b # u # args) =
     (if a = ''-f'' \<and> b = ''rtsp'' then u # rtsp_targets args else rtsp_targets (b # u # args))"
| "rtsp_targets args = []"

lemma rtsp_targets_args:
  "rtsp_targets (ffmpegArgsWithConfig abs_path c cfg encoder) = map (\<lambda>p. loopback_url cfg (publishPath c p)) (publicPaths cfg)"
  by (simp add: ffmpegArgsWithConfig_def capture_input_def encoderArgs_def rtsp_output_def publicPaths_def Let_def)

lemma copy_video_paths [simp]:
  "RTSPPath (copy_video v c) = RTSPPath c" "SubstreamPath (copy_video v c) = SubstreamPath c"
  "SubstreamEnabled (copy_video v c) = SubstreamEnabled c" "RTSPPort (copy_video v c) = RTSPPort c"
  by (simp_all add: copy_video_def)

lemma publishPath_inj [simp]: "publishPath c p = publishPath c q \<longleftrightarrow> p = q"
  by (simp add: publishPath_def rawPath_def)

lemma pathEnvKey_publish [simp]: "pathEnvKey (publishPath c p) = pathEnvKey (publishPath c q) \<longleftrightarrow> pathEnvKey p = pathEnvKey q"
  by (simp add: publishPath_def rawPath_def pathEnvKey_def to_upper_def)

lemma setting_key_same [simp]: "setting_key p f = setting_key q f \<longleftrightarrow> pathEnvKey p = pathEnvKey q"
  by (simp add: setting_key_def)

lemma setting_key_other: "f \<noteq> [] \<Longrightarrow> g \<noteq> [] \<Longrightarrow> last f \<noteq> last g \<Longrightarrow> setting_key p f \<noteq> setting_key q g"
  by (metis append_is_Nil_conv last_appendR setting_key_def)

lemma record_keys [simp]:
  "setting_key p ''RECORD'' \<noteq> setting_key q ''SOURCE''" "setting_key p ''RECORD'' \<noteq> setting_key q ''RECORDPATH''"
  "setting_key p ''RECORD'' \<noteq> setting_key q ''RECORDFORMAT''" "setting_key p ''RECORD'' \<noteq> setting_key q ''RECORDPARTDURATION''"
  "setting_key p ''RECORD'' \<noteq> setting_key q ''RECORDSEGMENTDURATION''"
  "setting_key p ''RECORD'' \<noteq> setting_key q ''RECORDDELETEAFTER''"
  by (rule setting_key_other; simp)+

lemma record_switch:
  assumes "path_name (RTSPPath c)" "SubstreamEnabled c \<Longrightarrow> path_name (SubstreamPath c)"
  shows "env_get (mediaMTXEnv join abs_path c) (setting_key (publishPath c (RTSPPath c)) ''RECORD'') =
     Some (if RecordingEnabled c \<and> \<not> (SubstreamEnabled c \<and> pathEnvKey (SubstreamPath c) = pathEnvKey (RTSPPath c))
           then ''true'' else ''false'')"
proof -
  have "env_get (mediaMTXEnv join abs_path c) (setting_key (publishPath c (RTSPPath c)) ''RECORD'') =
      map_of (rev (env_entries join abs_path c)) (setting_key (publishPath c (RTSPPath c)) ''RECORD'')"
    by (rule env_get_setting) (use assms in \<open>simp_all add: path_name_raw\<close>)
  then show ?thesis
    by (simp add: env_entries_def record_entries_def Let_def record_keys [symmetric])
qed

section \<open>The addresses of the profiles\<close>

lemma announced_urls:
  "(\<exists>token. streamURLForProfile s token = Some u) \<longleftrightarrow>
     (\<exists>p \<in> set (publicPaths (s_cfg s)). u = ''rtsp://'' @ s_ip s @ '':'' @ itoa (RTSPPort (s_cfg s)) @ ''/'' @ p)"
proof -
  have "streamURLForProfile s [] = Some (StreamURL s)"
    "SubstreamEnabled (s_cfg s) \<Longrightarrow> streamURLForProfile s ''screen_profile_sub'' = Some (SubStreamURL s)"
    by (simp_all add: streamURLForProfile_def)
  then show ?thesis
    by (auto simp: publicPaths_def streamURLForProfile_def StreamURL_def SubStreamURL_def split: if_splits)
qed

section \<open>The checks\<close>

text \<open>The only file the preparation writes is an OSD text that did not exist.\<close>

lemma prepareOSD_writes:
  "snd (prepareOSD abs_path dir c d) = d
   \<or> files d (OSDTextAbsPath abs_path c) = None
     \<and> files (snd (prepareOSD abs_path dir c d)) = (files d)(OSDTextAbsPath abs_path c \<mapsto> [])"
  by (auto simp: prepareOSD_def os_MkdirAll_def os_Stat_def os_WriteFile_def Let_def split: bool.splits option.splits if_splits)

lemma prepareOSD_frame: "files d p = Some t \<Longrightarrow> files (snd (prepareOSD abs_path dir c d)) p = Some t"
  using prepareOSD_writes [of abs_path dir c d] by auto

lemma prepareOSD_changes:
  "files (snd (prepareOSD abs_path dir c d)) p \<noteq> files d p \<Longrightarrow> p = OSDTextAbsPath abs_path c \<and> files d p = None"
  using prepareOSD_writes [of abs_path dir c d] by (auto split: if_splits)

lemma prepareOSD_done:
  assumes "prepareOSD abs_path dir c d = (None, d')"
  shows "files d' (OSDTextAbsPath abs_path c) = Some (case files d (OSDTextAbsPath abs_path c) of None \<Rightarrow> [] | Some t \<Rightarrow> t)"
    "files d' (OSDFontFile c) \<noteq> None" "\<not> refused d OpMkdirAll (dir (OSDTextAbsPath abs_path c))"
  using assms
  by (auto simp: prepareOSD_def os_MkdirAll_def os_Stat_def os_WriteFile_def Let_def
      split: bool.splits option.splits if_splits)

lemma commandCheck_None: "commandCheck run path arg = None \<longleftrightarrow> snd (run path [arg]) = None"
  by (auto simp: commandCheck_def split: prod.splits option.splits)

lemma ffmpegFilterCheck_None:
  "ffmpegFilterCheck run path f = None \<longleftrightarrow>
     snd (run path [''-hide_banner'', ''-filters'']) = None \<and> contains (fst (run path [''-hide_banner'', ''-filters''])) ('' '' @ f @ '' '')"
  by (auto simp: ffmpegFilterCheck_def split: prod.splits option.splits)

lemma Preflight_disk:
  "snd (Preflight windows run abs_path dir c d) = d \<or> snd (Preflight windows run abs_path dir c d) = snd (prepareOSD abs_path dir c d)"
  by (auto simp: Preflight_def os_MkdirAll_def split: option.splits prod.splits bool.splits)

lemma Preflight_done:
  assumes "Preflight windows run abs_path dir c d = (None, d')"
  shows "windows" "prepareOSD abs_path dir c d = (None, d')" "\<not> refused d OpMkdirAll (RecordingAbsPath abs_path c)"
    "commandCheck run (FFmpegPath c) ''-version'' = None" "ffmpegFilterCheck run (FFmpegPath c) ''drawtext'' = None"
    "commandCheck run (MediaMTXPath c) ''--version'' = None"
    "commandCheck run (MediaMTXPath c) (''--validate-conf='' @ MediaMTXConfig c) = None"
  using assms
  by (auto simp: Preflight_def os_MkdirAll_def split: option.splits prod.splits bool.splits if_splits)

section \<open>Properties\<close>

text \<open>
  Property C13: the parts agree on the paths, and this stays so after any update of the video
  settings. FFmpeg publishes exactly the streams of the configuration, each on its own loopback
  path. MediaMTX lets the internal user publish and read exactly these paths and, with metadata,
  the public paths. With metadata the relay reads the very address that FFmpeg publishes and writes the public path; without it
  FFmpeg publishes the public paths itself. The addresses that the server hands out for its
  profiles are exactly the public paths at the port where MediaMTX listens.
\<close>

theorem capture_paths_agree:
  assumes "validate c = None" "cfg = copy_video v c" "env = mediaMTXEnv join abs_path c" "s_cfg s = c"
  shows "rtsp_targets (ffmpegArgsWithConfig abs_path c cfg encoder) = map (\<lambda>p. loopback_url c (publishPath c p)) (publicPaths c)
    \<and> distinct (map (publishPath c) (publicPaths c))
    \<and> (permits env 0 a q \<longleftrightarrow>
         (a = ''publish'' \<or> a = ''read'') \<and> (\<exists>p \<in> set (publicPaths c). q = publishPath c p \<or> MetadataEnabled c \<and> q = p))
    \<and> (if MetadataEnabled c
       then relay_url c (rawPath p) = loopback_url c (publishPath c p) \<and> relay_url c p = loopback_url c p
       else publishPath c p = p)
    \<and> ((\<exists>token. streamURLForProfile s token = Some u) \<longleftrightarrow>
         (\<exists>p \<in> set (publicPaths c). u = ''rtsp://'' @ s_ip s @ '':'' @ itoa (RTSPPort c) @ ''/'' @ p))
    \<and> env_get env ''MTX_RTSPADDRESS'' = Some ('':'' @ itoa (RTSPPort c))"
proof -
  note paths = valid_paths [OF assms(1)]
  have cfg: "publicPaths cfg = publicPaths c" "loopback_url cfg = loopback_url c"
    by (simp_all add: assms(2) publicPaths_def loopback_url_def fun_eq_iff)
  have "distinct (map (publishPath c) (publicPaths c))"
    using paths(3) by (auto simp: publicPaths_def)
  moreover have "(\<exists>token. streamURLForProfile s token = Some u) \<longleftrightarrow>
      (\<exists>p \<in> set (publicPaths c). u = ''rtsp://'' @ s_ip s @ '':'' @ itoa (RTSPPort c) @ ''/'' @ p)"
    using announced_urls [of s u] assms(4) by simp
  moreover have "if MetadataEnabled c
       then relay_url c (rawPath p) = loopback_url c (publishPath c p) \<and> relay_url c p = loopback_url c p
       else publishPath c p = p"
    by (simp add: relay_url_def loopback_url_def publishPath_def)
  ultimately show ?thesis
    by (simp add: rtsp_targets_args cfg assms(3) internal_permits [OF paths(1,2)] env_get_fixed [OF paths(1,2)])
qed

text \<open>
  Property C7: from outside, MediaMTX lets a client do nothing but read, and only the public paths.
  The first user, who needs no password and may publish, is bound to the loopback addresses. The
  second user has exactly one permission to read for each public path, and its name and password
  are the configured ones, unless the configuration switches authentication off. There is no
  permission for any further user. So the raw streams and publishing stay internal.
\<close>

theorem external_users_only_read:
  assumes "validate c = None" "env = mediaMTXEnv join abs_path c"
  shows "permission env 1 i = (if i < length (publicPaths c) then Some (''read'', publicPaths c ! i) else None)
    \<and> (permits env 1 a p \<longleftrightarrow> a = ''read'' \<and> p \<in> set (publicPaths c))
    \<and> permission env (Suc (Suc u)) i = None
    \<and> env_get env ''MTX_AUTHINTERNALUSERS_0_IPS'' = Some ''127.0.0.1,::1''
    \<and> env_get env ''MTX_AUTHINTERNALUSERS_1_USER'' = Some (if InsecureNoAuth c then ''any'' else RTSPUsername c)
    \<and> env_get env ''MTX_AUTHINTERNALUSERS_1_PASS'' = Some (if InsecureNoAuth c then [] else RTSPPassword c)
    \<and> env_get env ''MTX_RTSPAUTHMETHODS'' = Some ''digest''"
proof -
  note paths = valid_paths [OF assms(1)]
  have user: "permission env 1 i = (if i < length (publicPaths c) then Some (''read'', publicPaths c ! i) else None)" for i
    unfolding assms(2) by (rule external_permission) (use paths in simp_all)
  moreover have "permits env 1 a p \<longleftrightarrow> a = ''read'' \<and> p \<in> set (publicPaths c)"
    by (auto simp: permits_def user [unfolded One_nat_def] in_set_conv_nth split: if_splits)
  ultimately show ?thesis
    using no_other_user [OF paths(1,2)] env_get_fixed [OF paths(1,2)] by (simp add: assms(2))
qed

text \<open>
  Property C38: recording is on for the main stream exactly when the configuration says so, except
  when the substream's path differs from the main path only in the case of its letters. Then both have
  the same key, the last setting wins, and nothing is recorded although the configuration
  is valid and asks for it.
\<close>

theorem recording_switch:
  assumes "validate c = None"
  shows "env_get (mediaMTXEnv join abs_path c) (setting_key (publishPath c (RTSPPath c)) ''RECORD'') =
     Some (if RecordingEnabled c \<and> \<not> (SubstreamEnabled c \<and> to_upper (SubstreamPath c) = to_upper (RTSPPath c))
           then ''true'' else ''false'')"
  using record_switch [OF valid_paths(1,2) [OF assms]] by (simp add: pathEnvKey_def)

text \<open>
  A configured encoder is used or the start fails, and with \<open>auto\<close> the choice is the
  first of the four candidates that FFmpeg can run; there is an error only if none works.
\<close>

theorem encoder_choice:
  "selectEncoder run c =
     (if Encoder c \<noteq> ''auto''
      then (case probeEncoder run (Encoder c) of
              None \<Rightarrow> Inr (Encoder c)
            | Some e \<Rightarrow> Inl (''configured encoder '' @ Encoder c @ '' is unavailable: '' @ e))
      else if \<exists>e \<in> set encoder_candidates. probeEncoder run e = None
      then Inr (hd (filter (\<lambda>e. probeEncoder run e = None) encoder_candidates))
      else Inl ''no usable H.264 encoder found'')"
  by (auto simp: selectEncoder_def encoder_candidates_def)

text \<open>
  Property C27: a successful preflight means what it says: the system is Windows, the directories of
  the recordings and of the OSD text could be made, both versions were printed, the list of the filters was printed and has the
  text filter, MediaMTX accepted its configuration, the OSD text file and the font exist. Whatever
  its result, it changes no file that existed: an OSD text survives the restart. The only file
  it can create is the OSD text.
\<close>

theorem preflight_postcondition:
  assumes "Preflight windows run abs_path dir c d = (err, d')"
  shows "(err = None \<longrightarrow> windows
        \<and> \<not> refused d OpMkdirAll (RecordingAbsPath abs_path c) \<and> \<not> refused d OpMkdirAll (dir (OSDTextAbsPath abs_path c))
        \<and> files d' (OSDFontFile c) \<noteq> None
        \<and> files d' (OSDTextAbsPath abs_path c) = Some (case files d (OSDTextAbsPath abs_path c) of None \<Rightarrow> [] | Some t \<Rightarrow> t)
        \<and> snd (run (FFmpegPath c) [''-version'']) = None
        \<and> snd (run (FFmpegPath c) [''-hide_banner'', ''-filters'']) = None
        \<and> contains (fst (run (FFmpegPath c) [''-hide_banner'', ''-filters''])) '' drawtext ''
        \<and> snd (run (MediaMTXPath c) [''--version'']) = None
        \<and> snd (run (MediaMTXPath c) [''--validate-conf='' @ MediaMTXConfig c]) = None)
    \<and> (files d p = Some t \<longrightarrow> files d' p = Some t)
    \<and> (files d' p \<noteq> files d p \<longrightarrow> p = OSDTextAbsPath abs_path c \<and> files d p = None)"
proof -
  have d': "d' = d \<or> d' = snd (prepareOSD abs_path dir c d)"
    using Preflight_disk [of windows run abs_path dir c d] assms by auto
  have "files d p = Some t \<longrightarrow> files d' p = Some t"
    using d' prepareOSD_frame by auto
  moreover have "files d' p \<noteq> files d p \<longrightarrow> p = OSDTextAbsPath abs_path c \<and> files d p = None"
    using d' prepareOSD_changes by auto
  moreover have "windows
        \<and> \<not> refused d OpMkdirAll (RecordingAbsPath abs_path c) \<and> \<not> refused d OpMkdirAll (dir (OSDTextAbsPath abs_path c))
        \<and> files d' (OSDFontFile c) \<noteq> None
        \<and> files d' (OSDTextAbsPath abs_path c) = Some (case files d (OSDTextAbsPath abs_path c) of None \<Rightarrow> [] | Some t \<Rightarrow> t)
        \<and> snd (run (FFmpegPath c) [''-version'']) = None
        \<and> snd (run (FFmpegPath c) [''-hide_banner'', ''-filters'']) = None
        \<and> contains (fst (run (FFmpegPath c) [''-hide_banner'', ''-filters''])) '' drawtext ''
        \<and> snd (run (MediaMTXPath c) [''--version'']) = None
        \<and> snd (run (MediaMTXPath c) [''--validate-conf='' @ MediaMTXConfig c]) = None" if "err = None"
  proof -
    note checks = Preflight_done [OF assms [unfolded that]]
    from checks prepareOSD_done [OF checks(2)] show ?thesis
      by (simp add: commandCheck_None ffmpegFilterCheck_None)
  qed
  ultimately show ?thesis by blast
qed

section \<open>Witnesses\<close>

definition example_join :: "string list \<Rightarrow> string" where "example_join = concat"

theorem capture_paths_agree_witness:
  "rtsp_targets (ffmpegArgsWithConfig Some (apply_env example_env Default) (copy_video Default (apply_env example_env Default)) ''libx264'') =
     [''rtsp://127.0.0.1:8554/screen_raw'', ''rtsp://127.0.0.1:8554/screen_sub_raw'']
   \<and> permits (mediaMTXEnv example_join Some (apply_env example_env Default)) 0 ''publish'' ''screen_sub_raw''
   \<and> \<not> permits (mediaMTXEnv example_join Some (apply_env example_env Default)) 0 ''publish'' ''other''
   \<and> (\<exists>token. streamURLForProfile \<lparr>s_cfg = apply_env example_env Default, s_ip = ''192.168.1.20'', s_uuid = []\<rparr> token
        = Some ''rtsp://192.168.1.20:8554/screen_sub'')"
proof -
  have port: "itoa 8554 = ''8554''" by (simp add: itoa_def dec_nat.simps digit_chars)
  note agree = capture_paths_agree [OF example_valid refl refl, of "\<lparr>s_cfg = apply_env example_env Default, s_ip = ''192.168.1.20'', s_uuid = []\<rparr>"]
  note defs = publicPaths_def loopback_url_def publishPath_def rawPath_def apply_env_eq Default_def
  have "rtsp_targets (ffmpegArgsWithConfig Some (apply_env example_env Default) (copy_video Default (apply_env example_env Default)) ''libx264'') =
     [''rtsp://127.0.0.1:8554/screen_raw'', ''rtsp://127.0.0.1:8554/screen_sub_raw'']"
    using agree [where abs_path = Some and v = Default and encoder = "''libx264''"] port by (simp add: defs)
  moreover have "permits (mediaMTXEnv example_join Some (apply_env example_env Default)) 0 ''publish'' ''screen_sub_raw''"
    "\<not> permits (mediaMTXEnv example_join Some (apply_env example_env Default)) 0 ''publish'' ''other''"
    using agree [where abs_path = Some and join = example_join and a = "''publish''" and q = "''screen_sub_raw''"]
      agree [where abs_path = Some and join = example_join and a = "''publish''" and q = "''other''"]
    by (simp_all add: defs)
  moreover have "\<exists>token. streamURLForProfile \<lparr>s_cfg = apply_env example_env Default, s_ip = ''192.168.1.20'', s_uuid = []\<rparr> token
        = Some ''rtsp://192.168.1.20:8554/screen_sub''"
    using agree [where u = "''rtsp://192.168.1.20:8554/screen_sub''"] port by (simp add: defs)
  ultimately show ?thesis by blast
qed

theorem external_users_only_read_witness:
  "\<not> permits (mediaMTXEnv example_join Some (apply_env example_env Default)) 1 ''publish'' ''screen''"
  using external_users_only_read [OF example_valid refl] by simp

definition example_case_config :: config where
  "example_case_config = apply_env example_env (Default\<lparr>SubstreamPath := ''SCREEN'', MetadataEnabled := False\<rparr>)"

lemma example_case_valid: "validate example_case_config = None" "RecordingEnabled example_case_config"
  "to_upper (SubstreamPath example_case_config) = to_upper (RTSPPath example_case_config)" "SubstreamEnabled example_case_config"
  by code_simp+

theorem recording_switch_witness:
  "RecordingEnabled example_case_config
   \<and> env_get (mediaMTXEnv example_join Some example_case_config)
       (setting_key (publishPath example_case_config (RTSPPath example_case_config)) ''RECORD'') = Some ''false''"
  using recording_switch [OF example_case_valid(1), of example_join Some] example_case_valid(2-4) by simp

theorem preflight_postcondition_witness:
  "files (snd (Preflight True (\<lambda>p a. ('' drawtext '', None)) Some (\<lambda>p. p) Default
     \<lparr>files = [''osd.txt'' \<mapsto> ''Door''], refused = \<lambda>op p. False, torn = Map.empty\<rparr>)) ''osd.txt'' = Some ''Door''"
  using preflight_postcondition [where windows = True and run = "\<lambda>p a. ('' drawtext '', None)" and abs_path = Some
      and dir = "\<lambda>p. p" and c = Default and d = "\<lparr>files = [''osd.txt'' \<mapsto> ''Door''], refused = \<lambda>op p. False, torn = Map.empty\<rparr>"
      and p = "''osd.txt''" and t = "''Door''", OF prod.collapse [symmetric]] by simp

end
