(* ===== verification/Quota.thy ===== *)
theory Quota
  imports Video "HOL-Library.Multiset" "HOL-Library.Sublist"
begin

text \<open>
  The recording quota (\<open>storageQuotaLoop\<close> and \<open>enforceQuota\<close> of \<open>internal/capture/capture.go\<close>). What
  \<open>filepath.WalkDir\<close> visits is a list of entries; \<open>sort.Slice\<close> is a parameter that any sorting
  function may take, since it promises no order for equal keys. Sizes and the limit are \<open>int64\<close>.
\<close>

section \<open>The files\<close>

record diskFile =
  df_path :: string
  df_size :: int
  df_mod :: time

datatype walk_entry = WalkError | WalkDirectory | WalkNoInfo | WalkFile diskFile

fun walk_files :: "walk_entry list \<Rightarrow> int \<Rightarrow> diskFile list \<Rightarrow> int \<times> diskFile list" where
  "walk_files [] tot fs = (tot, fs)"
| "walk_files (WalkFile f # es) tot fs = walk_files es (wrap64 (tot + df_size f)) (fs @ [f])"
| "walk_files (_ # es) tot fs = walk_files es tot fs"

definition quota_limit :: "config \<Rightarrow> int" where
  "quota_limit c = wrap64 (wrap64 (wrap64 (MaxRecordingGB c * 1024) * 1024) * 1024)"

definition protect_recent :: "config \<Rightarrow> time \<Rightarrow> time" where
  "protect_recent c now = now + wrap64 (wrap64 (- 2 * SegmentSeconds c) * second)"

fun quota_loop :: "time \<Rightarrow> int \<Rightarrow> diskFile list \<Rightarrow> int \<Rightarrow> disk \<Rightarrow> int \<times> disk" where
  "quota_loop protect limit [] tot d = (tot, d)"
| "quota_loop protect limit (f # fs) tot d =
     (if tot \<le> limit then (tot, d)
      else if df_mod f > protect then quota_loop protect limit fs tot d
      else
        (case os_Remove (df_path f) d of
           (True, d1) \<Rightarrow> quota_loop protect limit fs (wrap64 (tot - df_size f)) d1
         | (False, d1) \<Rightarrow> quota_loop protect limit fs tot d1))"

definition enforceQuota :: "(diskFile list \<Rightarrow> diskFile list) \<Rightarrow> config \<Rightarrow> walk_entry list \<Rightarrow> time \<Rightarrow> disk \<Rightarrow> disk" where
  "enforceQuota sorter c entries now d =
     (case walk_files entries 0 [] of
        (tot, fs) \<Rightarrow>
          if tot \<le> quota_limit c then d
          else snd (quota_loop (protect_recent c now) (quota_limit c) (sorter fs) tot d))"

text \<open>The rounds of \<open>storageQuotaLoop\<close>: at the start and at every tick, with what the walk finds.\<close>

definition storageQuotaLoop ::
  "(diskFile list \<Rightarrow> diskFile list) \<Rightarrow> config \<Rightarrow> (walk_entry list \<times> time) list \<Rightarrow> disk \<Rightarrow> disk"
where
  "storageQuotaLoop sorter c rounds d =
     (if \<not> RecordingEnabled c \<or> MaxRecordingGB c \<le> 0 then d
      else fold (\<lambda>(entries, now). enforceQuota sorter c entries now) rounds d)"

section \<open>Sorting\<close>

text \<open>What \<open>sort.Slice\<close> promises for the order by modification time.\<close>

locale file_sorter =
  fixes sorter :: "diskFile list \<Rightarrow> diskFile list"
  assumes sorter_perm: "mset (sorter fs) = mset fs"
    and sorter_sorted: "sorted (map df_mod (sorter fs))"
begin

lemma sorter_set: "set (sorter fs) = set fs"
  by (rule mset_eq_setD) (rule sorter_perm)

lemma sorter_sum: "sum_list (map g (sorter fs)) = sum_list (map (g :: diskFile \<Rightarrow> int) fs)"
  by (metis mset_map sorter_perm sum_mset_sum_list)

lemma sorter_distinct: "distinct (map g (sorter fs)) = distinct (map g fs)"
  by (metis distinct_count_atmost_1 mset_map set_map sorter_perm sorter_set)

end

interpretation by_age: file_sorter "sort_key df_mod"
  by unfold_locales simp_all

section \<open>The loop\<close>

definition sizes :: "diskFile list \<Rightarrow> int" where "sizes fs = sum_list (map df_size fs)"

lemma sizes_simps [simp]: "sizes [] = 0" "sizes (f # fs) = df_size f + sizes fs" "sizes (fs @ gs) = sizes fs + sizes gs"
  by (simp_all add: sizes_def)

lemma sizes_nonneg: "list_all (\<lambda>f. 0 \<le> df_size f) fs \<Longrightarrow> 0 \<le> sizes fs"
  by (induction fs) simp_all

definition walked :: "walk_entry list \<Rightarrow> diskFile list" where
  "walked es = concat (map (\<lambda>e. case e of WalkFile f \<Rightarrow> [f] | _ \<Rightarrow> []) es)"

lemma walk_files_eq:
  assumes "list_all (\<lambda>f. 0 \<le> df_size f) (walked es)" "0 \<le> tot" "tot + sizes (walked es) \<le> int64_max"
  shows "walk_files es tot fs = (tot + sizes (walked es), fs @ walked es)"
  using assms
proof (induction es tot fs rule: walk_files.induct)
  case (2 f es tot fs)
  have "0 \<le> sizes (walked es)" by (rule sizes_nonneg) (use 2 in \<open>simp add: walked_def\<close>)
  moreover have "wrap64 (tot + df_size f) = tot + df_size f"
    using 2 calculation by (intro wrap64_id) (simp_all add: walked_def int64_min_def)
  ultimately show ?case using 2 by (simp add: walked_def)
qed (simp_all add: walked_def)

text \<open>The files that the loop takes away; \<open>stuck\<close> says which paths the system does not let it remove.\<close>

fun quota_removed :: "time \<Rightarrow> int \<Rightarrow> (string \<Rightarrow> bool) \<Rightarrow> diskFile list \<Rightarrow> int \<Rightarrow> diskFile list" where
  "quota_removed protect limit stuck [] tot = []"
| "quota_removed protect limit stuck (f # fs) tot =
     (if tot \<le> limit then []
      else if df_mod f > protect \<or> stuck (df_path f) then quota_removed protect limit stuck fs tot
      else f # quota_removed protect limit stuck fs (tot - df_size f))"

definition stuck_path :: "disk \<Rightarrow> string \<Rightarrow> bool" where
  "stuck_path d p \<longleftrightarrow> refused d OpRemove p \<or> files d p = None"

definition without :: "diskFile list \<Rightarrow> disk \<Rightarrow> disk" where
  "without removed d = d\<lparr>files := (\<lambda>p. if p \<in> df_path ` set removed then None else files d p)\<rparr>"

lemma without_Nil: "without [] d = d" by (simp add: without_def)

lemma removed_subseq: "subseq (quota_removed protect limit stuck fs tot) fs"
  by (induction protect limit stuck fs tot rule: quota_removed.induct) auto

lemma removed_in: "f \<in> set (quota_removed protect limit stuck fs tot) \<Longrightarrow> f \<in> set fs"
  by (induction protect limit stuck fs tot rule: quota_removed.induct) (auto split: if_splits)

lemma removed_cong:
  "(\<And>f. f \<in> set fs \<Longrightarrow> stuck (df_path f) = stuck' (df_path f)) \<Longrightarrow>
     quota_removed protect limit stuck fs tot = quota_removed protect limit stuck' fs tot"
  by (induction fs arbitrary: tot) simp_all

lemma removed_old: "f \<in> set (quota_removed protect limit stuck fs tot) \<Longrightarrow> df_mod f \<le> protect \<and> \<not> stuck (df_path f)"
  by (induction protect limit stuck fs tot rule: quota_removed.induct) (auto split: if_splits)

lemma removed_enough:
  "limit < tot - sizes (quota_removed protect limit stuck fs tot) \<Longrightarrow> f \<in> set fs \<Longrightarrow>
     f \<in> set (quota_removed protect limit stuck fs tot) \<or> df_mod f > protect \<or> stuck (df_path f)"
  by (induction protect limit stuck fs tot rule: quota_removed.induct) (auto split: if_splits simp: algebra_simps)

lemma removed_needed:
  "quota_removed protect limit stuck fs tot \<noteq> [] \<Longrightarrow>
     limit < tot - sizes (butlast (quota_removed protect limit stuck fs tot))"
  by (induction protect limit stuck fs tot rule: quota_removed.induct) (auto split: if_splits simp: algebra_simps)

lemma removed_sizes:
  "list_all (\<lambda>f. 0 \<le> df_size f) fs \<Longrightarrow> sizes (quota_removed protect limit stuck fs tot) \<le> sizes fs"
  by (induction fs arbitrary: tot) (auto simp: sizes_nonneg intro: add_increasing)

lemma removed_oldest_first:
  assumes "sorted (map df_mod fs)" "f \<in> set (quota_removed protect limit stuck fs tot)" "g \<in> set fs" "df_mod g < df_mod f"
  shows "g \<in> set (quota_removed protect limit stuck fs tot) \<or> stuck (df_path g)"
  using assms
proof (induction protect limit stuck fs tot rule: quota_removed.induct)
  case (2 protect limit stuck h fs tot)
  have "df_mod f \<le> protect" using removed_old [OF 2(4)] by simp
  then show ?case using 2 by (auto split: if_splits)
qed simp

lemma quota_loop_eq:
  assumes "distinct (map df_path fs)" "list_all (\<lambda>f. 0 \<le> df_size f) fs" "sizes fs \<le> tot" "tot \<le> int64_max"
  shows "quota_loop protect limit fs tot d = (tot - sizes (quota_removed protect limit (stuck_path d) fs tot),
     without (quota_removed protect limit (stuck_path d) fs tot) d)"
  using assms
proof (induction fs arbitrary: tot d)
  case (Cons f fs)
  define d1 where "d1 = d\<lparr>files := (files d)(df_path f := None)\<rparr>"
  have nonneg: "0 \<le> sizes fs" using Cons.prems(2) by (simp add: sizes_nonneg)
  have rest: "distinct (map df_path fs)" "list_all (\<lambda>f. 0 \<le> df_size f) fs" using Cons.prems by simp_all
  have same: "quota_removed protect limit (stuck_path d1) fs tot' = quota_removed protect limit (stuck_path d) fs tot'" for tot'
  proof (rule removed_cong)
    fix g assume "g \<in> set fs"
    then have "df_path g \<noteq> df_path f" using Cons.prems(1) by (auto simp: image_iff)
    then show "stuck_path d1 (df_path g) = stuck_path d (df_path g)" by (simp add: stuck_path_def d1_def)
  qed
  have wrap: "wrap64 (tot - df_size f) = tot - df_size f"
    using Cons.prems nonneg by (intro wrap64_id) (simp_all add: int64_min_def)
  have d1: "without gs d1 = without (f # gs) d" for gs
    by (rule disk.equality) (auto simp: without_def d1_def)
  have step: "quota_loop protect limit fs tot d = (tot - sizes (quota_removed protect limit (stuck_path d) fs tot),
      without (quota_removed protect limit (stuck_path d) fs tot) d)"
    by (rule Cons.IH) (use rest Cons.prems in simp_all)
  have step1: "quota_loop protect limit fs (tot - df_size f) d1 =
      (tot - df_size f - sizes (quota_removed protect limit (stuck_path d1) fs (tot - df_size f)),
       without (quota_removed protect limit (stuck_path d1) fs (tot - df_size f)) d1)"
    by (rule Cons.IH) (use rest Cons.prems in simp_all)
  show ?case
    using step step1 by (simp add: os_Remove_def stuck_path_def [symmetric] d1_def [symmetric] wrap same d1 without_Nil)
qed (simp add: without_Nil)

section \<open>Properties\<close>

text \<open>
  The files of a walk as the quota needs them: distinct paths, sizes that add up within
  \<open>int64\<close>, and every path a file of the disk.
\<close>

definition walk_ok :: "walk_entry list \<Rightarrow> disk \<Rightarrow> bool" where
  "walk_ok es d \<longleftrightarrow> distinct (map df_path (walked es)) \<and> list_all (\<lambda>f. 0 \<le> df_size f \<and> files d (df_path f) \<noteq> None) (walked es)
     \<and> sizes (walked es) \<le> int64_max"

lemma enforceQuota_eq:
  assumes "file_sorter sorter" "walk_ok es d" "quota_limit c < sizes (walked es)"
  shows "enforceQuota sorter c es now d =
     without (quota_removed (protect_recent c now) (quota_limit c) (stuck_path d) (sorter (walked es)) (sizes (walked es))) d"
proof -
  have ok: "distinct (map df_path (walked es))" "list_all (\<lambda>f. 0 \<le> df_size f) (walked es)" "sizes (walked es) \<le> int64_max"
    using assms(2) by (simp_all add: walk_ok_def list_all_iff)
  have walk: "walk_files es 0 [] = (sizes (walked es), walked es)"
    using walk_files_eq [of es 0 "[]"] ok by simp
  have "quota_loop (protect_recent c now) (quota_limit c) (sorter (walked es)) (sizes (walked es)) d =
      (sizes (walked es) - sizes (quota_removed (protect_recent c now) (quota_limit c) (stuck_path d) (sorter (walked es)) (sizes (walked es))),
       without (quota_removed (protect_recent c now) (quota_limit c) (stuck_path d) (sorter (walked es)) (sizes (walked es))) d)"
    by (rule quota_loop_eq)
      (use ok in \<open>simp_all add: sizes_def list_all_iff file_sorter.sorter_set [OF assms(1)]
         file_sorter.sorter_sum [OF assms(1)] file_sorter.sorter_distinct [OF assms(1)]\<close>)
  then show ?thesis using assms(3) by (simp add: enforceQuota_def walk)
qed

lemma enforceQuota_below:
  assumes "walk_ok es d" "sizes (walked es) \<le> quota_limit c"
  shows "enforceQuota sorter c es now d = d"
  using walk_files_eq [of es 0 "[]"] assms by (simp add: enforceQuota_def walk_ok_def list_all_iff)

text \<open>
  Property C12: one round of the quota removes old recordings only, and exactly as many as it must.
  It takes files away oldest first, none that was modified within the last two segments, and stops
  as soon as the rest fits the limit; when the rest does not fit, every file that is left is
  recent or one the system does not let it remove. Nothing else on the disk changes. This
  holds for every sorting function that \<open>sort.Slice\<close> may be.
\<close>

theorem quota_removes_oldest:
  assumes "file_sorter sorter" "walk_ok es d"
  shows "\<exists>removed. subseq removed (sorter (walked es)) \<and> enforceQuota sorter c es now d = without removed d
    \<and> (\<forall>f \<in> set removed. df_mod f \<le> protect_recent c now)
    \<and> (quota_limit c < sizes (walked es) - sizes removed \<longrightarrow>
         (\<forall>f \<in> set (walked es). f \<in> set removed \<or> df_mod f > protect_recent c now \<or> refused d OpRemove (df_path f)))
    \<and> (removed \<noteq> [] \<longrightarrow> quota_limit c < sizes (walked es) - sizes (butlast removed))
    \<and> (\<forall>f \<in> set removed. \<forall>g \<in> set (walked es). df_mod g < df_mod f \<longrightarrow>
         g \<in> set removed \<or> refused d OpRemove (df_path g))"
proof (cases "quota_limit c < sizes (walked es)")
  case True
  let ?removed = "quota_removed (protect_recent c now) (quota_limit c) (stuck_path d) (sorter (walked es)) (sizes (walked es))"
  note sorter = file_sorter.sorter_set [OF assms(1)] file_sorter.sorter_sorted [OF assms(1)]
  have stuck: "stuck_path d (df_path f) = refused d OpRemove (df_path f)" if "f \<in> set (walked es)" for f
    using assms(2) that by (auto simp: walk_ok_def list_all_iff stuck_path_def)
  show ?thesis
  proof (intro exI [of _ ?removed] conjI ballI impI)
    show "enforceQuota sorter c es now d = without ?removed d" by (rule enforceQuota_eq [OF assms True])
    show "df_mod f \<le> protect_recent c now" if "f \<in> set ?removed" for f using removed_old that by blast
    show "f \<in> set ?removed \<or> df_mod f > protect_recent c now \<or> refused d OpRemove (df_path f)"
      if "quota_limit c < sizes (walked es) - sizes ?removed" "f \<in> set (walked es)" for f
      using removed_enough [OF that(1), of f] that(2) stuck sorter(1) by blast
    show "g \<in> set ?removed \<or> refused d OpRemove (df_path g)"
      if "f \<in> set ?removed" "g \<in> set (walked es)" "df_mod g < df_mod f" for f g
      using removed_oldest_first [OF sorter(2) that(1) _ that(3)] that(2) stuck sorter(1) by blast
  qed (rule removed_subseq, rule removed_needed)
next
  case False
  then show ?thesis using enforceQuota_below [OF assms(2)]
    by (intro exI [of _ "[]"]) (simp add: without_Nil)
qed

text \<open>
  The limit in bytes overflows for configurations that \<open>Validate\<close> accepts. At 2^33 GB it
  is negative, and a round removes every recording that is not recent, whatever their sizes.
\<close>

theorem quota_limit_overflows:
  assumes "file_sorter sorter" "walk_ok es d" "MaxRecordingGB c = 2 ^ 33" "f \<in> set (walked es)"
    "df_mod f \<le> protect_recent c now" "\<not> refused d OpRemove (df_path f)"
  shows "quota_limit c = - (2 ^ 63) \<and> files (enforceQuota sorter c es now d) (df_path f) = None
    \<and> validate (apply_env example_env (Default\<lparr>MaxRecordingGB := 2 ^ 33\<rparr>)) = None"
proof -
  have limit: "quota_limit c = - (2 ^ 63)" unfolding quota_limit_def assms(3) by (simp add: wrap64_def)
  have nonneg: "list_all (\<lambda>f. 0 \<le> df_size f) (walked es)" using assms(2) by (simp add: walk_ok_def list_all_iff)
  let ?removed = "quota_removed (protect_recent c now) (quota_limit c) (stuck_path d) (sorter (walked es)) (sizes (walked es))"
  have "0 \<le> sizes (walked es)" using nonneg by (rule sizes_nonneg)
  then have eq: "enforceQuota sorter c es now d = without ?removed d"
    by (intro enforceQuota_eq [OF assms(1,2)]) (simp add: limit)
  have "sizes ?removed \<le> sizes (sorter (walked es))"
    by (rule removed_sizes) (use nonneg in \<open>simp add: list_all_iff file_sorter.sorter_set [OF assms(1)]\<close>)
  also have "\<dots> = sizes (walked es)"
    unfolding sizes_def by (rule file_sorter.sorter_sum [OF assms(1)])
  finally have "quota_limit c < sizes (walked es) - sizes ?removed" by (simp add: limit)
  then have "f \<in> set ?removed"
    using removed_enough [of "quota_limit c" _ "protect_recent c now" "stuck_path d" "sorter (walked es)" f] assms
    by (auto simp: stuck_path_def walk_ok_def list_all_iff file_sorter.sorter_set)
  then have "files (enforceQuota sorter c es now d) (df_path f) = None" by (simp add: eq without_def)
  moreover have "validate (apply_env example_env (Default\<lparr>MaxRecordingGB := 2 ^ 33\<rparr>)) = None" by code_simp
  ultimately show ?thesis using limit by blast
qed

section \<open>Witnesses\<close>

definition example_walk :: "walk_entry list" where
  "example_walk = [WalkDirectory, WalkFile \<lparr>df_path = ''a.mp4'', df_size = 5, df_mod = 0\<rparr>, WalkNoInfo]"

definition example_recordings :: disk where
  "example_recordings = \<lparr>files = [''a.mp4'' \<mapsto> ''12345''], refused = \<lambda>op p. False, torn = Map.empty\<rparr>"

lemma example_walk_ok:
  "walk_ok example_walk example_recordings" "walked example_walk = [\<lparr>df_path = ''a.mp4'', df_size = 5, df_mod = 0\<rparr>]"
  by (simp_all add: walk_ok_def walked_def example_walk_def example_recordings_def int64_max_def)

theorem quota_removes_oldest_witness:
  "\<exists>removed. enforceQuota (sort_key df_mod) Default example_walk (10 ^ 12) example_recordings = without removed example_recordings
    \<and> subseq removed (sort_key df_mod (walked example_walk))"
  using quota_removes_oldest [OF by_age.file_sorter_axioms example_walk_ok(1), of Default "10 ^ 12"] by blast

theorem quota_limit_overflows_witness:
  "files (enforceQuota (sort_key df_mod) (Default\<lparr>MaxRecordingGB := 2 ^ 33\<rparr>) example_walk (10 ^ 12) example_recordings) ''a.mp4'' = None"
  using quota_limit_overflows [OF by_age.file_sorter_axioms example_walk_ok(1), of "Default\<lparr>MaxRecordingGB := 2 ^ 33\<rparr>"
      "\<lparr>df_path = ''a.mp4'', df_size = 5, df_mod = 0\<rparr>" "10 ^ 12"]
  by (simp add: example_walk_ok(2) protect_recent_def Default_def second_def wrap64_def example_recordings_def)

end
