(* ===== verification/Supervision.thy ===== *)
theory Supervision
  imports Pipeline Quota
begin

text \<open>
  The loops that keep the programs running (\<open>internal/capture/capture.go\<close>,
  \<open>internal/capture/metadata_relay.go\<close>, \<open>snapshotLoop\<close> of \<open>internal/onvif/server.go\<close>): how long each
  waits before the next attempt, the capture loop with its two flags and the restart channel as a
  step relation, the wait for MediaMTX, and the order in which \<open>Run\<close> starts everything. An
  attempt to run a program is its outcome: it did not start, or it ran for a while and ended.
\<close>

section \<open>Waiting between attempts\<close>

definition minDuration :: "duration \<Rightarrow> duration \<Rightarrow> duration" where
  "minDuration a b = (if a < b then a else b)"

definition next_backoff :: "duration \<Rightarrow> duration" where
  "next_backoff b = minDuration (wrap64 (b * 2)) (30 * second)"

datatype attempt = StartFailed | Ran duration

text \<open>The waits of \<open>superviseMediaMTX\<close> after each of these attempts.\<close>

fun mediamtx_waits :: "duration \<Rightarrow> attempt list \<Rightarrow> duration list" where
  "mediamtx_waits backoff [] = []"
| "mediamtx_waits backoff (a # attempts) =
     (let backoff = (case a of Ran d \<Rightarrow> if d > minute then second else backoff | StartFailed \<Rightarrow> backoff) in
      backoff # mediamtx_waits (next_backoff backoff) attempts)"

definition superviseMediaMTX :: "attempt list \<Rightarrow> duration list" where
  "superviseMediaMTX attempts = mediamtx_waits second attempts"

text \<open>The waits of \<open>superviseMetadataRelay\<close>; a run is how long it lasted.\<close>

fun relay_waits :: "duration \<Rightarrow> duration list \<Rightarrow> duration list" where
  "relay_waits backoff [] = []"
| "relay_waits backoff (run # runs) = backoff # relay_waits (next_backoff backoff) runs"

definition superviseMetadataRelay :: "duration list \<Rightarrow> duration list" where
  "superviseMetadataRelay runs = relay_waits second runs"

text \<open>
  The rounds of \<open>snapshotLoop\<close>: the stream is not ready, the pipe or the start of FFmpeg fails, or
  FFmpeg ran and gave some number of frames.
\<close>

datatype snapshot_round = NotReady | PipeFailed | WorkerStartFailed | WorkerRan nat

definition double_below :: "duration \<Rightarrow> duration" where
  "double_below b = (if b < 30 * second then wrap64 (b * 2) else b)"

fun snapshot_waits :: "duration \<Rightarrow> snapshot_round list \<Rightarrow> duration list" where
  "snapshot_waits backoff [] = []"
| "snapshot_waits backoff (NotReady # rounds) = second # snapshot_waits backoff rounds"
| "snapshot_waits backoff (PipeFailed # rounds) = backoff # snapshot_waits backoff rounds"
| "snapshot_waits backoff (WorkerStartFailed # rounds) = backoff # snapshot_waits (double_below backoff) rounds"
| "snapshot_waits backoff (WorkerRan frames # rounds) =
     (let backoff = (if frames \<ge> 1 then second else backoff) in
      backoff # snapshot_waits (double_below backoff) rounds)"

definition snapshotLoop :: "snapshot_round list \<Rightarrow> duration list" where
  "snapshotLoop rounds = snapshot_waits second rounds"

text \<open>
  The command of the worker. The frame rate is \<open>1000.0 / ms\<close> printed with three decimals: thousandths,
  rounded to the nearest with ties to even. Between 250 and 60000, which \<open>Validate\<close> allows, only 640, 3200 and
  16000 give ties, and their quotients are exact in binary, so the rounding of the division does not show.
\<close>

definition rate_thousandths :: "nat \<Rightarrow> nat" where
  "rate_thousandths ms =
     (let q = 1000000 div ms; r = 1000000 mod ms in
      if 2 * r > ms \<or> 2 * r = ms \<and> odd q then q + 1 else q)"

definition rate_text :: "nat \<Rightarrow> string" where
  "rate_text ms =
     (let m = rate_thousandths ms in
      dec_nat (m div 1000) @ ''.'' @ dec_nat (m div 100 mod 10) @ dec_nat (m div 10 mod 10) @ dec_nat (m mod 10))"

definition snapshot_args :: "config \<Rightarrow> string list" where
  "snapshot_args c =
     [''-hide_banner'', ''-loglevel'', ''error'', ''-nostdin'',
      ''-rtsp_transport'', ''tcp'', ''-i'', loopback_url c (RTSPPath c),
      ''-map'', ''0:v:0'',
      ''-vf'', ''fps='' @ rate_text (nat (SnapshotRefreshMS c)),
      ''-q:v'', ''5'', ''-f'', ''image2pipe'', ''-vcodec'', ''mjpeg'', ''pipe:1'']"

section \<open>The capture loop\<close>

text \<open>
  \<open>superviseFFmpeg\<close>: at the head of the loop, about to start FFmpeg with the configuration it
  has read, running FFmpeg with a configuration since a time, waiting before the next attempt, or
  returned. Settings may change between the reading and the start.
\<close>

datatype capture_phase = AtLoop | Prepared config | Running config time | Sleeping | Returned

text \<open>
  The loop shares the manager with the handlers and the relay. \<open>cs_signals\<close> counts the calls of
  \<open>UpdateConfig\<close> that have stored their settings and not yet sent on the channel.
\<close>

record capture_state =
  cs_phase :: capture_phase
  cs_backoff :: duration
  cs_manager :: manager
  cs_cancelled :: bool
  cs_signals :: nat

definition offline :: "manager \<Rightarrow> manager" where
  "offline m = m\<lparr>m_sourceReady := False, m_ready := False\<rparr>"

definition online :: "config \<Rightarrow> manager \<Rightarrow> manager" where
  "online cfg m =
     (let m = m\<lparr>m_sourceReady := True\<rparr> in if \<not> MetadataEnabled cfg then m\<lparr>m_ready := True\<rparr> else m)"

definition capture_start :: "manager \<Rightarrow> capture_state" where
  "capture_start m = \<lparr>cs_phase = AtLoop, cs_backoff = second, cs_manager = m, cs_cancelled = False, cs_signals = 0\<rparr>"

text \<open>
  The steps of the loop, then those of the others: the context is cancelled, an update stores valid
  settings and later signals, the relay sets \<open>ready\<close>.
\<close>

inductive capture_step :: "capture_state \<Rightarrow> capture_state \<Rightarrow> bool" where
  loop_ends: "cs_phase s = AtLoop \<Longrightarrow> cs_cancelled s \<Longrightarrow> capture_step s (s\<lparr>cs_phase := Returned\<rparr>)"
| reads: "cs_phase s = AtLoop \<Longrightarrow> \<not> cs_cancelled s \<Longrightarrow>
    capture_step s (s\<lparr>cs_phase := Prepared (m_cfg (cs_manager s)), cs_manager := offline (cs_manager s)\<rparr>)"
| start_fails: "cs_phase s = Prepared cfg \<Longrightarrow> capture_step s (s\<lparr>cs_phase := Sleeping\<rparr>)"
| starts: "cs_phase s = Prepared cfg \<Longrightarrow>
    capture_step s (s\<lparr>cs_phase := Running cfg now, cs_manager := online cfg (cs_manager s)\<rparr>)"
| process_exits: "cs_phase s = Running cfg started \<Longrightarrow> \<not> cs_cancelled s \<Longrightarrow>
    capture_step s (s\<lparr>cs_phase := Sleeping, cs_manager := offline (cs_manager s),
      cs_backoff := (if now - started > minute then second else cs_backoff s)\<rparr>)"
| restarts: "cs_phase s = Running cfg started \<Longrightarrow> m_restart (cs_manager s) \<Longrightarrow> \<not> cs_cancelled s \<Longrightarrow>
    capture_step s (s\<lparr>cs_phase := AtLoop, cs_manager := offline ((cs_manager s)\<lparr>m_restart := False\<rparr>), cs_backoff := second\<rparr>)"
| restart_cancelled: "cs_phase s = Running cfg started \<Longrightarrow> m_restart (cs_manager s) \<Longrightarrow> cs_cancelled s \<Longrightarrow>
    capture_step s (s\<lparr>cs_phase := Returned, cs_manager := offline ((cs_manager s)\<lparr>m_restart := False\<rparr>)\<rparr>)"
| run_cancelled: "cs_phase s = Running cfg started \<Longrightarrow> cs_cancelled s \<Longrightarrow>
    capture_step s (s\<lparr>cs_phase := Returned, cs_manager := offline (cs_manager s)\<rparr>)"
| wakes: "cs_phase s = Sleeping \<Longrightarrow>
    capture_step s (s\<lparr>cs_phase := AtLoop, cs_backoff := next_backoff (cs_backoff s)\<rparr>)"
| sleep_cancelled: "cs_phase s = Sleeping \<Longrightarrow> cs_cancelled s \<Longrightarrow> capture_step s (s\<lparr>cs_phase := Returned\<rparr>)"
| context_cancelled: "capture_step s (s\<lparr>cs_cancelled := True\<rparr>)"
| update_stores: "validate v = None \<Longrightarrow>
    capture_step s (s\<lparr>cs_manager := (cs_manager s)\<lparr>m_cfg := copy_video v (m_cfg (cs_manager s))\<rparr>, cs_signals := Suc (cs_signals s)\<rparr>)"
| update_signals: "cs_signals s = Suc n \<Longrightarrow>
    capture_step s (s\<lparr>cs_manager := (cs_manager s)\<lparr>m_restart := True\<rparr>, cs_signals := n\<rparr>)"
| relay_sets: "MetadataEnabled (m_cfg (cs_manager s)) \<Longrightarrow>
    capture_step s (s\<lparr>cs_manager := (cs_manager s)\<lparr>m_ready := b\<rparr>\<rparr>)"

inductive_cases capture_stepE: "capture_step s s'"

definition capture_reachable :: "manager \<Rightarrow> capture_state \<Rightarrow> bool" where
  "capture_reachable m = capture_step\<^sup>*\<^sup>* (capture_start m)"

section \<open>Waiting for MediaMTX\<close>

datatype wait_result = Connected | WaitCancelled | WaitTimeout

text \<open>
  \<open>waitTCP\<close>: \<open>dial t\<close> says how long a dial begun at \<open>t\<close> takes and whether it connects, \<open>late t\<close> how much
  later than asked the timer fires, \<open>cancelled t\<close> whether the context is done by then. The result
  comes with the times of the dials.
\<close>

function wait_tcp ::
  "(time \<Rightarrow> duration \<times> bool) \<Rightarrow> (time \<Rightarrow> duration) \<Rightarrow> (time \<Rightarrow> bool) \<Rightarrow> time \<Rightarrow> time \<Rightarrow> wait_result \<times> time list"
where
  "wait_tcp dial late cancelled deadline now =
     (if now < deadline then
        let (took, ok) = dial now; t1 = now + max 0 took; t2 = t1 + 250000000 + max 0 (late t1) in
        if ok then (Connected, [now])
        else if cancelled t2 then (WaitCancelled, [now])
        else (case wait_tcp dial late cancelled deadline t2 of (r, ts) \<Rightarrow> (r, now # ts))
      else (WaitTimeout, []))"
  by pat_completeness auto
termination
  by (relation "measure (\<lambda>(dial, late, cancelled, deadline, now). nat (deadline - now))") (auto simp: max_def)

declare wait_tcp.simps [simp del]

definition waitTCP ::
  "(time \<Rightarrow> duration \<times> bool) \<Rightarrow> (time \<Rightarrow> duration) \<Rightarrow> (time \<Rightarrow> bool) \<Rightarrow> time \<Rightarrow> duration \<Rightarrow> wait_result \<times> time list"
where
  "waitTCP dial late cancelled now timeout = wait_tcp dial late cancelled (now + timeout) now"

section \<open>The start\<close>

datatype run_error = RunPreflight preflight_error | RunEncoder string | RunMediaMTX string

datatype start_action =
    StartQuotaLoop
  | StartMediaMTX "string list"
  | StartRelay string string bool
  | RunFFmpegLoop string

text \<open>
  \<open>Run\<close> of the manager: what it starts, in order, or the error it returns. \<open>waited\<close> is the result of
  waiting for MediaMTX; with an error, the loops started before it go on.
\<close>

definition relay_starts :: "config \<Rightarrow> start_action list" where
  "relay_starts c =
     (if MetadataEnabled c then
        StartRelay (rawPath (RTSPPath c)) (RTSPPath c) True #
        (if SubstreamEnabled c then [StartRelay (rawPath (SubstreamPath c)) (SubstreamPath c) False] else [])
      else [])"

definition Manager_Run ::
  "bool \<Rightarrow> command_runner \<Rightarrow> (string list \<Rightarrow> string option) \<Rightarrow> (string \<Rightarrow> string option) \<Rightarrow> (string \<Rightarrow> string)
    \<Rightarrow> (string list \<Rightarrow> string) \<Rightarrow> wait_result \<Rightarrow> config \<Rightarrow> disk \<Rightarrow> run_error option \<times> start_action list \<times> disk"
where
  "Manager_Run windows run probe abs_path dir join waited c d =
     (case Preflight windows run abs_path dir c d of
        (Some e, d1) \<Rightarrow> (Some (RunPreflight e), [], d1)
      | (None, d1) \<Rightarrow>
          (case selectEncoder probe c of
             Inl e \<Rightarrow> (Some (RunEncoder e), [], d1)
           | Inr encoder \<Rightarrow>
               let loops = [StartQuotaLoop, StartMediaMTX (mediaMTXEnv join abs_path c)] in
               (case waited of
                  Connected \<Rightarrow> (None, loops @ relay_starts c @ [RunFFmpegLoop encoder], d1)
                | WaitCancelled \<Rightarrow> (Some (RunMediaMTX ''MediaMTX readiness: context canceled''), loops, d1)
                | WaitTimeout \<Rightarrow>
                    (Some (RunMediaMTX (''MediaMTX readiness: timeout waiting for 127.0.0.1:'' @ itoa (RTSPPort c))), loops, d1))))"

section \<open>Bounds of the waits\<close>

definition wait_ok :: "duration \<Rightarrow> duration \<Rightarrow> bool" where
  "wait_ok cap b \<longleftrightarrow> second \<le> b \<and> b \<le> cap * second"

lemma wait_okD: "wait_ok 30 b \<Longrightarrow> second \<le> b \<and> b \<le> 30000000000"
  by (simp add: wait_ok_def second_def)

lemma next_backoff_eq: "wait_ok 30 b \<Longrightarrow> next_backoff b = min (2 * b) (30 * second)"
  by (simp add: next_backoff_def minDuration_def wrap64_id wait_ok_def second_def int64_min_def int64_max_def)

lemma wait_ok_next: "wait_ok 30 b \<Longrightarrow> wait_ok 30 (next_backoff b)"
  unfolding next_backoff_eq by (simp add: wait_ok_def second_def)

lemma wait_ok_second: "wait_ok 30 second" "wait_ok 32 second"
  by (simp_all add: wait_ok_def second_def)

lemma mediamtx_waits_ok: "wait_ok 30 b \<Longrightarrow> list_all (wait_ok 30) (mediamtx_waits b attempts)"
  by (induction b attempts rule: mediamtx_waits.induct) (auto simp: wait_ok_second wait_ok_next Let_def split: attempt.splits)

lemma relay_waits_ok: "wait_ok 30 b \<Longrightarrow> list_all (wait_ok 30) (relay_waits b runs)"
  by (induction b runs rule: relay_waits.induct) (auto simp: wait_ok_next)

text \<open>The snapshot worker doubles without a cap: from one second it goes up to 32.\<close>

definition power_wait :: "duration \<Rightarrow> bool" where
  "power_wait b \<longleftrightarrow> b \<in> (\<lambda>k. 2 ^ k * second) ` {..5 :: nat}"

lemma power_wait_double: "power_wait b \<Longrightarrow> power_wait (double_below b)"
proof -
  assume "power_wait b"
  then obtain k where k: "k \<le> 5" "b = 2 ^ k * second" by (auto simp: power_wait_def)
  show ?thesis
  proof (cases "b < 30 * second")
    case True
    then have "(2 :: int) ^ k < 2 ^ 5" using k(2) by (simp add: second_def)
    then have "k < 5" by (simp only: power_strict_increasing_iff)
    moreover have "0 \<le> b" using k by (simp add: second_def)
    then have "wrap64 (b * 2) = b * 2"
      using True by (intro wrap64_id) (simp_all add: second_def int64_min_def int64_max_def)
    ultimately show ?thesis using True k unfolding power_wait_def
      by (intro image_eqI [of _ _ "Suc k"]) (simp_all add: double_below_def)
  next
    case False
    with \<open>power_wait b\<close> show ?thesis by (simp add: double_below_def)
  qed
qed

lemma power_wait_second: "power_wait second"
  unfolding power_wait_def by (rule image_eqI [of _ _ 0]) simp_all

lemma power_wait_ok: "power_wait b \<Longrightarrow> wait_ok 32 b"
proof -
  assume "power_wait b"
  then obtain k where k: "k \<le> 5" "b = 2 ^ k * second" by (auto simp: power_wait_def)
  have "(1 :: int) \<le> 2 ^ k" "(2 :: int) ^ k \<le> 2 ^ 5" using k(1) by (simp, intro power_increasing) simp_all
  then show ?thesis using k(2) by (simp add: wait_ok_def second_def)
qed

lemma snapshot_waits_ok: "power_wait b \<Longrightarrow> list_all (wait_ok 32) (snapshot_waits b rounds)"
  by (induction b rounds rule: snapshot_waits.induct)
    (auto simp: power_wait_ok power_wait_double power_wait_second wait_ok_second Let_def)

lemma relay_waits_nth:
  "i < length runs \<Longrightarrow> wait_ok 30 b \<Longrightarrow> relay_waits b runs ! i = min (2 ^ i * b) (30 * second)"
proof (induction runs arbitrary: i b)
  case (Cons run runs)
  show ?case
  proof (cases i)
    case 0
    then show ?thesis using Cons.prems by (simp add: wait_ok_def)
  next
    case (Suc j)
    have "relay_waits b (run # runs) ! i = min (2 ^ j * next_backoff b) (30 * second)"
      using Cons.IH [of j "next_backoff b"] Cons.prems Suc by (simp add: wait_ok_next)
    also have "\<dots> = min (2 ^ j * min (2 * b) (30 * second)) (30 * second)"
      using next_backoff_eq [OF Cons.prems(2)] by simp
    also have "\<dots> = min (2 ^ i * b) (30 * second)"
    proof -
      have "(1 :: int) \<le> 2 ^ j" by simp
      then have "30 * second \<le> 2 ^ j * (30 * second)" by (simp add: second_def)
      moreover have "2 ^ j * min (2 * b) (30 * second) = min (2 ^ i * b) (2 ^ j * (30 * second))"
        by (simp add: Suc min_mult_distrib_left)
      ultimately show ?thesis by simp
    qed
    finally show ?thesis .
  qed
qed simp

section \<open>The snapshot worker\<close>

lemma rate_thousandths_near:
  assumes "0 < ms"
  shows "2 * 1000000 \<le> 2 * (rate_thousandths ms * ms) + ms" "2 * (rate_thousandths ms * ms) \<le> 2 * 1000000 + ms"
proof -
  define q r where "q = 1000000 div ms" and "r = 1000000 mod ms"
  have eq: "1000000 = q * ms + r" and r: "r < ms"
    using assms by (simp_all only: q_def r_def div_mult_mod_eq mod_less_divisor)
  have rate: "rate_thousandths ms = (if 2 * r > ms \<or> 2 * r = ms \<and> odd q then q + 1 else q)"
    by (simp only: rate_thousandths_def Let_def q_def r_def)
  show "2 * 1000000 \<le> 2 * (rate_thousandths ms * ms) + ms" "2 * (rate_thousandths ms * ms) \<le> 2 * 1000000 + ms"
    unfolding rate using eq r by (auto simp: algebra_simps)
qed

text \<open>
  The worker reads the public main stream, which MediaMTX lets the internal user read with and without
  metadata, at a rate that is never zero and off by at most half a thousandth.
\<close>

lemma snapshot_worker_reads:
  assumes "validate c = None"
  shows "permits (mediaMTXEnv join abs_path c) 0 ''read'' (RTSPPath c) \<and> loopback_url c (RTSPPath c) \<in> set (snapshot_args c)
    \<and> rate_thousandths (nat (SnapshotRefreshMS c)) \<in> {17..4000}"
proof -
  have ms: "250 \<le> SnapshotRefreshMS c" "SnapshotRefreshMS c \<le> 60000"
    using assms by (simp_all add: validate_None_iff valid_config_def valid_osd_def)
  define n k where "n = nat (SnapshotRefreshMS c)" and "k = rate_thousandths n"
  have n: "250 \<le> n" "n \<le> 60000" using ms by (simp_all add: n_def)
  have near: "2000000 \<le> (2 * k + 1) * n" "2 * (k * n) \<le> 2000000 + n"
    using rate_thousandths_near [of n] n by (simp_all add: k_def algebra_simps)
  have "17 \<le> k"
  proof (rule ccontr)
    assume "\<not> 17 \<le> k"
    then have "(2 * k + 1) * n \<le> 33 * 60000" using n by (intro mult_mono) simp_all
    with near(1) show False by simp
  qed
  moreover have "k \<le> 4000"
  proof (rule ccontr)
    assume "\<not> k \<le> 4000"
    then have "4001 * n \<le> k * n" by (intro mult_right_mono) simp_all
    with near(2) n show False by simp
  qed
  moreover have "permits (mediaMTXEnv join abs_path c) 0 ''read'' (RTSPPath c)"
    using internal_permits [OF valid_paths(1,2) [OF assms]] by (auto simp: publicPaths_def publishPath_def)
  ultimately show ?thesis by (simp add: snapshot_args_def n_def k_def)
qed

section \<open>The invariant of the capture loop\<close>

lemma offline_simps [simp]:
  "m_sourceReady (offline m) = False" "m_ready (offline m) = False" "m_cfg (offline m) = m_cfg m"
  "m_restart (offline m) = m_restart m" "m_configPath (offline m) = m_configPath m"
  "m_sourceReady (online cfg m) = True" "m_ready (online cfg m) = (\<not> MetadataEnabled cfg \<or> m_ready m)"
  "m_cfg (online cfg m) = m_cfg m" "m_restart (online cfg m) = m_restart m"
  by (simp_all add: offline_def online_def Let_def)

definition is_running :: "capture_phase \<Rightarrow> bool" where
  "is_running p \<longleftrightarrow> (case p of Running _ _ \<Rightarrow> True | _ \<Rightarrow> False)"

lemma is_running_simps [simp]:
  "is_running (Running cfg t)" "\<not> is_running AtLoop" "\<not> is_running (Prepared cfg)" "\<not> is_running Sleeping" "\<not> is_running Returned"
  by (simp_all add: is_running_def)

text \<open>The settings that FFmpeg runs with or is about to run with.\<close>

definition holds_settings :: "capture_phase \<Rightarrow> config \<Rightarrow> bool" where
  "holds_settings p cfg \<longleftrightarrow> p = Prepared cfg \<or> (\<exists>t. p = Running cfg t)"

lemma holds_settings_simps [simp]:
  "holds_settings (Running cfg t) cfg' \<longleftrightarrow> cfg' = cfg" "holds_settings (Prepared cfg) cfg' \<longleftrightarrow> cfg' = cfg"
  "\<not> holds_settings AtLoop cfg" "\<not> holds_settings Sleeping cfg" "\<not> holds_settings Returned cfg"
  by (auto simp: holds_settings_def)

definition pending_update :: "capture_state \<Rightarrow> bool" where
  "pending_update s \<longleftrightarrow> m_restart (cs_manager s) \<or> 0 < cs_signals s"

definition video_of :: "config \<Rightarrow> config \<Rightarrow> bool" where
  "video_of c cfg \<longleftrightarrow> (\<exists>v. cfg = copy_video v c)"

lemma copy_video_twice: "copy_video v (copy_video w c) = copy_video v c"
  by (simp add: copy_video_def)

lemma copy_video_self: "copy_video c c = c"
  by (simp add: copy_video_def)

lemma video_of_copy: "video_of c cfg \<Longrightarrow> video_of c (copy_video v cfg)"
  by (auto simp: video_of_def copy_video_twice)

lemma video_of_metadata: "video_of c cfg \<Longrightarrow> MetadataEnabled cfg = MetadataEnabled c"
  by (auto simp: video_of_def copy_video_def)

text \<open>
  The five facts that every step keeps: the back-off is bounded; the source flag says whether FFmpeg
  runs; so does the public flag without metadata; settings only ever differ in the video fields; and
  a process that runs with old settings will be told to restart.
\<close>

definition capture_ok :: "config \<Rightarrow> capture_state \<Rightarrow> bool" where
  "capture_ok c s \<longleftrightarrow> wait_ok 30 (cs_backoff s)
     \<and> (m_sourceReady (cs_manager s) \<longleftrightarrow> is_running (cs_phase s))
     \<and> (\<not> MetadataEnabled c \<longrightarrow> (m_ready (cs_manager s) \<longleftrightarrow> is_running (cs_phase s)))
     \<and> video_of c (m_cfg (cs_manager s))
     \<and> (\<forall>cfg. holds_settings (cs_phase s) cfg \<longrightarrow> video_of c cfg \<and> (cfg = m_cfg (cs_manager s) \<or> pending_update s))"

lemma capture_ok_step: "capture_step s s' \<Longrightarrow> capture_ok c s \<Longrightarrow> capture_ok c s'"
proof (induction rule: capture_step.induct)
  case (starts s cfg now)
  then have "video_of c cfg" by (simp add: capture_ok_def)
  then show ?case using starts by (simp add: capture_ok_def video_of_metadata pending_update_def)
next
  case (update_stores v s)
  then show ?case by (simp add: capture_ok_def pending_update_def video_of_copy)
next
  case (update_signals s n)
  then show ?case by (simp add: capture_ok_def pending_update_def)
next
  case (relay_sets s b)
  then have "video_of c (m_cfg (cs_manager s))" by (simp add: capture_ok_def)
  with relay_sets(1) have "MetadataEnabled c" by (simp add: video_of_metadata)
  with relay_sets show ?case by (simp add: capture_ok_def pending_update_def)
next
  case (context_cancelled s)
  then show ?case by (simp add: capture_ok_def pending_update_def)
qed (simp_all add: capture_ok_def wait_ok_second wait_ok_next)

definition fresh_manager :: "config \<Rightarrow> string \<Rightarrow> manager" where
  "fresh_manager c path = SetConfigPath path (new_manager c)"

lemma capture_ok_start: "capture_ok c (capture_start (fresh_manager c path))"
  by (auto simp: capture_ok_def capture_start_def fresh_manager_def SetConfigPath_def new_manager_def wait_ok_second
      video_of_def intro: copy_video_self [symmetric])

lemma capture_ok_reachable: "capture_reachable (fresh_manager c path) s \<Longrightarrow> capture_ok c s"
  unfolding capture_reachable_def by (induction rule: rtranclp_induct) (auto intro: capture_ok_start capture_ok_step)

section \<open>Waiting is bounded\<close>

lemma wait_tcp_dials:
  "int (length (snd (wait_tcp dial late cancelled deadline now))) * 250000000 \<le> max 0 (deadline - now + 249999999)"
proof (induction dial late cancelled deadline now rule: wait_tcp.induct)
  case (1 dial late cancelled deadline now)
  show ?case
  proof (cases "now < deadline")
    case False
    then show ?thesis by (subst wait_tcp.simps) simp
  next
    case True
    define took ok t2 where "took = fst (dial now)" and "ok = snd (dial now)"
      and "t2 = now + max 0 took + 250000000 + max 0 (late (now + max 0 took))"
    have later: "now + 250000000 \<le> t2" by (simp add: t2_def)
    have eq: "wait_tcp dial late cancelled deadline now =
        (if ok then (Connected, [now]) else if cancelled t2 then (WaitCancelled, [now])
         else (case wait_tcp dial late cancelled deadline t2 of (r, ts) \<Rightarrow> (r, now # ts)))"
      using True by (subst wait_tcp.simps) (simp add: Let_def took_def ok_def t2_def case_prod_beta)
    have IH: "\<not> ok \<Longrightarrow> \<not> cancelled t2 \<Longrightarrow>
        int (length (snd (wait_tcp dial late cancelled deadline t2))) * 250000000 \<le> max 0 (deadline - t2 + 249999999)"
      using 1 [OF True refl prod.collapse refl refl] by (simp add: took_def ok_def t2_def)
    show ?thesis
    proof (cases "\<not> ok \<and> \<not> cancelled t2")
      case True
      then have "int (length (snd (wait_tcp dial late cancelled deadline now))) * 250000000
          = int (length (snd (wait_tcp dial late cancelled deadline t2))) * 250000000 + 250000000"
        by (simp add: eq case_prod_beta)
      with IH True later \<open>now < deadline\<close> show ?thesis by simp
    next
      case False
      with True show ?thesis by (auto simp: eq)
    qed
  qed
qed

section \<open>Properties\<close>

text \<open>
  Property C6: in every state that the capture loop, the updates, the relay and a cancellation can
  reach together, a running FFmpeg either has the current settings or will be told to restart: no
  accepted update is lost. It publishes the configured paths whatever was updated. The source flag
  says exactly whether FFmpeg runs, and without metadata so does the public flag.
\<close>

theorem capture_never_stale:
  assumes "capture_reachable (fresh_manager c path) s"
  shows "(\<forall>cfg t. cs_phase s = Running cfg t \<longrightarrow>
        (cfg = m_cfg (cs_manager s) \<or> m_restart (cs_manager s) \<or> 0 < cs_signals s)
        \<and> rtsp_targets (ffmpegArgsWithConfig abs_path c cfg encoder) = map (\<lambda>p. loopback_url c (publishPath c p)) (publicPaths c))
    \<and> (m_sourceReady (cs_manager s) \<longleftrightarrow> is_running (cs_phase s))
    \<and> (\<not> MetadataEnabled c \<longrightarrow> (m_ready (cs_manager s) \<longleftrightarrow> is_running (cs_phase s)))"
proof -
  have "rtsp_targets (ffmpegArgsWithConfig abs_path c (copy_video v c) encoder) =
      map (\<lambda>p. loopback_url c (publishPath c p)) (publicPaths c)" for v
    by (simp add: rtsp_targets_args publicPaths_def loopback_url_def)
  then show ?thesis
    using capture_ok_reachable [OF assms] by (auto simp: capture_ok_def pending_update_def video_of_def holds_settings_def)
qed

text \<open>
  A pending restart is taken. From a running FFmpeg with a signal on the channel, three
  steps of the loop lead to an FFmpeg with the current settings and an empty channel.
\<close>

theorem pending_restart_taken:
  assumes "cs_phase s = Running cfg t" "m_restart (cs_manager s)" "\<not> cs_cancelled s"
  shows "\<exists>s1 s2 s3. capture_step s s1 \<and> capture_step s1 s2 \<and> capture_step s2 s3
    \<and> cs_phase s3 = Running (m_cfg (cs_manager s)) now \<and> \<not> m_restart (cs_manager s3) \<and> cs_backoff s3 = second"
proof -
  let ?s1 = "s\<lparr>cs_phase := AtLoop, cs_manager := offline ((cs_manager s)\<lparr>m_restart := False\<rparr>), cs_backoff := second\<rparr>"
  let ?s2 = "?s1\<lparr>cs_phase := Prepared (m_cfg (cs_manager ?s1)), cs_manager := offline (cs_manager ?s1)\<rparr>"
  have "capture_step s ?s1" using assms by (rule restarts)
  moreover have "capture_step ?s1 ?s2" by (rule reads) (use assms(3) in simp_all)
  moreover have "capture_step ?s2 (?s2\<lparr>cs_phase := Running (m_cfg (cs_manager ?s1)) now,
      cs_manager := online (m_cfg (cs_manager ?s1)) (cs_manager ?s2)\<rparr>)"
    by (rule starts) simp
  ultimately show ?thesis by (intro exI conjI) (assumption, assumption, assumption, simp_all)
qed

text \<open>
  Property C24: the loops that restart a program never wait less than a second nor longer than their cap:
  30 seconds for MediaMTX, the relay and the capture loop, whatever happens to it, and 32 for the
  snapshot worker, which doubles once more after 16. The wait of the capture loop is the
  back-off of its state when it sleeps.
\<close>

theorem backoff_bounded:
  assumes "capture_reachable (fresh_manager c path) s"
  shows "wait_ok 30 (cs_backoff s)
    \<and> list_all (wait_ok 30) (superviseMediaMTX attempts) \<and> list_all (wait_ok 30) (superviseMetadataRelay runs)
    \<and> list_all (wait_ok 32) (snapshotLoop rounds)
    \<and> last (snapshotLoop (replicate 6 WorkerStartFailed)) = 32 * second"
proof -
  have "wait_ok 30 (cs_backoff s)" using capture_ok_reachable [OF assms] by (simp add: capture_ok_def)
  moreover
  have "last (snapshotLoop (replicate 6 WorkerStartFailed)) = 32 * second"
    by (simp add: snapshotLoop_def numeral_eq_Suc double_below_def second_def wrap64_def)
  ultimately show ?thesis
    using mediamtx_waits_ok relay_waits_ok snapshot_waits_ok wait_ok_second power_wait_second
    by (simp add: superviseMediaMTX_def superviseMetadataRelay_def snapshotLoop_def)
qed

text \<open>
  The relay's back-off only grows. The wait after its \<open>n\<close>-th run depends on \<open>n\<close> alone and not
  on how long the runs lasted, so from the sixth interruption on every one costs 30 seconds, even
  after days of service; MediaMTX, after a run of more than a minute, is restarted after one second.
\<close>

theorem relay_backoff_never_reset:
  assumes "i < length runs" "minute < d"
  shows "superviseMetadataRelay runs ! i = min (2 ^ i * second) (30 * second)
    \<and> hd (mediamtx_waits backoff (Ran d # attempts)) = second"
  using assms relay_waits_nth [OF assms(1) wait_ok_second(1)] by (simp add: superviseMetadataRelay_def)

text \<open>
  Property C23: the wait for MediaMTX ends. However the dials and timers behave, a wait of 20 seconds
  makes at most 80 of them.
\<close>

theorem wait_for_mediamtx_ends:
  "length (snd (waitTCP dial late cancelled now (20 * second))) \<le> 80"
  using wait_tcp_dials [of dial late cancelled "now + 20 * second" now] by (simp add: waitTCP_def second_def)

text \<open>
  FFmpeg runs only after everything it needs: the checks passed, an encoder works, MediaMTX
  answers, and with metadata a relay is there for each published stream.
\<close>

lemma ffmpeg_starts_last:
  assumes "Manager_Run windows run probe abs_path dir join waited c d = (err, actions, d')" "RunFFmpegLoop encoder \<in> set actions"
  shows "err = None \<and> fst (Preflight windows run abs_path dir c d) = None \<and> selectEncoder probe c = Inr encoder
    \<and> waited = Connected \<and> last actions = RunFFmpegLoop encoder
    \<and> (MetadataEnabled c \<longrightarrow> (\<forall>p \<in> set (publicPaths c). \<exists>b. StartRelay (publishPath c p) p b \<in> set actions))"
  using assms
  by (auto simp: Manager_Run_def relay_starts_def publicPaths_def publishPath_def Let_def
      split: prod.splits option.splits sum.splits wait_result.splits if_splits)

section \<open>Witnesses\<close>

definition example_running :: capture_state where
  "example_running = (capture_start (fresh_manager Default ''config.json''))
     \<lparr>cs_phase := Running Default 0, cs_manager := online Default (offline (fresh_manager Default ''config.json''))\<rparr>"

lemma example_running_reachable: "capture_reachable (fresh_manager Default ''config.json'') example_running"
proof -
  let ?s = "capture_start (fresh_manager Default ''config.json'')"
  let ?s1 = "?s\<lparr>cs_phase := Prepared Default, cs_manager := offline (fresh_manager Default ''config.json'')\<rparr>"
  have "capture_step ?s ?s1"
    using reads [of ?s] by (simp add: capture_start_def fresh_manager_def SetConfigPath_def new_manager_def)
  moreover have "capture_step ?s1 example_running"
    using starts [of ?s1 Default 0] by (simp add: example_running_def)
  ultimately show ?thesis unfolding capture_reachable_def by (blast intro: rtranclp.intros)
qed

text \<open>Two starts that fail, one after the other: the loop sleeps and has doubled its wait once.\<close>

definition example_sleeping :: capture_state where
  "example_sleeping = (capture_start (fresh_manager Default ''config.json''))
     \<lparr>cs_phase := Sleeping, cs_backoff := 2 * second, cs_manager := offline (fresh_manager Default ''config.json'')\<rparr>"

lemma fail_once:
  assumes "capture_reachable m s" "cs_phase s = AtLoop" "\<not> cs_cancelled s"
  shows "capture_reachable m (s\<lparr>cs_phase := Sleeping, cs_manager := offline (cs_manager s)\<rparr>)"
proof -
  have "capture_step s (s\<lparr>cs_phase := Prepared (m_cfg (cs_manager s)), cs_manager := offline (cs_manager s)\<rparr>)"
    using assms(2,3) by (rule reads)
  moreover have "capture_step (s\<lparr>cs_phase := Prepared (m_cfg (cs_manager s)), cs_manager := offline (cs_manager s)\<rparr>)
      (s\<lparr>cs_phase := Sleeping, cs_manager := offline (cs_manager s)\<rparr>)"
    using start_fails [of "s\<lparr>cs_phase := Prepared (m_cfg (cs_manager s)), cs_manager := offline (cs_manager s)\<rparr>"
        "m_cfg (cs_manager s)"] by (cases s) simp
  ultimately show ?thesis using assms(1) unfolding capture_reachable_def by (blast intro: rtranclp.rtrancl_into_rtrancl)
qed

lemma wake_up:
  assumes "capture_reachable m s" "cs_phase s = Sleeping"
  shows "capture_reachable m (s\<lparr>cs_phase := AtLoop, cs_backoff := next_backoff (cs_backoff s)\<rparr>)"
  using assms(1) wakes [OF assms(2)] unfolding capture_reachable_def by (rule rtranclp.rtrancl_into_rtrancl)

lemma example_sleeping_reachable: "capture_reachable (fresh_manager Default ''config.json'') example_sleeping"
proof -
  let ?m = "fresh_manager Default ''config.json''"
  have "capture_reachable ?m (capture_start ?m)" by (simp add: capture_reachable_def)
  then have "capture_reachable ?m ((capture_start ?m)\<lparr>cs_phase := Sleeping, cs_manager := offline ?m\<rparr>)"
    using fail_once [of ?m "capture_start ?m"] by (simp add: capture_start_def)
  from wake_up [OF this] have
    "capture_reachable ?m ((capture_start ?m)\<lparr>cs_phase := AtLoop, cs_backoff := 2 * second, cs_manager := offline ?m\<rparr>)"
    using next_backoff_eq [OF wait_ok_second(1)] by (simp add: capture_start_def second_def)
  from fail_once [OF this] show ?thesis
    by (simp add: example_sleeping_def capture_start_def offline_def)
qed

theorem backoff_bounded_witness:
  "cs_phase example_sleeping = Sleeping \<and> cs_backoff example_sleeping = 2 * second \<and> wait_ok 30 (cs_backoff example_sleeping)"
proof -
  have "cs_phase example_sleeping = Sleeping" "cs_backoff example_sleeping = 2 * second"
    by (simp_all add: example_sleeping_def)
  then show ?thesis using backoff_bounded [OF example_sleeping_reachable] by blast
qed

theorem capture_never_stale_witness:
  "m_sourceReady (cs_manager example_running)
   \<and> rtsp_targets (ffmpegArgsWithConfig Some Default Default ''libx264'') =
       map (\<lambda>p. loopback_url Default (publishPath Default p)) (publicPaths Default)"
  using capture_never_stale [OF example_running_reachable, of Some "''libx264''"] by (simp add: example_running_def)

theorem pending_restart_taken_witness:
  "\<exists>s1 s2 s3. capture_step (example_running\<lparr>cs_manager := (cs_manager example_running)\<lparr>m_restart := True\<rparr>\<rparr>) s1
     \<and> capture_step s1 s2 \<and> capture_step s2 s3 \<and> \<not> m_restart (cs_manager s3)"
  using pending_restart_taken [of "example_running\<lparr>cs_manager := (cs_manager example_running)\<lparr>m_restart := True\<rparr>\<rparr>" Default 0]
  by (simp add: example_running_def capture_start_def) blast

theorem relay_backoff_never_reset_witness:
  "superviseMetadataRelay (replicate 6 (10 ^ 15)) ! 5 = 30 * second"
  using relay_backoff_never_reset [of 5 "replicate 6 (10 ^ 15)" "2 * minute"] by (simp add: minute_def second_def)

end
