(* ===== verification/MainProgram.thy ===== *)
theory MainProgram
  imports Server Discovery Supervision Logging
begin

text \<open>
  The start of the program (\<open>cmd/cherrycctv/main.go\<close>) and of the server (\<open>New\<close> of
  \<open>internal/onvif/server.go\<close>): the choice of the LAN address, the steps of \<open>main\<close> up to the services
  with every way to stop before, and the state in which the services begin. The interfaces of the
  host are a list with their addresses in the 16-byte form; an address that is no IP address is left out.
\<close>

section \<open>The LAN address\<close>

text \<open>
  The inner loops of \<open>firstLANIPv4\<close> over the addresses of the interfaces that are up and not loopback.
  \<open>Inr\<close> is an early return, \<open>Inl\<close> the fallback at the end.
\<close>

fun scan_addresses :: "string \<Rightarrow> ip list \<Rightarrow> string + string" where
  "scan_addresses fallback [] = Inl fallback"
| "scan_addresses fallback (a # as) =
     (case ip_to4 a of
        None \<Rightarrow> scan_addresses fallback as
      | Some v4 \<Rightarrow>
          if ipv4_loopback v4 \<or> ipv4_link_local v4 then scan_addresses fallback as
          else
            let fallback = (if fallback = [] then ipv4_string v4 else fallback) in
            if ipv4_private v4 then Inr (ipv4_string v4) else scan_addresses fallback as)"

definition lan_addresses :: "net_interface list \<Rightarrow> ip list" where
  "lan_addresses ifaces = concat (map if_addrs (filter (\<lambda>i. if_up i \<and> \<not> if_loopback i) ifaces))"

text \<open>The interfaces, or the error of \<open>net.Interfaces\<close>.\<close>

definition firstLANIPv4 :: "(string, net_interface list) result \<Rightarrow> (string, string) result" where
  "firstLANIPv4 ifaces =
     (case ifaces of
        Inl e \<Rightarrow> Inl e
      | Inr is \<Rightarrow>
          (case scan_addresses [] (lan_addresses is) of
             Inr ip \<Rightarrow> Inr ip
           | Inl fallback \<Rightarrow>
               if fallback \<noteq> [] then Inr fallback
               else Inl ''no usable IPv4 address found; set advertise_ip in config''))"

section \<open>The server\<close>

definition new_server :: "golib \<Rightarrow> config \<Rightarrow> string \<Rightarrow> server" where
  "new_server lib c ip = \<lparr>s_cfg = c, s_ip = ip, s_uuid = stableUUID lib (SerialNumber c)\<rparr>"

text \<open>\<open>New\<close> without a controller; \<open>random\<close> is the secret of the authenticator.\<close>

definition new_server_state :: "string \<Rightarrow> config \<Rightarrow> bool \<Rightarrow> manager \<times> disk \<Rightarrow> server_state" where
  "new_server_state random c ready m =
     \<lparr>sv_auth = (if \<not> InsecureNoAuth c then Some (new_authenticator random (ONVIFUsername c) (ONVIFPassword c) (AuthRealm c)) else None),
      sv_broker = newEventBroker ready, sv_controller = False, sv_manager = m, sv_snapshot = [], sv_snapshotUpdated = 0\<rparr>"

definition SetVideoConfigController :: "server_state \<Rightarrow> server_state" where
  "SetVideoConfigController st = st\<lparr>sv_controller := True\<rparr>"

section \<open>The program\<close>

record command_line =
  fl_config :: string
  fl_noCapture :: bool
  fl_check :: bool
  fl_version :: bool

record host =
  h_lib :: golib
  h_json :: jsonlib
  h_env :: environment
  h_platform :: platform
  h_ifaces :: "(string, net_interface list) result"
  h_windows :: bool
  h_run :: command_runner
  h_random :: string

datatype main_result =
    ShowVersion
  | LoadFailed load_error
  | LogFailed log_error
  | NoAddress string
  | CheckSkipped
  | PreflightFailed preflight_error
  | CheckPassed
  | Serving server server_state RotatingWriter

text \<open>The address to advertise: the configured one, or the first of the LAN.\<close>

definition advertise_ip :: "host \<Rightarrow> config \<Rightarrow> (string, string) result" where
  "advertise_ip h c = (if AdvertiseIP c = [] then firstLANIPv4 (h_ifaces h) else Inr (AdvertiseIP c))"

text \<open>
  \<open>main\<close> until the three services run. With \<open>-no-capture\<close> the stream counts as ready and the server
  has no controller.
\<close>

definition main_program :: "host \<Rightarrow> command_line \<Rightarrow> disk \<Rightarrow> main_result \<times> disk" where
  "main_program h fl d =
     (if fl_version fl then (ShowVersion, d)
      else
        (case Load (h_json h) (h_env h) (fl_config fl) d of
           Inl e \<Rightarrow> (LoadFailed e, d)
         | Inr c \<Rightarrow>
             (case new_log (filepath_Dir (h_platform h)) (LogFile c) (LogMaxMB c) (LogBackups c) d of
                (Inl e, d1) \<Rightarrow> (LogFailed e, d1)
              | (Inr w, d1) \<Rightarrow>
                  (case advertise_ip h c of
                     Inl e \<Rightarrow> (NoAddress e, d1)
                   | Inr ip \<Rightarrow>
                       let mgr = SetConfigPath (fl_config fl) (new_manager c) in
                       if fl_check fl then
                         if fl_noCapture fl then (CheckSkipped, d1)
                         else
                           (case Preflight (h_windows h) (h_run h) (filepath_Abs (h_platform h)) (filepath_Dir (h_platform h)) c d1 of
                              (Some e, d2) \<Rightarrow> (PreflightFailed e, d2)
                            | (None, d2) \<Rightarrow> (CheckPassed, d2))
                       else
                         let ready = (if fl_noCapture fl then True else m_ready mgr);
                             st = new_server_state (h_random h) c ready (mgr, d1);
                             st = (if \<not> fl_noCapture fl then SetVideoConfigController st else st) in
                         (Serving (new_server (h_lib h) c ip) st w, d1)))))"

text \<open>
  What \<open>main\<close> then runs, each in its goroutine, and how it ends: with the first thing it hears of,
  an interrupt or a service that returned. A service's error counts as fatal, and cancels the context,
  only while the context is not cancelled yet. The result is that error, and whether the context
  is cancelled when \<open>main\<close> returns; the deferred \<open>cancel\<close> cancels it in any case.
\<close>

datatype service = ONVIFService | DiscoveryService | CaptureService

definition main_services :: "command_line \<Rightarrow> service list" where
  "main_services fl = [ONVIFService, DiscoveryService] @ (if \<not> fl_noCapture fl then [CaptureService] else [])"

datatype main_event = Interrupt | ServiceReturned "string option"

fun main_select :: "bool \<Rightarrow> main_event \<Rightarrow> string option \<times> bool" where
  "main_select cancelled Interrupt = (None, cancelled)"
| "main_select cancelled (ServiceReturned err) =
     (if err \<noteq> None \<and> \<not> cancelled then (err, True) else (None, cancelled))"

section \<open>Choosing the address\<close>

definition usable_addresses :: "net_interface list \<Rightarrow> ipv4 list" where
  "usable_addresses is = filter (\<lambda>v4. \<not> ipv4_loopback v4 \<and> \<not> ipv4_link_local v4) (List.map_filter ip_to4 (lan_addresses is))"

lemma ipv4_string_not_Nil [simp]: "ipv4_string v \<noteq> []"
  by (cases v) simp

lemma scan_addresses_eq:
  "scan_addresses fallback as =
     (let us = filter (\<lambda>v4. \<not> ipv4_loopback v4 \<and> \<not> ipv4_link_local v4) (List.map_filter ip_to4 as) in
      case find ipv4_private us of
        Some v4 \<Rightarrow> Inr (ipv4_string v4)
      | None \<Rightarrow> Inl (if fallback \<noteq> [] then fallback else case us of [] \<Rightarrow> [] | v4 # _ \<Rightarrow> ipv4_string v4))"
proof (induction fallback as rule: scan_addresses.induct)
  case (2 fallback a as)
  show ?case
  proof (cases "ip_to4 a")
    case None
    then show ?thesis using 2(1) [OF None] by (simp add: List.map_filter_simps)
  next
    case (Some v4)
    show ?thesis
    proof (cases "ipv4_loopback v4 \<or> ipv4_link_local v4")
      case True
      then show ?thesis using 2(2) [OF Some True] by (auto simp: List.map_filter_simps Some)
    next
      case False
      then show ?thesis using 2(3) [OF Some False refl] by (auto simp: List.map_filter_simps Some Let_def split: option.split)
    qed
  qed
qed (simp add: List.map_filter_simps)

lemma firstLANIPv4_eq:
  "firstLANIPv4 (Inr is) =
     (case find ipv4_private (usable_addresses is) of
        Some v4 \<Rightarrow> Inr (ipv4_string v4)
      | None \<Rightarrow>
          (case usable_addresses is of
             v4 # _ \<Rightarrow> Inr (ipv4_string v4)
           | [] \<Rightarrow> Inl ''no usable IPv4 address found; set advertise_ip in config''))"
  by (auto simp: firstLANIPv4_def scan_addresses_eq usable_addresses_def Let_def split: option.splits list.splits)

lemma first_lan_member:
  assumes "firstLANIPv4 (Inr is) = Inr ip"
  shows "\<exists>v4 \<in> set (usable_addresses is). ip = ipv4_string v4 \<and> (ipv4_private v4 \<or> list_all (\<lambda>v. \<not> ipv4_private v) (usable_addresses is))"
proof (cases "find ipv4_private (usable_addresses is)")
  case None
  then have none: "list_all (\<lambda>v. \<not> ipv4_private v) (usable_addresses is)"
    unfolding find_None_iff list_all_iff by blast
  show ?thesis using assms None none by (cases "usable_addresses is") (auto simp: firstLANIPv4_eq)
next
  case (Some v4)
  then have "v4 \<in> set (usable_addresses is)" "ipv4_private v4" by (auto simp: find_Some_iff)
  with Some assms show ?thesis by (auto simp: firstLANIPv4_eq)
qed

text \<open>The addresses of the host: sixteen bytes each.\<close>

definition host_addresses :: "net_interface list \<Rightarrow> bool" where
  "host_addresses is \<longleftrightarrow> list_all (\<lambda>i. list_all (\<lambda>a. length a = 16 \<and> list_all (\<lambda>b. b < 256) a) (if_addrs i)) is"

lemma ip_to4_inverse:
  assumes "ip_to4 a = Some v4" "list_all (\<lambda>b. b < 256) a"
  shows "ipv4_bytes v4 \<and> parse_ip (ipv4_string v4) = Some a"
proof -
  obtain w x y z where v4: "v4 = (w, x, y, z)" by (cases v4)
  have a: "take 12 a = replicate 10 0 @ [255, 255]" "drop 12 a = [w, x, y, z]"
    using assms(1) by (auto simp: ip_to4_def v4 split: if_splits list.splits)
  then have eq: "a = ipv4_mapped [w, x, y, z]"
    unfolding ipv4_mapped_def by (metis append_take_drop_id append_assoc)
  then have "ipv4_bytes v4" using assms(2) by (simp add: v4 ipv4_mapped_def)
  then show ?thesis using parse_ip_string [of w x y z] by (simp add: v4 eq)
qed

lemma usable_address_interface:
  assumes "v4 \<in> set (usable_addresses is)"
  shows "\<exists>i \<in> set is. if_up i \<and> \<not> if_loopback i \<and> (\<exists>a \<in> set (if_addrs i). ip_to4 a = Some v4)"
proof -
  from assms obtain a where a: "a \<in> set (lan_addresses is)" "ip_to4 a = Some v4"
    unfolding usable_addresses_def List.map_filter_def by auto
  then obtain i where "i \<in> set is" "if_up i" "\<not> if_loopback i" "a \<in> set (if_addrs i)"
    unfolding lan_addresses_def by auto
  with a(2) show ?thesis by blast
qed

section \<open>What main starts with\<close>

lemma Load_valid: "Load lib env path d = Inr c \<Longrightarrow> validate c = None"
  by (auto simp: Load_def Let_def split: if_splits option.splits read_result.splits)

lemma main_serving:
  assumes "main_program h fl d = (Serving s st w, d')"
  shows "\<exists>c ip. Load (h_json h) (h_env h) (fl_config fl) d = Inr c \<and> advertise_ip h c = Inr ip \<and> s = new_server (h_lib h) c ip
    \<and> \<not> fl_check fl \<and> \<not> fl_version fl
    \<and> sv_auth st = (if \<not> InsecureNoAuth c then Some (new_authenticator (h_random h) (ONVIFUsername c) (ONVIFPassword c) (AuthRealm c)) else None)
    \<and> (sv_controller st \<longleftrightarrow> \<not> fl_noCapture fl) \<and> fst (sv_manager st) = fresh_manager c (fl_config fl)"
  using assms
  by (auto simp: main_program_def Let_def new_server_state_def SetVideoConfigController_def fresh_manager_def
      split: if_splits sum.splits prod.splits option.splits)

lemma valid_advertise: "validate c = None \<Longrightarrow> AdvertiseIP c \<noteq> [] \<Longrightarrow> parse_ip (AdvertiseIP c) \<noteq> None"
  by (auto simp: validate_None_iff valid_config_def valid_device_def)

lemma valid_password: "validate c = None \<Longrightarrow> \<not> InsecureNoAuth c \<Longrightarrow> 12 \<le> length (ONVIFPassword c)"
  by (auto simp: validate_None_iff valid_config_def valid_credentials_def)

lemma first_lan_parses:
  assumes "firstLANIPv4 (Inr is) = Inr ip" "host_addresses is"
  shows "\<exists>i a. i \<in> set is \<and> if_up i \<and> \<not> if_loopback i \<and> a \<in> set (if_addrs i) \<and> parse_ip ip = Some a"
proof -
  obtain v4 where v4: "v4 \<in> set (usable_addresses is)" "ip = ipv4_string v4"
    using first_lan_member [OF assms(1)] by blast
  obtain i a where i: "i \<in> set is" "if_up i" "\<not> if_loopback i" "a \<in> set (if_addrs i)" "ip_to4 a = Some v4"
    using usable_address_interface [OF v4(1)] by blast
  have "list_all (\<lambda>b. b < 256) a" using assms(2) i(1,4) by (simp add: host_addresses_def list_all_iff)
  then show ?thesis using ip_to4_inverse [OF i(5)] i v4(2) by blast
qed

lemma find_first: "find P xs = (if filter P xs = [] then None else Some (hd (filter P xs)))"
  by (induction xs) simp_all

section \<open>Properties\<close>

text \<open>
  Property C26: the automatic address is an address of the host that can be reached: it belongs to an
  interface that is up and not loopback, is neither loopback nor link-local, and is private if the
  host has any private address. Discovery joins its groups on the first interface that carries
  this very address, which is that interface when no other one carries the address too.
\<close>

theorem lan_address_reachable:
  assumes "firstLANIPv4 (Inr is) = Inr ip" "host_addresses is"
  shows "(\<exists>v4 \<in> set (usable_addresses is). ip = ipv4_string v4
        \<and> (ipv4_private v4 \<or> list_all (\<lambda>v. \<not> ipv4_private v) (usable_addresses is)))
    \<and> (\<exists>i a j. i \<in> set is \<and> if_up i \<and> \<not> if_loopback i \<and> a \<in> set (if_addrs i) \<and> parse_ip ip = Some a
        \<and> interfaceForIP is ip = Some j \<and> j \<in> set is \<and> a \<in> set (if_addrs j)
        \<and> j = hd (filter (\<lambda>k. a \<in> set (if_addrs k)) is)
        \<and> (list_all (\<lambda>k. a \<in> set (if_addrs k) \<longrightarrow> k = i) is \<longrightarrow> j = i))"
proof -
  obtain i a where i: "i \<in> set is" "if_up i" "\<not> if_loopback i" "a \<in> set (if_addrs i)" "parse_ip ip = Some a"
    using first_lan_parses [OF assms] by blast
  define j where "j = hd (filter (\<lambda>k. a \<in> set (if_addrs k)) is)"
  have some: "filter (\<lambda>k. a \<in> set (if_addrs k)) is \<noteq> []" using i(1,4) by (auto simp: filter_empty_conv)
  then have "interfaceForIP is ip = Some j" using i(5) by (simp add: interfaceForIP_def find_first j_def)
  moreover have "j \<in> set (filter (\<lambda>k. a \<in> set (if_addrs k)) is)" unfolding j_def using some by (rule hd_in_set)
  then have "j \<in> set is" "a \<in> set (if_addrs j)" by simp_all
  moreover from this have "list_all (\<lambda>k. a \<in> set (if_addrs k) \<longrightarrow> k = i) is \<longrightarrow> j = i" by (simp add: list_all_iff)
  ultimately have "i \<in> set is \<and> if_up i \<and> \<not> if_loopback i \<and> a \<in> set (if_addrs i) \<and> parse_ip ip = Some a
        \<and> interfaceForIP is ip = Some j \<and> j \<in> set is \<and> a \<in> set (if_addrs j)
        \<and> j = hd (filter (\<lambda>k. a \<in> set (if_addrs k)) is)
        \<and> (list_all (\<lambda>k. a \<in> set (if_addrs k) \<longrightarrow> k = i) is \<longrightarrow> j = i)"
    using i j_def by (intro conjI) assumption+
  then show ?thesis using first_lan_member [OF assms(1)] by blast
qed

text \<open>
  Property C8: whatever the file, the environment and the command line are, the services start
  only with a valid configuration, an address that parses and a password of at least
  twelve characters unless authentication was switched off, and the encoder can be configured
  exactly when the capture runs too.
\<close>

theorem services_start_protected:
  assumes "main_program h fl d = (Serving s st w, d')" "h_ifaces h = Inr is" "host_addresses is"
  shows "validate (s_cfg s) = None \<and> parse_ip (s_ip s) \<noteq> None
    \<and> (InsecureNoAuth (s_cfg s) \<or> (\<exists>a. sv_auth st = Some a \<and> Password a = ONVIFPassword (s_cfg s) \<and> 12 \<le> length (Password a)))
    \<and> (sv_controller st \<longleftrightarrow> \<not> fl_noCapture fl) \<and> videoConfig s st = s_cfg s"
proof -
  obtain c ip where c: "Load (h_json h) (h_env h) (fl_config fl) d = Inr c" "advertise_ip h c = Inr ip"
    "s = new_server (h_lib h) c ip" "sv_controller st \<longleftrightarrow> \<not> fl_noCapture fl" "fst (sv_manager st) = fresh_manager c (fl_config fl)"
    "sv_auth st = (if \<not> InsecureNoAuth c then Some (new_authenticator (h_random h) (ONVIFUsername c) (ONVIFPassword c) (AuthRealm c)) else None)"
    using main_serving [OF assms(1)] by blast
  have valid: "validate c = None" using c(1) by (rule Load_valid)
  have "parse_ip ip \<noteq> None"
  proof (cases "AdvertiseIP c = []")
    case True
    then have "firstLANIPv4 (Inr is) = Inr ip" using c(2) assms(2) by (simp add: advertise_ip_def)
    then show ?thesis using first_lan_parses assms(3) by fastforce
  next
    case False
    then show ?thesis using c(2) valid_advertise [OF valid] by (simp add: advertise_ip_def)
  qed
  then show ?thesis using c valid valid_password [OF valid]
    by (auto simp: new_server_def new_authenticator_def videoConfig_def CurrentConfig_def fresh_manager_def
        SetConfigPath_def new_manager_def)
qed

text \<open>An IPv6 address is accepted for \<open>advertise_ip\<close>, but the URLs need brackets around it.\<close>

lemma ipv6_address_unbracketed:
  "validate (apply_env example_env (Default\<lparr>AdvertiseIP := ''::1''\<rparr>)) = None
   \<and> StreamURL (new_server lib (apply_env example_env (Default\<lparr>AdvertiseIP := ''::1''\<rparr>)) ''::1'')
       = ''rtsp://::1:8554/screen''"
proof
  show "validate (apply_env example_env (Default\<lparr>AdvertiseIP := ''::1''\<rparr>)) = None" by code_simp
  have "itoa 8554 = ''8554''" by (simp add: itoa_def dec_nat.simps digit_chars)
  then show "StreamURL (new_server lib (apply_env example_env (Default\<lparr>AdvertiseIP := ''::1''\<rparr>)) ''::1'')
       = ''rtsp://::1:8554/screen''"
    by (simp add: StreamURL_def new_server_def apply_env_eq Default_def)
qed

section \<open>Witnesses\<close>

definition example_ifaces :: "net_interface list" where
  "example_ifaces =
     [\<lparr>if_name = ''lo'', if_up = True, if_loopback = True, if_addrs = [ipv4_mapped [127, 0, 0, 1]]\<rparr>,
      \<lparr>if_name = ''eth0'', if_up = True, if_loopback = False, if_addrs = [ipv4_mapped [8, 8, 8, 8], ipv4_mapped [10, 0, 0, 5]]\<rparr>]"

lemma example_ifaces_ok:
  "host_addresses example_ifaces" "firstLANIPv4 (Inr example_ifaces) = Inr (ipv4_string (10, 0, 0, 5))"
  by (simp_all add: list_all_iff host_addresses_def example_ifaces_def firstLANIPv4_def lan_addresses_def Let_def ipv4_mapped_def
      ip_to4_mapped [unfolded ipv4_mapped_def, simplified] del: ipv4_string.simps)

theorem lan_address_reachable_witness:
  "map_option if_name (interfaceForIP example_ifaces (ipv4_string (10, 0, 0, 5))) = Some ''eth0''"
proof -
  obtain a j where j: "parse_ip (ipv4_string (10, 0, 0, 5)) = Some a"
    "interfaceForIP example_ifaces (ipv4_string (10, 0, 0, 5)) = Some j"
    "j = hd (filter (\<lambda>k. a \<in> set (if_addrs k)) example_ifaces)"
    using lan_address_reachable [OF example_ifaces_ok(2,1)] by blast
  moreover have "parse_ip (ipv4_string (10, 0, 0, 5)) = Some (ipv4_mapped [10, 0, 0, 5])" by (rule parse_ip_string) simp_all
  moreover have "if_name (hd (filter (\<lambda>k. ipv4_mapped [10, 0, 0, 5] \<in> set (if_addrs k)) example_ifaces)) = ''eth0''" by code_simp
  ultimately have "if_name j = ''eth0''" by (metis option.inject)
  then show ?thesis using j(2) by simp
qed

definition example_host :: host where
  "example_host = \<lparr>h_lib = example_lib, h_json = example_json, h_env = example_env, h_platform = example_platform,
     h_ifaces = Inr example_ifaces, h_windows = True, h_run = (\<lambda>p a. ([], None)), h_random = ''secret''\<rparr>"

definition example_line :: command_line where
  "example_line = \<lparr>fl_config = ''missing.json'', fl_noCapture = False, fl_check = False, fl_version = False\<rparr>"

lemma example_main: "\<exists>s st w d'. main_program example_host example_line example_empty_disk = (Serving s st w, d')"
proof -
  have load: "Load example_json example_env ''missing.json'' example_empty_disk = Inr (apply_env example_env Default)"
    using example_valid by (simp add: Load_def os_ReadFile_def example_empty_disk_def Let_def)
  obtain w d' where log: "new_log (filepath_Dir example_platform) (LogFile (apply_env example_env Default))
      (LogMaxMB (apply_env example_env Default)) (LogBackups (apply_env example_env Default)) example_empty_disk = (Inr w, d')"
    by (simp add: new_log_def open_log_def example_empty_disk_def os_MkdirAll_def os_OpenAppend_def os_Stat_def Let_def)
  have "advertise_ip example_host (apply_env example_env Default) = Inr (ipv4_string (10, 0, 0, 5))"
    using example_ifaces_ok(2) by (simp add: advertise_ip_def example_host_def apply_env_eq Default_def del: ipv4_string.simps)
  then show ?thesis
    using load log by (simp add: main_program_def example_line_def example_host_def Let_def)
qed

theorem services_start_protected_witness:
  "\<exists>s st w d'. main_program example_host example_line example_empty_disk = (Serving s st w, d')
     \<and> validate (s_cfg s) = None \<and> sv_controller st"
proof -
  obtain s st w d' where m: "main_program example_host example_line example_empty_disk = (Serving s st w, d')"
    using example_main by blast
  have "h_ifaces example_host = Inr example_ifaces" by (simp add: example_host_def)
  from services_start_protected [OF m this example_ifaces_ok(1)] m show ?thesis
    by (auto simp: example_line_def)
qed

end
