(* ===== verification/Spec2Isabelle.thy ===== *)
theory Spec2Isabelle
  imports Net Config Xml Digest Auth Durations Events Files Logging ConfigFile Video Soap Encoder Osd Server
    Discovery Relay Pipeline Quota Supervision MainProgram
begin

text \<open>
  A verification library for the desktop CCTV recorder.

  The program records a Windows desktop with FFmpeg, publishes it through MediaMTX as RTSP
  streams and presents itself to video recorders as an ONVIF camera. \<open>cmd/cherrycctv/main.go\<close> loads the
  configuration, opens the log, picks an address and starts three services: the ONVIF server
  over HTTP, the WS-Discovery responder over UDP, and the capture manager, which supervises
  MediaMTX, FFmpeg and the metadata relays. The server reads and changes the video settings
  through an interface that the capture manager implements; an accepted change is written to
  the configuration file and restarts FFmpeg. All Go code of \<open>cmd/\<close> and \<open>internal/\<close> was read; the
  theories follow its packages.

  Theories and the code they model

    \<^item> \<open>Prelude\<close>, \<open>Codec\<close>, \<open>Net\<close>, \<open>Files\<close>: the parts of the Go library that the code relies on, written
      out: \<open>int64\<close> arithmetic, \<open>strconv\<close>, \<open>strings\<close>, \<open>base64\<close>, \<open>hex\<close>, IP addresses, and a disk
      that may refuse any operation on any path. \<open>os.WriteFile\<close> truncates the file first, so a write
      that breaks off leaves the beginning of the new text in place of the old one.
    \<^item> \<open>Config\<close> and \<open>ConfigFile\<close>: \<open>internal/config/config.go\<close> (\<open>Config\<close>, \<open>Default\<close>, \<open>Load\<close>, \<open>applyEnv\<close>,
      \<open>Validate\<close>) and \<open>persistVideoConfig\<close> of \<open>internal/capture/capture.go\<close>. \<open>Validate\<close> is the list of its
      checks in their order.
    \<^item> \<open>Digest\<close> and \<open>Auth\<close>: \<open>internal/auth/digest.go\<close>. The authenticator is a record with its replay
      cache; \<open>VerifyHTTP\<close> and \<open>VerifyWSSE\<close> return the changed record.
    \<^item> \<open>Logging\<close>: \<open>internal/logging/rotate.go\<close>.
    \<^item> \<open>Xml\<close> and \<open>Soap\<close>: the XML helpers of \<open>internal/onvif/server.go\<close> over a list of tokens, and the
      texts of the answers.
    \<^item> \<open>Durations\<close> and \<open>Events\<close>: \<open>internal/onvif/events.go\<close>. The broker is a record; its goroutines are
      a step relation, in which a waiting pull and the ticker interleave in every way. One pull
      waits on a subscription; that a second one on the same subscription may sleep on is a theorem of its own.
    \<^item> \<open>Video\<close> and \<open>Encoder\<close>: the manager's configuration and \<open>UpdateConfig\<close> of \<open>internal/capture/capture.go\<close>,
      and \<open>internal/onvif/encoder_config.go\<close>.
    \<^item> \<open>Osd\<close>: \<open>internal/onvif/osd.go\<close>.
    \<^item> \<open>Server\<close>: the gate, the handlers and the dispatch of \<open>internal/onvif/server.go\<close>, with
      \<open>internal/onvif/metadata.go\<close>, and the cut of the snapshot stream into JPEG frames.
    \<^item> \<open>Discovery\<close>: \<open>internal/onvif/discovery.go\<close>.
    \<^item> \<open>Relay\<close>: \<open>internal/capture/metadata_relay.go\<close>. A run is its setup followed by any sequence of
      events of the loop and the packet callback.
    \<^item> \<open>Pipeline\<close>, \<open>Quota\<close> and \<open>Supervision\<close>: the rest of \<open>internal/capture/capture.go\<close>, that is the FFmpeg
      arguments, the environment of MediaMTX, the preflight, the recording quota, the restart loops with
      their waits, and the capture loop as a step relation over the state it shares with the handlers
      and the relay. The waits of \<open>snapshotLoop\<close> (\<open>internal/onvif/server.go\<close>) are there too.
    \<^item> \<open>MainProgram\<close>: \<open>cmd/cherrycctv/main.go\<close> and \<open>New\<close> of the server.

  What the lemmas show

    \<^item> Access. A Digest answer is accepted only with the right credentials. With \<open>qop\<close> it is accepted
      at most once, also across the expiry of the cache; without \<open>qop\<close> the code does not enter it in
      the cache, so it is accepted again while its nonce lives. The answer of an honest
      client is accepted, whether it quotes its parameters or not; a token not
      created in the future is accepted once. No unauthorized request changes the server. MediaMTX
      gives an outside client nothing but reading the public paths, and keeps the user that needs no
      password on the loopback addresses. The services start only with a valid
      configuration and credentials, or with authentication switched off on purpose.
    \<^item> Configuration. \<open>Validate\<close> equals a grouped declarative specification; \<open>Load\<close> returns valid
      configurations; an update of the running configuration is all or nothing, survives the file, is
      reported back for the stream it was for, and reaches
      FFmpeg: in every reachable state a process with old settings has a restart pending. The file is
      not all or nothing: a write that breaks off destroys it although the client is told of a failure. This
      theory puts the parts together: a persistent change that was answered 200 is what the program
      starts with the next time.
    \<^item> Events. The broker is bounded, the queue keeps its order, loses nothing below its bound and
      no wake-up of a pull that is alone on its subscription; an address given out for a subscription leads to
      it; what subscribers get, and the viewers of the metadata track, alternates and ends in the
      state of the source as it was last seen.
    \<^item> Files. On a disk that refuses nothing the log keeps its newest bytes; the quota removes the oldest recordings and only as
      many as needed, the OSD service refines a single optional text, the preflight changes no file
      that exists and creates at most the OSD text.
    \<^item> Texts. Escaping, parameter lists, addresses, frames and durations round trip; the paths of
      FFmpeg, MediaMTX, relay and server agree.
    \<^item> Bounds and termination. The waits of all restart loops, the limits and the numbers stay in their
      ranges; the wait for MediaMTX ends.
    \<^item> Limits of the code. Some theorems state where the code does not do what it should: two
      updates at once, answers without \<open>qop\<close>, tokens from the future or with another spelling of the nonce,
      files that a failed write cuts off, overflowing limits, a clock that jumps, and others, each with an instance on which it happens.

  Interfaces

  Where one part relies on another there is a locale, interpreted on the model: text codecs (\<open>Codec\<close>,
  \<open>Net\<close>, \<open>Xml\<close>), the file store (\<open>Files\<close>), the replay cache (\<open>Auth\<close>), the bounded queue (\<open>Events\<close>), the
  controller of the video configuration (\<open>Video\<close>, used by \<open>Encoder\<close>) and the sorting function (\<open>Quota\<close>).
  Functions that the code calls and that are not part of it, or that the library leaves open, are arguments:
  hashes and XML tokens (the record \<open>golib\<close>), JSON (\<open>jsonlib\<close>), paths, times and parsers of the platform
  (\<open>platform\<close>), the results of the RTSP client library (\<open>rtsp_calls\<close>), and running a program
  (\<open>command_runner\<close>). Clock readings and random bytes are arguments in the order in which the code takes them.

  Widths and termination

  Integers are \<open>int\<close> with \<open>wrap64\<close> where Go's \<open>int64\<close> may wrap, and words where the width is the point
  (RTP sequence numbers and time stamps, discovery's counter, UUID bytes). Recursion is on lists,
  or has a measure: the text that is left for the scanners, the backups still to shift, the decimals
  of a fraction, the time until the deadline of the wait for MediaMTX. The one fuel, in the prelude's
  removal of a repeated prefix, is the length of the text.

  Not modelled

  The HTTP listener with its time limits, sockets and multicast; the processes themselves, which are
  attempts with an outcome; the time limit of a single dial (a dial takes any finite time); the moments
  between the start or end of FFmpeg and the store of the ready flags; the environment that MediaMTX inherits; log messages; permission bits of files; the contents of JSON, XML and JPEG
  beyond what the code looks at; the signal handler;
  the scripts, \<open>mediamtx.yml\<close> and the documents, which are not Go.
\<close>

section \<open>From a request to the next start\<close>

text \<open>A request to change the video settings for good.\<close>

definition request_body :: "surroundings \<Rightarrow> http_request \<Rightarrow> xtoken list" where
  "request_body w r = fst (xml_tokens (w_lib w) (Body r))"

definition changes_settings :: "surroundings \<Rightarrow> http_request \<Rightarrow> bool" where
  "changes_settings w r \<longleftrightarrow> URLPath r \<in> {''/onvif/media_service'', ''/onvif/media2_service''}
     \<and> soapAction (request_body w r) = ''SetVideoEncoderConfiguration''
     \<and> equal_fold (elementText (request_body w r) ''ForcePersistence'') ''true''"

lemma gate_refusal_status:
  "readAuthorizedSOAP lib readable r now auth = (Inl resp, auth') \<Longrightarrow> rs_status resp \<noteq> 200"
  by (auto simp: readAuthorizedSOAP_def http_error_def challenge_def Let_def split: if_splits option.splits prod.splits)

lemma gate_passes_body: "readAuthorizedSOAP lib readable r now auth = (Inr body, auth') \<Longrightarrow> body = Body r"
  by (auto simp: readAuthorizedSOAP_def split: if_splits option.splits prod.splits)

lemma served_setting:
  assumes "changes_settings w r" "serve w s r st = (Some resp, st')" "rs_status resp = 200"
  shows "sv_controller st' = sv_controller st
    \<and> (\<exists>m2. setVideoEncoderConfiguration CurrentConfig (UpdateConfig (w_json w) (w_persist_text w)) (sv_controller st)
         (xml_error (w_platform w) (request_body w r)) (request_body w r) m2 (sv_manager st) = (Some resp, sv_manager st'))"
proof -
  have "\<exists>h m2. serve w s r st = soap_service w r h st \<and> h (request_body w r) = (\<lambda>now. set_encoder w m2 (request_body w r))"
  proof (cases "URLPath r = ''/onvif/media_service''")
    case True
    then have "serve w s r st = soap_service w r (\<lambda>body now. media w s body) st" by (simp add: serve_def)
    moreover have "media w s (request_body w r) = set_encoder w False (request_body w r)"
      using assms(1) by (simp add: changes_settings_def media_def fun_eq_iff)
    ultimately show ?thesis by (intro exI [of _ "\<lambda>body now. media w s body"] exI [of _ False]) simp
  next
    case False
    then have "serve w s r st = soap_service w r (\<lambda>body now. media2 w s body) st"
      using assms(1) by (simp add: serve_def changes_settings_def)
    moreover have "media2 w s (request_body w r) = set_encoder w True (request_body w r)"
      using assms(1) by (simp add: changes_settings_def media2_def fun_eq_iff)
    ultimately show ?thesis by (intro exI [of _ "\<lambda>body now. media2 w s body"] exI [of _ True]) simp
  qed
  then obtain h m2 where h: "serve w s r st = soap_service w r h st"
    "h (request_body w r) = (\<lambda>now. set_encoder w m2 (request_body w r))"
    by blast
  obtain gate auth where g: "readAuthorizedSOAP (w_lib w) (w_readable w) r (w_now w) (sv_auth st) = (gate, auth)"
    by (rule prod.exhaust)
  have "gate = Inr (Body r)"
  proof (cases gate)
    case (Inl resp')
    then show ?thesis using assms(2,3) g gate_refusal_status h(1) by (auto simp: soap_service_def)
  qed (use g gate_passes_body in blast)
  then have "set_encoder w m2 (request_body w r) (st\<lparr>sv_auth := auth\<rparr>) = (Some resp, st')"
    using assms(2) g h by (simp add: soap_service_def request_body_def)
  then show ?thesis by (auto simp: set_encoder_def split: prod.splits)
qed

lemma served_config: "videoConfig (new_server lib c ip) (st :: server_state) = (if sv_controller st then CurrentConfig (sv_manager st) else c)"
  by (simp add: videoConfig_def new_server_def)

lemma started_config:
  assumes "main_program h fl d = (Serving s st w, d')"
  shows "\<exists>c. Load (h_json h) (h_env h) (fl_config fl) d = Inr c \<and> videoConfig s st = c"
proof -
  obtain c ip where c: "Load (h_json h) (h_env h) (fl_config fl) d = Inr c" "s = new_server (h_lib h) c ip"
    "fst (sv_manager st) = fresh_manager c (fl_config fl)"
    using main_serving [OF assms] by blast
  then show ?thesis
    by (simp add: served_config CurrentConfig_def fresh_manager_def SetConfigPath_def new_manager_def)
qed

text \<open>
  Property C5: settings survive a restart. When a client's request to change the video settings for good
  is answered 200, and the program is started again on the files as the request left them, the new
  server reports exactly the configuration that the old one reported after the request. The
  file may hold other members, and earlier requests may have changed the running settings without the
  file. What is asked of the JSON library is that its text of the new document reads back.
\<close>

theorem settings_survive_restart:
  assumes "changes_settings w r" "serve w s r st = (Some resp, st')" "rs_status resp = 200"
    and "m_configPath (fst (sv_manager st)) = fl_config fl" "h_json h = w_json w"
    and "Load (w_json w) (h_env h) (fl_config fl) (snd (sv_manager st)) = Inr c"
    and "copy_video (CurrentConfig (sv_manager st)) c = CurrentConfig (sv_manager st)"
    and "os_ReadFile (snd (sv_manager st)) (fl_config fl) = ReadOk b" "config_json (w_json w) b doc"
    and "reads_back (w_json w) doc (videoConfig s st')" "video_int64 (videoConfig s st')"
    and "main_program h fl (snd (sv_manager st')) = (Serving s2 st2 wr, d2)"
  shows "videoConfig s2 st2 = videoConfig s st'"
proof -
  obtain m2 where set: "setVideoEncoderConfiguration CurrentConfig (UpdateConfig (w_json w) (w_persist_text w)) (sv_controller st)
      (xml_error (w_platform w) (request_body w r)) (request_body w r) m2 (sv_manager st) = (Some resp, sv_manager st')"
    and controller: "sv_controller st' = sv_controller st"
    using served_setting [OF assms(1-3)] by blast
  have "equal_fold (elementText (request_body w r) ''ForcePersistence'') ''true''"
    using assms(1) by (simp add: changes_settings_def)
  note persisted = set_encoder_persisted [OF set assms(3) this]
  define n where "n = CurrentConfig (sv_manager st')"
  have n: "videoConfig s st' = n" using persisted controller by (simp add: videoConfig_def n_def)
  have "copy_video n c = n"
    using persisted assms(7) by (metis copy_video_twice n_def)
  then have "Load (w_json w) (h_env h) (fl_config fl) (snd (sv_manager st')) = Inr (copy_video n c)"
    using persisted assms(4,10,11) unfolding n
    by (intro persisted_reload [OF assms(8,9) _ _ assms(6)]) (simp_all add: n_def)
  then show ?thesis
    using started_config [OF assms(12)] assms(5) n \<open>copy_video n c = n\<close> by auto
qed

section \<open>Witnesses\<close>

definition example_settings_tokens :: "xtoken list" where
  "example_settings_tokens =
     [StartElement ''Body'' [], StartElement ''SetVideoEncoderConfiguration'' []] @
     example_set_body ''screen_encoder'' ''Width'' 1920 @
     [StartElement ''ForcePersistence'' [], CharData ''true'', EndElement ''ForcePersistence'',
      EndElement ''SetVideoEncoderConfiguration'', EndElement ''Body'']"

definition example_settings_world :: surroundings where
  "example_settings_world = example_world\<lparr>w_lib := example_lib\<lparr>xml_tokens := \<lambda>_. (example_settings_tokens, AtEOF)\<rparr>\<rparr>"

definition example_settings_request :: http_request where
  "example_settings_request = example_request\<lparr>Method := ''POST'', URLPath := ''/onvif/media_service'', Body := ''<x/>''\<rparr>"

definition example_settings_state :: server_state where
  "example_settings_state = example_state\<lparr>sv_auth := None,
     sv_manager := (fresh_manager (apply_env example_env Default) ''config.json'', example_config_disk)\<rparr>"

definition example_settings_disk :: disk where
  "example_settings_disk = example_config_disk\<lparr>files := [''config.json'' \<mapsto> ''{...}'' @ [CHR 0x0A]]\<rparr>"

lemma example_settings_body: "request_body example_settings_world r = example_settings_tokens"
  by (simp add: request_body_def example_settings_world_def)

lemma example_settings_asked: "changes_settings example_settings_world example_settings_request"
  unfolding changes_settings_def example_settings_body
  by (simp add: example_settings_tokens_def example_set_body_def example_settings_request_def soapAction_def equal_fold_def
      trim_space_graphic graphic_def)

lemma example_settings_parse:
  "parseVideoEncoderConfiguration xerr example_settings_tokens = Inr (empty_request\<lparr>vr_Token := ''screen_encoder'', vr_Width := 1920\<rparr>)"
  by (simp add: parseVideoEncoderConfiguration_def example_settings_tokens_def example_set_body_def empty_request_def
      decode_configuration_def decode_resolution_def decode_int_field_def decode_int_itoa int64_min_def int64_max_def)

lemma example_settings_next:
  "next_config (apply_env example_env Default) (empty_request\<lparr>vr_Token := ''screen_encoder'', vr_Width := 1920\<rparr>)
     = Inr (apply_env example_env Default)"
proof -
  let ?c = "apply_env example_env Default"
  let ?r = "empty_request\<lparr>vr_Token := ''screen_encoder'', vr_Width := 1920\<rparr>"
  have c: "VideoBitrate ?c = ''4000k''" "Width ?c = 1920" "Height ?c = 1080" "FPS ?c = 15" "SubstreamEnabled ?c"
    by (simp_all add: apply_env_eq Default_def)
  have "apply_request ?c ?r = ?c"
    using kbps_4000 c
    by (intro config.equality)
      (simp_all add: apply_request_def set_gov_def is_sub_def empty_request_def set_width_def set_height_def
        set_fps_def set_bitrate_def given_or_def)
  then show ?thesis
    using c kbps_4000
    by (simp add: next_config_Inr encoder_guards_def is_sub_def empty_request_def set_gov_def set_width_def
        set_height_def set_fps_def set_bitrate_def given_or_def bad_size_def go_mod_def go_div_def)
qed

lemma example_video_members: "video_members (apply_env example_env Default) = video_members Default"
  by (simp add: video_members_def apply_env_eq)

lemma example_settings_persist:
  "persistVideoConfig example_json ''config.json'' (apply_env example_env Default) example_config_disk = (None, example_settings_disk)"
  by (simp add: persistVideoConfig_def os_ReadFile_def os_WriteFile_def example_config_disk_def example_json_def
      example_settings_disk_def Let_def)

lemma example_settings_json:
  "config_json example_json ''{}'' []" "reads_back example_json [] (apply_env example_env Default)"
  "video_int64 (apply_env example_env Default)"
  "os_ReadFile example_config_disk ''config.json'' = ReadOk ''{}''"
  "Load example_json example_env ''config.json'' example_config_disk = Inr (apply_env example_env Default)"
proof -
  show "config_json example_json ''{}'' []" by (simp add: config_json_def example_json_def ints_survive_def)
  show "reads_back example_json [] (apply_env example_env Default)"
    by (simp add: reads_back_def example_json_def example_doc_def example_video_members Let_def)
  show "video_int64 (apply_env example_env Default)" using example_defaults(2) by (simp add: video_int64_def apply_env_eq)
  show "os_ReadFile example_config_disk ''config.json'' = ReadOk ''{}''"
    by (simp add: os_ReadFile_def example_config_disk_def)
  then show "Load example_json example_env ''config.json'' example_config_disk = Inr (apply_env example_env Default)"
    using example_valid by (simp add: Load_def example_json_def Let_def)
qed

lemma example_settings_served:
  "serve example_settings_world example_server example_settings_request example_settings_state =
     (Some (soap ''<trt:SetVideoEncoderConfigurationResponse/>''),
      example_settings_state\<lparr>sv_manager :=
        ((fresh_manager (apply_env example_env Default) ''config.json'')\<lparr>m_restart := True\<rparr>, example_settings_disk)\<rparr>)"
proof -
  let ?c = "apply_env example_env Default"
  have update: "UpdateConfig example_json (\<lambda>e. []) ?c True (fresh_manager ?c ''config.json'', example_config_disk)
      = (UpdateOk, (fresh_manager ?c ''config.json'')\<lparr>m_restart := True\<rparr>, example_settings_disk)"
    using example_valid example_settings_persist copy_video_self
    by (simp add: UpdateConfig_def fresh_manager_def SetConfigPath_def new_manager_def Let_def)
  have "set_encoder example_settings_world False example_settings_tokens example_settings_state =
     (Some (soap ''<trt:SetVideoEncoderConfigurationResponse/>''),
      example_settings_state\<lparr>sv_manager := ((fresh_manager ?c ''config.json'')\<lparr>m_restart := True\<rparr>, example_settings_disk)\<rparr>)"
    using update example_settings_parse example_settings_next example_settings_asked
    unfolding changes_settings_def example_settings_body
    by (simp add: set_encoder_def setVideoEncoderConfiguration_def example_settings_state_def example_state_def
        example_settings_world_def example_world_def CurrentConfig_def fresh_manager_def SetConfigPath_def new_manager_def Let_def)
  moreover have "soapAction example_settings_tokens = ''SetVideoEncoderConfiguration''"
    using example_settings_asked unfolding changes_settings_def example_settings_body by simp
  ultimately show ?thesis
    by (simp add: serve_def soap_service_def readAuthorizedSOAP_def example_settings_request_def media_def)
      (simp add: media_def example_settings_state_def example_settings_world_def example_world_def example_state_def)
qed

definition example_restart_line :: command_line where
  "example_restart_line = example_line\<lparr>fl_config := ''config.json''\<rparr>"

lemma example_restart:
  "\<exists>s2 st2 wr d2. main_program example_host example_restart_line example_settings_disk = (Serving s2 st2 wr, d2)"
proof -
  let ?c = "apply_env example_env Default"
  have load: "Load example_json example_env ''config.json'' example_settings_disk = Inr ?c"
    using persisted_reload [OF example_settings_json(4,1,2) _ example_settings_json(5,3) _ example_settings_persist]
    by (simp add: copy_video_self example_valid)
  obtain wr d2 where log: "new_log (filepath_Dir example_platform) (LogFile ?c) (LogMaxMB ?c) (LogBackups ?c) example_settings_disk
      = (Inr wr, d2)"
    by (simp add: new_log_def open_log_def example_settings_disk_def example_config_disk_def os_MkdirAll_def os_OpenAppend_def
        os_Stat_def Let_def)
  have "advertise_ip example_host ?c = Inr (ipv4_string (10, 0, 0, 5))"
    using example_ifaces_ok(2) by (simp add: advertise_ip_def example_host_def apply_env_eq Default_def del: ipv4_string.simps)
  then show ?thesis
    using load log by (simp add: main_program_def example_restart_line_def example_line_def example_host_def Let_def)
qed

theorem settings_survive_restart_witness:
  "\<exists>s2 st2 wr d2. main_program example_host example_restart_line example_settings_disk = (Serving s2 st2 wr, d2)
     \<and> videoConfig s2 st2 = apply_env example_env Default"
proof -
  obtain s2 st2 wr d2 where m: "main_program example_host example_restart_line example_settings_disk = (Serving s2 st2 wr, d2)"
    using example_restart by blast
  have manager: "sv_manager example_settings_state = (fresh_manager (apply_env example_env Default) ''config.json'', example_config_disk)"
    "sv_controller example_settings_state" "w_json example_settings_world = example_json"
    by (simp_all add: example_settings_state_def example_state_def example_settings_world_def example_world_def)
  have "videoConfig s2 st2 = videoConfig example_server (example_settings_state\<lparr>sv_manager :=
        ((fresh_manager (apply_env example_env Default) ''config.json'')\<lparr>m_restart := True\<rparr>, example_settings_disk)\<rparr>)"
    by (rule settings_survive_restart [OF example_settings_asked example_settings_served, where h = example_host
          and fl = example_restart_line and c = "apply_env example_env Default" and b = "''{}''" and doc = "[]"
          and ?s2.0 = s2 and ?st2.0 = st2 and wr = wr and ?d2.0 = d2])
      (use m manager example_settings_json copy_video_self in \<open>simp_all add: soap_def example_host_def example_restart_line_def
         CurrentConfig_def videoConfig_def fresh_manager_def SetConfigPath_def new_manager_def\<close>)
  with m manager(2) show ?thesis
    by (auto simp: videoConfig_def CurrentConfig_def fresh_manager_def SetConfigPath_def new_manager_def)
qed

end
